(* ===== verification/Prelude.thy ===== *)
theory Prelude
  imports Main
begin

text \<open>
  Shared vocabulary of the Yatube development: the names of the identifier types of
  the Django models, the theorem collections the component theories fill, and generic
  facts on lists (lookup by a unique key, appending a row, ordering by a key) that
  every table of the model uses.
\<close>

named_theorems db_simps "equations of the ORM queries of the data model"
named_theorems view_simps "unfolding equations of the view handlers"

type_synonym user_id = nat
type_synonym post_id = nat
type_synonym group_id = nat
type_synonym timestamp = nat

text \<open>
  A table of the relational store is a list of rows in insertion order; a lookup
  \<open>get(pk=k)\<close> or \<open>get(slug=k)\<close> is \<^const>\<open>find\<close> on the key, and is unambiguous
  when the key column is distinct (a \<open>unique=True\<close> column or a primary key).
\<close>

lemma find_key_unique:
  assumes "distinct (map key xs)"
  shows "(find (\<lambda>x. key x = k) xs = Some x) = (x \<in> set xs \<and> key x = k)"
  using assms
proof (induction xs)
  case Nil
  then show ?case by simp
next
  case (Cons y ys)
  then show ?case by (auto simp: image_iff)
qed

lemma find_None_key:
  "(find (\<lambda>x. key x = k) xs = None) = (k \<notin> key ` set xs)"
  by (auto simp: find_None_iff)

lemma find_append_fresh:
  "\<forall>y \<in> set xs. \<not> P y \<Longrightarrow> find P (xs @ [x]) = (if P x then Some x else None)"
  by (induction xs) auto

lemma find_append_old:
  "find P xs = Some y \<Longrightarrow> find P (xs @ zs) = Some y"
  by (induction xs) auto

lemma find_map_key_same:
  assumes "\<And>x. key (f x) = key x"
  shows "find (\<lambda>x. key x = k) (map f xs) = map_option f (find (\<lambda>x. key x = k) xs)"
  by (induction xs) (simp_all add: assms)

text \<open>
  Newest first: the rows sorted by a timestamp key, descending. When the table is
  already strictly increasing in the key (rows appended with a later timestamp), the
  order is the reversed table.
\<close>

lemma rev_sort_key_sorted:
  "sorted_wrt (<) (map key xs) \<Longrightarrow> rev (sort_key key xs) = rev xs"
  by (simp add: sort_key_id_if_sorted strict_sorted_iff)

lemma sorted_wrt_less_append:
  "sorted_wrt (<) (map key (xs @ [x])) =
     (sorted_wrt (<) (map key xs) \<and> (\<forall>y \<in> set xs. key y < key x))"
  by (auto simp: sorted_wrt_append)

lemma sorted_wrt_less_filter:
  "sorted_wrt (<) (map key xs) \<Longrightarrow> sorted_wrt (<) (map key (filter P xs))"
  by (induction xs) auto

lemma sorted_wrt_less_map_same:
  assumes "\<And>x. key (f x) = key x"
  shows "sorted_wrt (<) (map key (map f xs)) = sorted_wrt (<) (map key xs)"
  by (simp add: assms comp_def)

lemma length_filter_key_distinct:
  "distinct (map g xs) \<Longrightarrow> length (filter (\<lambda>x. g x = k) xs) \<le> 1"
  by (induction xs) (auto simp: filter_empty_conv image_iff)

end
