(* ===== verification/Python.thy ===== *)
theory Python
  imports Prelude
begin

text \<open>
  The Python and Django primitives that Yatube's code relies on for its inputs:
  \<open>str.strip()\<close> (form fields strip their value), \<open>int(str)\<close> (the paginator's page
  number and a model-choice primary key), and \<open>QueryDict.get\<close> (the last value of a
  query parameter). Characters are modelled as \<^typ>\<open>char\<close>, so only the ASCII part of
  Python's Unicode tables is covered: a non-ASCII digit or space is not a digit or a
  space here.
\<close>

definition py_isspace :: "char \<Rightarrow> bool" where
  "py_isspace c \<longleftrightarrow> of_char c \<in> {9, 10, 11, 12, 13, 28, 29, 30, 31, 32 :: nat}"

definition py_isdigit :: "char \<Rightarrow> bool" where
  "py_isdigit c \<longleftrightarrow> 48 \<le> (of_char c :: nat) \<and> (of_char c :: nat) \<le> 57"

definition digit_value :: "char \<Rightarrow> nat" where
  "digit_value c = of_char c - 48"

text \<open>\<open>s.strip()\<close>: drop whitespace at both ends.\<close>

definition py_strip :: "string \<Rightarrow> string" where
  "py_strip s = rev (dropWhile py_isspace (rev (dropWhile py_isspace s)))"

text \<open>
  \<open>int(s)\<close> for a \<^typ>\<open>string\<close>: surrounding whitespace is ignored, one optional sign,
  then decimal digits in which single underscores may separate two digits (PEP 515).
  Anything else raises \<open>ValueError\<close>, here \<^const>\<open>None\<close>. The digits after the first
  are read by \<open>py_digits\<close> with the value read so far as accumulator.
\<close>

fun py_digits :: "nat \<Rightarrow> string \<Rightarrow> nat option" where
  "py_digits acc [] = Some acc"
| "py_digits acc (c # cs) =
     (if py_isdigit c then py_digits (10 * acc + digit_value c) cs
      else if c = CHR ''_'' then
        (case cs of
          d # ds \<Rightarrow> if py_isdigit d then py_digits (10 * acc + digit_value d) ds else None
        | [] \<Rightarrow> None)
      else None)"

definition py_unsigned :: "string \<Rightarrow> nat option" where
  "py_unsigned s =
     (case s of
        [] \<Rightarrow> None
      | c # cs \<Rightarrow> if py_isdigit c then py_digits (digit_value c) cs else None)"

definition python_int :: "string \<Rightarrow> int option" where
  "python_int s =
     (case py_strip s of
        c # cs \<Rightarrow>
          if c = CHR ''-'' then map_option (\<lambda>n. - int n) (py_unsigned cs)
          else if c = CHR ''+'' then map_option int (py_unsigned cs)
          else map_option int (py_unsigned (c # cs))
      | [] \<Rightarrow> None)"

text \<open>\<open>str(n)\<close> for a natural number: its decimal digits.\<close>

fun decimal_string :: "nat \<Rightarrow> string" where
  "decimal_string n =
     (if n < 10 then [char_of (48 + n)] else decimal_string (n div 10) @ [char_of (48 + n mod 10)])"

declare decimal_string.simps [simp del]

text \<open>
  \<open>QueryDict.get(key)\<close>: a query string or form body is a list of key/value pairs,
  a key may repeat, and \<open>get\<close> returns the last value given for it.
\<close>

definition qd_get :: "('k \<times> 'v) list \<Rightarrow> 'k \<Rightarrow> 'v option" where
  "qd_get kvs k = map_of (rev kvs) k"

abbreviation dec_fold :: "nat \<Rightarrow> string \<Rightarrow> nat" where
  "dec_fold acc ds \<equiv> foldl (\<lambda>a c. 10 * a + digit_value c) acc ds"

lemma py_digits_digits:
  "\<forall>c \<in> set ds. py_isdigit c \<Longrightarrow> py_digits acc ds = Some (dec_fold acc ds)"
  by (induction ds arbitrary: acc) auto

lemma of_char_digit: "(k::nat) < 10 \<Longrightarrow> of_char (char_of (48 + k) :: char) = 48 + k"
  by (simp add: of_char_of)

lemma py_isdigit_char_of: "(k::nat) < 10 \<Longrightarrow> py_isdigit (char_of (48 + k))"
  by (simp add: py_isdigit_def of_char_digit)

lemma digit_value_char_of: "k < 10 \<Longrightarrow> digit_value (char_of (48 + k)) = k"
  by (simp add: digit_value_def of_char_digit)

lemma decimal_string_digits: "\<forall>c \<in> set (decimal_string n). py_isdigit c"
proof (induction n rule: decimal_string.induct)
  case (1 n)
  then show ?case
    by (subst decimal_string.simps) (auto intro: py_isdigit_char_of)
qed

lemma decimal_string_value: "dec_fold 0 (decimal_string n) = n"
proof (induction n rule: decimal_string.induct)
  case (1 n)
  show ?case
  proof (cases "n < 10")
    case True
    then show ?thesis by (subst decimal_string.simps) (simp add: digit_value_char_of)
  next
    case False
    with "1.IH" show ?thesis
      by (subst decimal_string.simps) (simp add: digit_value_char_of)
  qed
qed

lemma decimal_string_nonempty: "decimal_string n \<noteq> []"
  by (subst decimal_string.simps) simp

lemma digit_not_space: "py_isdigit c \<Longrightarrow> \<not> py_isspace c"
  by (auto simp: py_isdigit_def py_isspace_def)

lemma py_strip_no_space: "\<forall>c \<in> set s. \<not> py_isspace c \<Longrightarrow> py_strip s = s"
proof -
  assume none: "\<forall>c \<in> set s. \<not> py_isspace c"
  have "dropWhile py_isspace xs = xs" if "set xs \<subseteq> set s" for xs
    using that none by (cases xs) auto
  then show ?thesis by (simp add: py_strip_def)
qed

lemma py_unsigned_digits:
  assumes "ds \<noteq> []" and "\<forall>c \<in> set ds. py_isdigit c"
  shows "py_unsigned ds = Some (dec_fold 0 ds)"
proof (cases ds)
  case Nil
  with assms show ?thesis by simp
next
  case (Cons c cs)
  with assms show ?thesis by (simp add: py_unsigned_def py_digits_digits)
qed

lemma py_unsigned_decimal_string: "py_unsigned (decimal_string n) = Some n"
  using py_unsigned_digits [OF decimal_string_nonempty decimal_string_digits]
  by (simp add: decimal_string_value)

lemma py_strip_decimal_string: "py_strip (decimal_string n) = decimal_string n"
  using decimal_string_digits by (auto intro: py_strip_no_space dest: digit_not_space)

lemma python_int_decimal_string: "python_int (decimal_string n) = Some (int n)"
proof -
  obtain c cs where cs: "decimal_string n = c # cs"
    using decimal_string_nonempty by (cases "decimal_string n") auto
  then have "py_isdigit c" using decimal_string_digits [of n] by simp
  then have "c \<noteq> CHR ''-''" and "c \<noteq> CHR ''+''" by (auto simp: py_isdigit_def)
  with cs show ?thesis
    using py_unsigned_decimal_string [of n] py_strip_decimal_string [of n]
    by (simp add: python_int_def)
qed

lemma python_int_minus_decimal_string: "python_int (CHR ''-'' # decimal_string n) = Some (- int n)"
proof -
  have "\<forall>c \<in> set (CHR ''-'' # decimal_string n). \<not> py_isspace c"
  proof -
    have "\<not> py_isspace CHR ''-''" by (simp add: py_isspace_def)
    then show ?thesis using decimal_string_digits [of n] digit_not_space by auto
  qed
  then have "py_strip (CHR ''-'' # decimal_string n) = CHR ''-'' # decimal_string n"
    by (rule py_strip_no_space)
  then show ?thesis by (simp add: python_int_def py_unsigned_decimal_string)
qed

lemma py_strip_ends:
  assumes "py_strip s = v" and "v \<noteq> []"
  shows "\<not> py_isspace (hd v) \<and> \<not> py_isspace (last v)"
proof -
  define a where "a = dropWhile py_isspace s"
  have v: "v = rev (dropWhile py_isspace (rev a))" using assms(1) by (simp add: py_strip_def a_def)
  have "rev a = takeWhile py_isspace (rev a) @ dropWhile py_isspace (rev a)" by simp
  then have "a = v @ rev (takeWhile py_isspace (rev a))" using v by (metis rev_append rev_rev_ident)
  then have "hd a = hd v" using assms(2) by (metis hd_append2)
  moreover have "a \<noteq> []" using \<open>a = v @ _\<close> assms(2) by (metis append_is_Nil_conv)
  ultimately have "\<not> py_isspace (hd v)" unfolding a_def using hd_dropWhile by metis
  moreover have "last v = hd (dropWhile py_isspace (rev a))" using v assms(2) by (simp add: last_rev)
  then have "\<not> py_isspace (last v)" using v assms(2) hd_dropWhile by (metis Nil_is_rev_conv)
  ultimately show ?thesis by blast
qed

lemma py_strip_idem: "py_strip (py_strip s) = py_strip s"
proof (cases "py_strip s = []")
  case True
  have "py_strip [] = []" by (simp add: py_strip_def)
  with True show ?thesis by simp
next
  case False
  with py_strip_ends [OF refl] have h: "\<not> py_isspace (hd (py_strip s))" and l: "\<not> py_isspace (last (py_strip s))"
    by blast+
  have "dropWhile py_isspace (py_strip s) = py_strip s"
    using h by (simp add: dropWhile_eq_self_iff)
  moreover have "dropWhile py_isspace (rev (py_strip s)) = rev (py_strip s)"
    using l False by (simp add: dropWhile_eq_self_iff hd_rev)
  ultimately show ?thesis by (simp add: py_strip_def [of "py_strip s"])
qed

end
