(* ===== verification/Http.thy ===== *)
theory Http
  imports Python
begin

text \<open>
  The parts of a Django \<open>HttpRequest\<close> that Yatube's views read: the session's user
  (\<open>request.user\<close>, \<^const>\<open>None\<close> for the anonymous user), the method, the form body
  \<open>request.POST\<close>, the uploaded files \<open>request.FILES\<close>, the raw query string
  (\<open>QUERY_STRING\<close>, which \<open>request.get_full_path()\<close> appends to the path) and
  the parsed query \<open>request.GET\<close>. A query dictionary is a list of key/value pairs read with
  \<^const>\<open>qd_get\<close>; it is falsy (\<open>request.POST or None\<close>) when it is empty.
\<close>

datatype http_method = GET | POST

text \<open>An uploaded file: its name and whether Pillow accepts its content as an image.\<close>

record upload =
  upload_name :: string
  upload_is_image :: bool

record request =
  req_user :: "user_id option"
  req_method :: http_method
  req_POST :: "(string \<times> string) list"
  req_FILES :: "(string \<times> upload) list"
  req_query :: string
  req_GET :: "(string \<times> string) list"

end
