(* ===== verification/Paginator.thy ===== *)
theory Paginator
  imports Http "HOL-Library.Monad_Syntax"
begin

text \<open>
  Pagination of the four feeds: \<open>show_post_count_in_page\<close> of
  \<open>src/yatube/posts/utils.py\<close> and the behaviour of Django's
  \<open>Paginator(object_list, per_page).get_page(number)\<close> that it calls, with the
  defaults \<open>orphans=0\<close> and \<open>allow_empty_first_page=True\<close>. The page size is
  \<open>settings.POST_COUNT\<close>, which is 10 (the tests rely on it: 13 posts give pages
  of 10 and 3). The paginator is polymorphic in the row type: the views instantiate
  it with posts.
\<close>

definition POST_COUNT :: nat where
  "POST_COUNT = 10"

record 'a page =
  object_list :: "'a list"
  page_number :: nat
  page_num_pages :: nat

datatype page_error = PageNotAnInteger | EmptyPage

text \<open>
  \<open>Paginator.num_pages\<close>: \<open>ceil(max(1, count - orphans) / per_page)\<close>, at least 1
  because the first page may be empty. The ceiling is the integer quotient rounded up
  (Python raises \<open>ZeroDivisionError\<close> for \<open>per_page = 0\<close>; the program only uses 10).
\<close>

definition num_pages :: "nat \<Rightarrow> nat \<Rightarrow> nat" where
  "num_pages count per_page = (max 1 count + per_page - 1) div per_page"

text \<open>
  \<open>Paginator.validate_number\<close>: \<open>int(number)\<close> raises \<open>TypeError\<close> for
  \<open>None\<close> and \<open>ValueError\<close> for a malformed string, both \<open>PageNotAnInteger\<close>; a
  number below 1 or above the last page is \<open>EmptyPage\<close>
  (\<open>check_number\<close>, the part that \<open>Page.next_page_number\<close> reuses on an int).
\<close>

definition check_number :: "nat \<Rightarrow> int \<Rightarrow> page_error + nat" where
  "check_number np n = (if n < 1 then Inl EmptyPage else if n > int np then Inl EmptyPage else Inr (nat n))"

definition validate_number :: "nat \<Rightarrow> string option \<Rightarrow> page_error + nat" where
  "validate_number np number =
     (case number of
        None \<Rightarrow> Inl PageNotAnInteger
      | Some s \<Rightarrow>
          (case python_int s of
             None \<Rightarrow> Inl PageNotAnInteger
           | Some n \<Rightarrow> check_number np n))"

text \<open>
  \<open>Paginator.page(number)\<close>: the slice \<open>object_list[bottom:top]\<close> with
  \<open>bottom = (number - 1) * per_page\<close> and \<open>top = bottom + per_page\<close>, cut to the
  count when \<open>top + orphans >= count\<close>.
\<close>

definition paginator_page :: "'a list \<Rightarrow> nat \<Rightarrow> nat \<Rightarrow> 'a page" where
  "paginator_page xs per_page number =
     (let bottom = (number - 1) * per_page;
          top = bottom + per_page;
          top' = (if top \<ge> length xs then length xs else top)
      in \<lparr>object_list = take (top' - bottom) (drop bottom xs), page_number = number,
          page_num_pages = num_pages (length xs) per_page\<rparr>)"

text \<open>
  \<open>Paginator.get_page(number)\<close>: a page number that is not an integer gives the
  first page, one that is out of range (below 1 as well as past the end) the last.
\<close>

definition get_page_number :: "nat \<Rightarrow> string option \<Rightarrow> nat" where
  "get_page_number np number =
     (case validate_number np number of
        Inl PageNotAnInteger \<Rightarrow> 1
      | Inl EmptyPage \<Rightarrow> np
      | Inr n \<Rightarrow> n)"

definition get_page :: "'a list \<Rightarrow> nat \<Rightarrow> string option \<Rightarrow> 'a page" where
  "get_page xs per_page number =
     paginator_page xs per_page (get_page_number (num_pages (length xs) per_page) number)"

definition has_next :: "'a page \<Rightarrow> bool" where
  "has_next pg \<longleftrightarrow> page_number pg < page_num_pages pg"

definition has_previous :: "'a page \<Rightarrow> bool" where
  "has_previous pg \<longleftrightarrow> page_number pg > 1"

text \<open>\<open>show_post_count_in_page(request, posts)\<close>.\<close>

definition show_post_count_in_page :: "request \<Rightarrow> 'a list \<Rightarrow> 'a page" where
  "show_post_count_in_page req posts = get_page posts POST_COUNT (qd_get (req_GET req) ''page'')"

text \<open>
  \<open>Page.next_page_number()\<close> and \<open>Page.previous_page_number()\<close>:
  \<open>validate_number(self.number + 1)\<close> and \<open>validate_number(self.number - 1)\<close>, on an
  int, so only the range check applies.
\<close>

definition next_page_number :: "'a page \<Rightarrow> page_error + nat" where
  "next_page_number pg = check_number (page_num_pages pg) (int (page_number pg) + 1)"

definition previous_page_number :: "'a page \<Rightarrow> page_error + nat" where
  "previous_page_number pg = check_number (page_num_pages pg) (int (page_number pg) - 1)"

text \<open>
  A reader of a feed who follows the pagination links: the page template shows
  \<open>?page={{ page_obj.next_page_number }}\<close> while \<open>page_obj.has_next\<close>, and each
  click is a new request whose query string is that link. The walk collects the pages
  shown. It stops at a page without a next link; an \<open>EmptyPage\<close> raised while the
  template renders the link would be a server error, the value \<^const>\<open>None\<close> like a
  walk that never ends (the theorems show neither happens).
\<close>

partial_function (option) follow_next :: "request \<Rightarrow> 'a list \<Rightarrow> 'a page list option" where
  "follow_next r xs =
     (let pg = show_post_count_in_page r xs
      in if has_next pg then
           (case next_page_number pg of
              Inl e \<Rightarrow> None
            | Inr m \<Rightarrow> do {
                pgs \<leftarrow> follow_next (r\<lparr>req_query := ''page='' @ decimal_string m, req_GET := [(''page'', decimal_string m)]\<rparr>) xs;
                Some (pg # pgs)
              })
         else Some [pg])"

declare follow_next.simps [code]

section \<open>Properties of the paginator\<close>

lemma num_pages_pos: "0 < per_page \<Longrightarrow> 1 \<le> num_pages count per_page"
proof -
  assume pp: "0 < per_page"
  have "per_page div per_page \<le> (max 1 count + per_page - 1) div per_page"
    by (rule div_le_mono) simp
  with pp show ?thesis by (simp add: num_pages_def)
qed

lemma num_pages_covers: "0 < per_page \<Longrightarrow> count \<le> num_pages count per_page * per_page"
proof -
  assume pp: "0 < per_page"
  have "max 1 count + per_page - 1 < (num_pages count per_page + 1) * per_page"
    using pp by (simp add: num_pages_def) (metis add.commute dividend_less_div_times)
  then show ?thesis using pp by (simp add: algebra_simps)
qed

lemma get_page_number_bounds:
  assumes "0 < per_page"
  shows "1 \<le> get_page_number (num_pages count per_page) v \<and>
         get_page_number (num_pages count per_page) v \<le> num_pages count per_page"
  using num_pages_pos [OF assms, of count]
  by (auto simp: get_page_number_def validate_number_def check_number_def split: option.splits sum.splits page_error.splits if_splits)

lemma page_object_list:
  "object_list (paginator_page xs pp n) = take pp (drop ((n - 1) * pp) xs)"
  by (auto simp: paginator_page_def Let_def min_def)

lemma concat_chunks:
  "concat (map (\<lambda>i. take pp (drop (i * pp) xs)) [0..<k]) = take (k * pp) xs"
proof (induction k)
  case 0
  then show ?case by simp
next
  case (Suc k)
  have "take (k * pp + pp) xs = take (k * pp) xs @ take pp (drop (k * pp) xs)"
    by (rule take_add)
  with Suc show ?case by (simp add: add.commute)
qed

lemma num_pages_last_start: "(num_pages count per_page - 1) * per_page < max 1 count"
proof -
  have "num_pages count per_page * per_page \<le> max 1 count + per_page - 1"
    unfolding num_pages_def by (rule div_times_less_eq_dividend)
  then show ?thesis by (simp add: diff_mult_distrib)
qed

lemma pages_partition:
  assumes "0 < per_page"
  shows "concat (map (\<lambda>n. object_list (paginator_page xs per_page n))
                     [1..<Suc (num_pages (length xs) per_page)]) = xs"
proof -
  let ?np = "num_pages (length xs) per_page"
  have "[1..<Suc ?np] = map Suc [0..<?np]" by (simp add: map_Suc_upt)
  then have "map (\<lambda>n. object_list (paginator_page xs per_page n)) [1..<Suc ?np] =
             map (\<lambda>i. take per_page (drop (i * per_page) xs)) [0..<?np]"
    by (simp add: page_object_list)
  moreover have "take (?np * per_page) xs = xs"
    using num_pages_covers [OF assms, of "length xs"] by simp
  ultimately show ?thesis by (simp add: concat_chunks)
qed

lemma page_size_bound: "length (object_list (paginator_page xs per_page n)) \<le> per_page"
  by (simp add: page_object_list)

lemma page_full:
  assumes "1 \<le> n" and "n < num_pages (length xs) per_page"
  shows "length (object_list (paginator_page xs per_page n)) = per_page"
proof -
  have "n \<le> num_pages (length xs) per_page - 1"
    using assms by linarith
  then have "n * per_page \<le> (num_pages (length xs) per_page - 1) * per_page"
    by (rule mult_right_mono) simp
  then have "n * per_page < max 1 (length xs)"
    using num_pages_last_start [of "length xs" per_page] by linarith
  then have "(n - 1) * per_page + per_page \<le> length xs"
    using assms by (cases n) (auto simp: max_def split: if_splits)
  then show ?thesis by (simp add: page_object_list)
qed

lemma get_page_in_range:
  assumes "python_int s = Some n" and "1 \<le> n" and "n \<le> int (num_pages (length xs) per_page)"
  shows "page_number (get_page xs per_page (Some s)) = nat n"
  using assms by (simp add: get_page_def get_page_number_def validate_number_def check_number_def paginator_page_def Let_def)

lemma get_page_below_one:
  assumes "python_int s = Some n" and "n < 1"
  shows "page_number (get_page xs per_page (Some s)) = num_pages (length xs) per_page"
  using assms by (simp add: get_page_def get_page_number_def validate_number_def check_number_def paginator_page_def Let_def)

lemma get_page_past_end:
  assumes "python_int s = Some n" and "int (num_pages (length xs) per_page) < n"
  shows "page_number (get_page xs per_page (Some s)) = num_pages (length xs) per_page"
  using assms by (simp add: get_page_def get_page_number_def validate_number_def check_number_def paginator_page_def Let_def)

lemma get_page_not_integer:
  assumes "number = None \<or> (\<exists>s. number = Some s \<and> python_int s = None)"
  shows "page_number (get_page xs per_page number) = 1"
  using assms by (auto simp: get_page_def get_page_number_def validate_number_def check_number_def paginator_page_def Let_def)

section \<open>What a request for a page gets\<close>

lemma paginator_page_fields [simp]:
  "page_number (paginator_page xs pp n) = n"
  "page_num_pages (paginator_page xs pp n) = num_pages (length xs) pp"
  by (simp_all add: paginator_page_def Let_def)

lemma get_page_decimal:
  assumes "1 \<le> n" and "n \<le> num_pages (length xs) pp"
  shows "get_page xs pp (Some (decimal_string n)) = paginator_page xs pp n"
  using assms by (simp add: get_page_def get_page_number_def validate_number_def check_number_def python_int_decimal_string)

text \<open>C27: a page number written into the query string (\<open>?page=n\<close>, as the pagination links print it) is read back by \<open>show_post_count_in_page\<close>: for every page that exists, the request gets page \<open>n\<close>, whose rows are the \<open>n\<close>-th slice of \<open>POST_COUNT\<close> rows of the feed.\<close>

theorem page_request_roundtrip:
  assumes "qd_get (req_GET r) ''page'' = Some (decimal_string n)"
    and "1 \<le> n" and "n \<le> num_pages (length xs) POST_COUNT"
  shows "page_number (show_post_count_in_page r xs) = n \<and>
         object_list (show_post_count_in_page r xs) = take POST_COUNT (drop ((n - 1) * POST_COUNT) xs)"
  using assms by (simp add: show_post_count_in_page_def get_page_decimal page_object_list)

text \<open>C22: requesting the pages \<open>1 .. num_pages\<close> in turn shows every row of the feed exactly once and in order: the concatenated pages are the feed.\<close>

theorem pages_cover_feed:
  assumes "\<forall>n. qd_get (req_GET (rq n)) ''page'' = Some (decimal_string n)"
  shows "concat (map (\<lambda>n. object_list (show_post_count_in_page (rq n) xs))
                [1..<Suc (num_pages (length xs) POST_COUNT)]) = xs"
proof -
  have "map (\<lambda>n. object_list (show_post_count_in_page (rq n) xs)) [1..<Suc (num_pages (length xs) POST_COUNT)]
      = map (\<lambda>n. object_list (paginator_page xs POST_COUNT n)) [1..<Suc (num_pages (length xs) POST_COUNT)]"
  proof (rule map_cong [OF refl])
    fix n assume "n \<in> set [1..<Suc (num_pages (length xs) POST_COUNT)]"
    then have "1 \<le> n" and "n \<le> num_pages (length xs) POST_COUNT" by auto
    then show "object_list (show_post_count_in_page (rq n) xs) = object_list (paginator_page xs POST_COUNT n)"
      using assms by (simp add: show_post_count_in_page_def get_page_decimal)
  qed
  moreover have "concat (map (\<lambda>n. object_list (paginator_page xs POST_COUNT n))
                   [1..<Suc (num_pages (length xs) POST_COUNT)]) = xs"
    by (rule pages_partition) (simp add: POST_COUNT_def)
  ultimately show ?thesis by (simp only:)
qed

text \<open>C23: whatever the \<open>page\<close> parameter, the page served is between 1 and the number of pages and holds at most \<open>POST_COUNT\<close> rows.\<close>

theorem page_bounds:
  "1 \<le> page_number (show_post_count_in_page r xs) \<and>
   page_number (show_post_count_in_page r xs) \<le> page_num_pages (show_post_count_in_page r xs) \<and>
   length (object_list (show_post_count_in_page r xs)) \<le> POST_COUNT"
proof -
  have "(0::nat) < POST_COUNT" by (simp add: POST_COUNT_def)
  then show ?thesis
    using get_page_number_bounds [of POST_COUNT "length xs" "qd_get (req_GET r) ''page''"]
    by (simp add: show_post_count_in_page_def get_page_def page_object_list)
qed

text \<open>C24: every page before the last holds exactly \<open>POST_COUNT\<close> rows.\<close>

theorem page_full_before_last:
  assumes "page_number (show_post_count_in_page r xs) < page_num_pages (show_post_count_in_page r xs)"
  shows "length (object_list (show_post_count_in_page r xs)) = POST_COUNT"
proof -
  have "(0::nat) < POST_COUNT" by (simp add: POST_COUNT_def)
  then have "1 \<le> get_page_number (num_pages (length xs) POST_COUNT) (qd_get (req_GET r) ''page'')"
    using get_page_number_bounds by blast
  with assms show ?thesis
    by (simp add: show_post_count_in_page_def get_page_def page_full)
qed

text \<open>C25: a page number out of range, below 1 (\<open>?page=0\<close>, \<open>?page=-3\<close>) or past the end, is served the last page, not the nearest one: Django raises \<open>EmptyPage\<close> for both and \<open>get_page\<close> answers every \<open>EmptyPage\<close> with the last page.\<close>

theorem page_out_of_range_is_last:
  assumes "qd_get (req_GET r) ''page'' = Some s" and "python_int s = Some n"
    and "n < 1 \<or> int (num_pages (length xs) POST_COUNT) < n"
  shows "page_number (show_post_count_in_page r xs) = num_pages (length xs) POST_COUNT"
  using assms(3)
proof
  assume "n < 1"
  then show ?thesis
    using assms(1,2) get_page_below_one [of s n xs POST_COUNT] by (simp add: show_post_count_in_page_def)
next
  assume "int (num_pages (length xs) POST_COUNT) < n"
  then show ?thesis
    using assms(1,2) get_page_past_end [of s n xs POST_COUNT] by (simp add: show_post_count_in_page_def)
qed

text \<open>C26: a missing or malformed page number (\<open>?page=abc\<close>, no parameter) is served the first page.\<close>

theorem page_not_integer_is_first:
  assumes "qd_get (req_GET r) ''page'' = None \<or> (\<exists>s. qd_get (req_GET r) ''page'' = Some s \<and> python_int s = None)"
  shows "page_number (show_post_count_in_page r xs) = 1"
  using assms get_page_not_integer [of "qd_get (req_GET r) ''page''" xs POST_COUNT]
  by (simp add: show_post_count_in_page_def)

section \<open>Following the pagination links\<close>

lemma show_page_number_bounds:
  "1 \<le> page_number (show_post_count_in_page r xs) \<and>
   page_number (show_post_count_in_page r xs) \<le> num_pages (length xs) POST_COUNT"
  using get_page_number_bounds [of POST_COUNT "length xs" "qd_get (req_GET r) ''page''"]
  by (simp add: POST_COUNT_def show_post_count_in_page_def get_page_def)

lemma show_post_count_in_page_eq:
  "show_post_count_in_page r xs = paginator_page xs POST_COUNT (page_number (show_post_count_in_page r xs))"
  by (simp add: show_post_count_in_page_def get_page_def)

lemma show_page_link:
  assumes "1 \<le> n" and "n \<le> num_pages (length xs) POST_COUNT"
  shows "show_post_count_in_page (r\<lparr>req_query := ''page='' @ decimal_string n, req_GET := [(''page'', decimal_string n)]\<rparr>) xs = paginator_page xs POST_COUNT n"
  using assms by (simp add: show_post_count_in_page_def qd_get_def get_page_decimal)

lemma next_page_number_link:
  assumes "has_next pg" and "1 \<le> page_number pg"
  shows "next_page_number pg = Inr (Suc (page_number pg))"
  using assms by (simp add: next_page_number_def check_number_def has_next_def)

text \<open>One click on the next link: the walk continues from the following page.\<close>

lemma follow_next_step:
  assumes "has_next (show_post_count_in_page r xs)"
  defines "n \<equiv> page_number (show_post_count_in_page r xs)"
  shows "follow_next r xs =
           do { pgs \<leftarrow> follow_next (r\<lparr>req_query := ''page='' @ decimal_string (Suc n), req_GET := [(''page'', decimal_string (Suc n))]\<rparr>) xs;
                Some (show_post_count_in_page r xs # pgs) }"
    and "show_post_count_in_page (r\<lparr>req_query := ''page='' @ decimal_string (Suc n), req_GET := [(''page'', decimal_string (Suc n))]\<rparr>) xs =
           paginator_page xs POST_COUNT (Suc n)"
proof -
  have "1 \<le> n" using show_page_number_bounds unfolding n_def by blast
  then show "follow_next r xs =
           do { pgs \<leftarrow> follow_next (r\<lparr>req_query := ''page='' @ decimal_string (Suc n), req_GET := [(''page'', decimal_string (Suc n))]\<rparr>) xs;
                Some (show_post_count_in_page r xs # pgs) }"
  proof -
    have "next_page_number (show_post_count_in_page r xs) = Inr (Suc n)"
      using next_page_number_link [OF assms(1)] \<open>1 \<le> n\<close> by (simp add: n_def)
    with assms(1) show ?thesis by (subst follow_next.simps) (simp add: Let_def)
  qed
  have "Suc n \<le> num_pages (length xs) POST_COUNT"
    using assms(1) by (simp add: n_def has_next_def show_post_count_in_page_def get_page_def)
  then show "show_post_count_in_page (r\<lparr>req_query := ''page='' @ decimal_string (Suc n), req_GET := [(''page'', decimal_string (Suc n))]\<rparr>) xs =
           paginator_page xs POST_COUNT (Suc n)"
    by (intro show_page_link) simp_all
qed

lemma follow_next_last:
  "\<not> has_next (show_post_count_in_page r xs) \<Longrightarrow> follow_next r xs = Some [show_post_count_in_page r xs]"
  by (subst follow_next.simps) (simp add: Let_def)

lemma show_num_pages [simp]:
  "page_num_pages (show_post_count_in_page r xs) = num_pages (length xs) POST_COUNT"
  by (simp add: show_post_count_in_page_def get_page_def)

lemma show_object_list:
  "object_list (show_post_count_in_page r xs) =
     take POST_COUNT (drop ((page_number (show_post_count_in_page r xs) - 1) * POST_COUNT) xs)"
  by (subst show_post_count_in_page_eq) (simp only: page_object_list)

lemma last_page_rest:
  assumes "n = num_pages (length xs) POST_COUNT"
  shows "take POST_COUNT (drop ((n - 1) * POST_COUNT) xs) = drop ((n - 1) * POST_COUNT) xs"
proof -
  have "length xs \<le> n * POST_COUNT"
    using num_pages_covers [of POST_COUNT "length xs"] assms by (simp add: POST_COUNT_def)
  moreover have "1 \<le> n" using num_pages_pos [of POST_COUNT "length xs"] assms by (simp add: POST_COUNT_def)
  ultimately have "length xs - (n - 1) * POST_COUNT \<le> POST_COUNT"
    by (cases n) (simp_all add: algebra_simps)
  then show ?thesis by simp
qed

lemma page_then_rest:
  "1 \<le> n \<Longrightarrow> take pp (drop ((n - 1) * pp) xs) @ drop (n * pp) xs = drop ((n - 1) * pp) xs"
proof -
  assume "1 \<le> n"
  then have "n * pp = pp + (n - 1) * pp" by (cases n) simp_all
  then show ?thesis by (simp add: add.commute flip: drop_drop)
qed

text \<open>C29: a reader who keeps following the next link, from whatever page a request shows, gets an answer to every click and ends on the last page: the walk over the pagination links terminates.\<close>

theorem follow_next_reaches_last:
  "\<exists>pgs. follow_next r xs = Some pgs \<and> pgs \<noteq> [] \<and>
     page_number (last pgs) = num_pages (length xs) POST_COUNT"
proof -
  let ?np = "num_pages (length xs) POST_COUNT"
  have "?np - page_number (show_post_count_in_page r xs) = k \<Longrightarrow>
        \<exists>pgs. follow_next r xs = Some pgs \<and> pgs \<noteq> [] \<and> page_number (last pgs) = ?np" for k
  proof (induction k arbitrary: r)
    case 0
    then have "page_number (show_post_count_in_page r xs) = ?np"
      using show_page_number_bounds [of r xs] by simp
    then show ?case by (simp add: follow_next_last has_next_def)
  next
    case (Suc k)
    define n where "n = page_number (show_post_count_in_page r xs)"
    define r' where "r' = r\<lparr>req_query := ''page='' @ decimal_string (Suc n), req_GET := [(''page'', decimal_string (Suc n))]\<rparr>"
    have nx: "has_next (show_post_count_in_page r xs)"
      using Suc.prems by (simp add: has_next_def)
    have "page_number (show_post_count_in_page r' xs) = Suc n"
      using follow_next_step(2) [OF nx] by (simp add: r'_def n_def)
    then have "?np - page_number (show_post_count_in_page r' xs) = k"
      using Suc.prems by (simp add: n_def)
    then obtain pgs where "follow_next r' xs = Some pgs" "pgs \<noteq> []" "page_number (last pgs) = ?np"
      using Suc.IH by blast
    then show ?case
      using follow_next_step(1) [OF nx] by (simp add: r'_def n_def)
  qed
  then show ?thesis by blast
qed

text \<open>C30: the pages a reader sees by following the next links, from the page a request shows, hold exactly the rest of the feed from that page on, in order: each row once.\<close>

theorem follow_next_rows:
  assumes "follow_next r xs = Some pgs"
  shows "concat (map object_list pgs) =
           drop ((page_number (show_post_count_in_page r xs) - 1) * POST_COUNT) xs"
proof (rule follow_next.raw_induct
    [where P = "\<lambda>r xs pgs. concat (map object_list pgs) =
       drop ((page_number (show_post_count_in_page r xs) - 1) * POST_COUNT) xs", OF _ assms])
  fix f :: "request \<Rightarrow> 'a list \<Rightarrow> 'a page list option" and r xs pgs
  assume IH: "\<And>r xs pgs. f r xs = Some pgs \<Longrightarrow> concat (map object_list pgs) =
       drop ((page_number (show_post_count_in_page r xs) - 1) * POST_COUNT) xs"
  assume eq: "(let pg = show_post_count_in_page r xs
      in if has_next pg then
           (case next_page_number pg of
              Inl e \<Rightarrow> None
            | Inr m \<Rightarrow> do {
                pgs \<leftarrow> f (r\<lparr>req_query := ''page='' @ decimal_string m, req_GET := [(''page'', decimal_string m)]\<rparr>) xs;
                Some (pg # pgs)
              })
         else Some [pg]) = Some pgs"
  define n where "n = page_number (show_post_count_in_page r xs)"
  have n1: "1 \<le> n" using show_page_number_bounds unfolding n_def by blast
  show "concat (map object_list pgs) = drop ((n - 1) * POST_COUNT) xs" unfolding n_def [symmetric]
  proof (cases "has_next (show_post_count_in_page r xs)")
    case True
    define r' where "r' = r\<lparr>req_query := ''page='' @ decimal_string (Suc n), req_GET := [(''page'', decimal_string (Suc n))]\<rparr>"
    have "next_page_number (show_post_count_in_page r xs) = Inr (Suc n)"
      using next_page_number_link [OF True] n1 by (simp add: n_def)
    with True eq obtain pgs' where rest: "f r' xs = Some pgs'" and pgs: "pgs = show_post_count_in_page r xs # pgs'"
      by (auto simp: Let_def r'_def bind_eq_Some_conv)
    have "page_number (show_post_count_in_page r' xs) = Suc n"
      using follow_next_step(2) [OF True] by (simp add: r'_def n_def)
    then have "concat (map object_list pgs') = drop (n * POST_COUNT) xs"
      using IH [OF rest] by simp
    then show ?thesis
      using pgs n1 page_then_rest [OF n1, of POST_COUNT xs] by (simp add: show_object_list n_def [symmetric])
  next
    case False
    then have "n = num_pages (length xs) POST_COUNT"
      using show_page_number_bounds [of r xs] by (simp add: has_next_def n_def)
    then have "take POST_COUNT (drop ((n - 1) * POST_COUNT) xs) = drop ((n - 1) * POST_COUNT) xs"
      by (rule last_page_rest)
    moreover have "pgs = [show_post_count_in_page r xs]" using False eq by (simp add: Let_def)
    ultimately show ?thesis by (simp add: show_object_list n_def [symmetric])
  qed
qed

end
