(* ===== verification/Models.thy ===== *)
theory Models
  imports Prelude
begin

text \<open>
  The data model of \<open>src/yatube/posts/models.py\<close>. Each Django model is a record of
  its columns, a foreign key is the referenced primary key (an \<^typ>\<open>'a option\<close> where
  the column is \<open>null=True\<close>), and the relational store is the record \<open>db\<close> of
  one list of rows per table, in insertion order. The store also keeps the next
  primary key of the post table and a clock that \<open>auto_now_add\<close> reads: every insert
  takes the next tick, so timestamps grow with insertion order.
  The theory defines the \<open>__str__\<close> methods, the \<open>Meta.ordering\<close> of posts and
  comments, the ORM inserts and updates the views perform, the deletions that the
  \<open>on_delete\<close> declarations imply, and the well-formedness of the store, which
  every operation keeps.
\<close>

section \<open>Rows\<close>

text \<open>\<open>User = get_user_model()\<close>: the framework's user; only its key and name are read.\<close>

record user =
  user_pk :: user_id
  username :: string

record group =
  group_pk :: group_id
  group_title :: string
  group_slug :: string
  group_description :: string

text \<open>
  \<open>image\<close> is an \<open>ImageField(blank=True)\<close>: the stored file name, the empty string
  when the post has no image.
\<close>

record post =
  post_pk :: post_id
  post_text :: string
  post_pub_date :: timestamp
  post_author :: user_id
  post_group :: "group_id option"
  post_image :: string

record comment =
  comment_post :: "post_id option"
  comment_author :: "user_id option"
  comment_text :: string
  comment_created :: timestamp

record follow =
  follow_user :: user_id
  follow_author :: "user_id option"

record db =
  db_users :: "user list"
  db_groups :: "group list"
  db_posts :: "post list"
  db_comments :: "comment list"
  db_follows :: "follow list"
  db_next_post :: post_id
  db_clock :: timestamp

definition empty_db :: db where
  "empty_db = \<lparr>db_users = [], db_groups = [], db_posts = [], db_comments = [],
     db_follows = [], db_next_post = 1, db_clock = 0\<rparr>"

section \<open>String forms and ordering\<close>

definition group_str :: "group \<Rightarrow> string" where
  "group_str g = group_title g"

definition post_str :: "post \<Rightarrow> string" where
  "post_str p = take 15 (post_text p)"

definition comment_str :: "comment \<Rightarrow> string" where
  "comment_str c = take 15 (comment_text c)"

text \<open>\<open>ordering = ("-pub_date",)\<close> and \<open>ordering = ("-created",)\<close>: newest first.\<close>

definition posts_ordered :: "post list \<Rightarrow> post list" where
  "posts_ordered ps = rev (sort_key post_pub_date ps)"

definition comments_ordered :: "comment list \<Rightarrow> comment list" where
  "comments_ordered cs = rev (sort_key comment_created cs)"

section \<open>Lookups\<close>

text \<open>\<open>get_object_or_404\<close> and the filters of the views, before the 404 is raised.\<close>

definition get_user :: "db \<Rightarrow> user_id \<Rightarrow> user option" where
  "get_user d u = find (\<lambda>x. user_pk x = u) (db_users d)"

definition get_user_by_name :: "db \<Rightarrow> string \<Rightarrow> user option" where
  "get_user_by_name d n = find (\<lambda>x. username x = n) (db_users d)"

definition get_group_by_slug :: "db \<Rightarrow> string \<Rightarrow> group option" where
  "get_group_by_slug d s = find (\<lambda>x. group_slug x = s) (db_groups d)"

definition get_group :: "db \<Rightarrow> group_id \<Rightarrow> group option" where
  "get_group d g = find (\<lambda>x. group_pk x = g) (db_groups d)"

definition get_post :: "db \<Rightarrow> post_id \<Rightarrow> post option" where
  "get_post d p = find (\<lambda>x. post_pk x = p) (db_posts d)"

definition follow_exists :: "db \<Rightarrow> user_id \<Rightarrow> user_id \<Rightarrow> bool" where
  "follow_exists d u a \<longleftrightarrow> (\<exists>f \<in> set (db_follows d). follow_user f = u \<and> follow_author f = Some a)"

text \<open>
  \<open>Follow.__str__\<close>: \<open>f'{self.user} ... {self.author}'\<close> whose middle is the Russian
  "podpisan na" ("is subscribed to"), written here as its UTF-8 bytes. A user prints as its name and the empty author as
  \<open>None\<close>; reading a foreign key whose row is gone raises \<open>DoesNotExist\<close>, here
  \<^const>\<open>None\<close>.
\<close>

definition FOLLOW_SEP :: string where
  "FOLLOW_SEP = map char_of [32 :: nat, 0xD0, 0xBF, 0xD0, 0xBE, 0xD0, 0xB4, 0xD0, 0xBF, 0xD0, 0xB8,
                             0xD1, 0x81, 0xD0, 0xB0, 0xD0, 0xBD, 32, 0xD0, 0xBD, 0xD0, 0xB0, 32]"

definition follow_str :: "db \<Rightarrow> follow \<Rightarrow> string option" where
  "follow_str d f =
     (case get_user d (follow_user f) of
        None \<Rightarrow> None
      | Some u \<Rightarrow>
          (case follow_author f of
             None \<Rightarrow> Some (username u @ FOLLOW_SEP @ ''None'')
           | Some a \<Rightarrow> map_option (\<lambda>v. username u @ FOLLOW_SEP @ username v) (get_user d a)))"

section \<open>Writes\<close>

text \<open>
  \<open>post.save()\<close> on a new post: the next primary key and, by \<open>auto_now_add\<close>, the
  next tick of the clock.
\<close>

definition insert_post ::
  "string \<Rightarrow> user_id \<Rightarrow> group_id option \<Rightarrow> string \<Rightarrow> db \<Rightarrow> post \<times> db" where
  "insert_post txt a g img d =
     (let p = \<lparr>post_pk = db_next_post d, post_text = txt, post_pub_date = Suc (db_clock d),
               post_author = a, post_group = g, post_image = img\<rparr>
      in (p, d\<lparr>db_posts := db_posts d @ [p], db_next_post := Suc (db_next_post d),
               db_clock := Suc (db_clock d)\<rparr>))"

text \<open>\<open>form.save()\<close> on an existing post: the row with that key gets new text, group and image.\<close>

definition update_post ::
  "post_id \<Rightarrow> string \<Rightarrow> group_id option \<Rightarrow> string \<Rightarrow> db \<Rightarrow> db" where
  "update_post pid txt g img d =
     d\<lparr>db_posts := map (\<lambda>p. if post_pk p = pid
                              then p\<lparr>post_text := txt, post_group := g, post_image := img\<rparr>
                              else p) (db_posts d)\<rparr>"

definition insert_comment :: "string \<Rightarrow> user_id \<Rightarrow> post_id \<Rightarrow> db \<Rightarrow> db" where
  "insert_comment txt a pid d =
     d\<lparr>db_comments := db_comments d @
          [\<lparr>comment_post = Some pid, comment_author = Some a, comment_text = txt,
            comment_created = Suc (db_clock d)\<rparr>],
       db_clock := Suc (db_clock d)\<rparr>"

definition insert_follow :: "user_id \<Rightarrow> user_id \<Rightarrow> db \<Rightarrow> db" where
  "insert_follow u a d = d\<lparr>db_follows := db_follows d @ [\<lparr>follow_user = u, follow_author = Some a\<rparr>]\<rparr>"

text \<open>\<open>Follow.objects.filter(user=u, author=a).delete()\<close>: every matching row goes.\<close>

definition delete_follows :: "user_id \<Rightarrow> user_id \<Rightarrow> db \<Rightarrow> db" where
  "delete_follows u a d =
     d\<lparr>db_follows := filter (\<lambda>f. \<not> (follow_user f = u \<and> follow_author f = Some a)) (db_follows d)\<rparr>"

section \<open>Deletion semantics of the foreign keys\<close>

text \<open>
  No view deletes a user, a group or a post, but the \<open>on_delete\<close> arguments fix
  what the store does when one is deleted (in the admin or the shell):
  \<^item> deleting a post deletes its comments (\<open>Comment.post\<close>, \<open>CASCADE\<close>);
  \<^item> deleting a group keeps its posts and clears their group (\<open>Post.group\<close>,
    \<open>SET_NULL\<close>);
  \<^item> deleting a user deletes that user's posts, with their comments, the user's
    comments and every follow row naming the user on either side
    (\<open>Post.author\<close>, \<open>Comment.author\<close>, \<open>Follow.user\<close>, \<open>Follow.author\<close>,
    all \<open>CASCADE\<close>).
\<close>

definition delete_post :: "post_id \<Rightarrow> db \<Rightarrow> db" where
  "delete_post pid d =
     d\<lparr>db_posts := filter (\<lambda>p. post_pk p \<noteq> pid) (db_posts d),
       db_comments := filter (\<lambda>c. comment_post c \<noteq> Some pid) (db_comments d)\<rparr>"

definition delete_group :: "group_id \<Rightarrow> db \<Rightarrow> db" where
  "delete_group gid d =
     d\<lparr>db_groups := filter (\<lambda>g. group_pk g \<noteq> gid) (db_groups d),
       db_posts := map (\<lambda>p. if post_group p = Some gid then p\<lparr>post_group := None\<rparr> else p)
                       (db_posts d)\<rparr>"

definition delete_user :: "user_id \<Rightarrow> db \<Rightarrow> db" where
  "delete_user uid d =
     (let gone = map post_pk (filter (\<lambda>p. post_author p = uid) (db_posts d))
      in d\<lparr>db_users := filter (\<lambda>u. user_pk u \<noteq> uid) (db_users d),
           db_posts := filter (\<lambda>p. post_author p \<noteq> uid) (db_posts d),
           db_comments := filter (\<lambda>c. comment_author c \<noteq> Some uid \<and>
                                       (\<forall>pid \<in> set gone. comment_post c \<noteq> Some pid))
                                 (db_comments d),
           db_follows := filter (\<lambda>f. follow_user f \<noteq> uid \<and> follow_author f \<noteq> Some uid)
                                (db_follows d)\<rparr>)"

section \<open>Well-formed stores\<close>

text \<open>
  What the database schema and the ORM guarantee of the store: primary keys and
  \<open>unique=True\<close> columns are distinct, every foreign key names an existing row
  (referential integrity), keys stay below the next key, and timestamps are not in
  the future and increase along each table (each insert takes the next tick).
\<close>

definition user_ids :: "db \<Rightarrow> user_id set" where
  "user_ids d = user_pk ` set (db_users d)"

definition group_ids :: "db \<Rightarrow> group_id set" where
  "group_ids d = group_pk ` set (db_groups d)"

definition post_ids :: "db \<Rightarrow> post_id set" where
  "post_ids d = post_pk ` set (db_posts d)"

definition wf_users :: "db \<Rightarrow> bool" where
  "wf_users d \<longleftrightarrow> distinct (map user_pk (db_users d)) \<and> distinct (map username (db_users d))"

definition wf_groups :: "db \<Rightarrow> bool" where
  "wf_groups d \<longleftrightarrow> distinct (map group_pk (db_groups d)) \<and> distinct (map group_slug (db_groups d))"

definition wf_post :: "db \<Rightarrow> post \<Rightarrow> bool" where
  "wf_post d p \<longleftrightarrow>
     post_pk p < db_next_post d \<and> post_pub_date p \<le> db_clock d \<and>
     post_author p \<in> user_ids d \<and> pred_option (\<lambda>g. g \<in> group_ids d) (post_group p)"

definition wf_posts :: "db \<Rightarrow> bool" where
  "wf_posts d \<longleftrightarrow>
     distinct (map post_pk (db_posts d)) \<and> sorted_wrt (<) (map post_pub_date (db_posts d)) \<and>
     (\<forall>p \<in> set (db_posts d). wf_post d p)"

definition wf_comment :: "db \<Rightarrow> comment \<Rightarrow> bool" where
  "wf_comment d c \<longleftrightarrow>
     comment_created c \<le> db_clock d \<and>
     pred_option (\<lambda>p. p \<in> post_ids d) (comment_post c) \<and>
     pred_option (\<lambda>u. u \<in> user_ids d) (comment_author c)"

definition wf_comments :: "db \<Rightarrow> bool" where
  "wf_comments d \<longleftrightarrow>
     sorted_wrt (<) (map comment_created (db_comments d)) \<and>
     (\<forall>c \<in> set (db_comments d). wf_comment d c)"

definition wf_follow :: "db \<Rightarrow> follow \<Rightarrow> bool" where
  "wf_follow d f \<longleftrightarrow>
     follow_user f \<in> user_ids d \<and> pred_option (\<lambda>a. a \<in> user_ids d) (follow_author f)"

definition wf_follows :: "db \<Rightarrow> bool" where
  "wf_follows d \<longleftrightarrow> (\<forall>f \<in> set (db_follows d). wf_follow d f)"

definition wf_db :: "db \<Rightarrow> bool" where
  "wf_db d \<longleftrightarrow> wf_users d \<and> wf_groups d \<and> wf_posts d \<and> wf_comments d \<and> wf_follows d"

lemmas wf_defs = wf_db_def wf_users_def wf_groups_def wf_posts_def wf_post_def
  wf_comments_def wf_comment_def wf_follows_def wf_follow_def

lemmas id_sets = user_ids_def group_ids_def post_ids_def

text \<open>
  A row stays well-formed when the store grows: more keys, a later clock. These
  monotonicity facts carry every preservation proof below.
\<close>

lemma pred_option_member_mono [intro]:
  "pred_option (\<lambda>x. x \<in> A) v \<Longrightarrow> A \<subseteq> B \<Longrightarrow> pred_option (\<lambda>x. x \<in> B) v"
  by (cases v) auto

lemma wf_post_mono:
  assumes "wf_post d p" and "db_next_post d \<le> db_next_post d'" and "db_clock d \<le> db_clock d'"
    and "user_ids d \<subseteq> user_ids d'" and "group_ids d \<subseteq> group_ids d'"
  shows "wf_post d' p"
  using assms by (auto simp: wf_post_def)

lemma wf_comment_mono:
  assumes "wf_comment d c" and "db_clock d \<le> db_clock d'"
    and "user_ids d \<subseteq> user_ids d'" and "post_ids d \<subseteq> post_ids d'"
  shows "wf_comment d' c"
  using assms by (auto simp: wf_comment_def)

lemma wf_follow_mono:
  assumes "wf_follow d f" and "user_ids d \<subseteq> user_ids d'"
  shows "wf_follow d' f"
  using assms by (auto simp: wf_follow_def)

section \<open>Every write keeps the store well-formed\<close>

lemma wf_posts_grow:
  assumes "wf_posts d" and "db_posts d' = db_posts d"
    and "db_next_post d \<le> db_next_post d'" and "db_clock d \<le> db_clock d'"
    and "user_ids d \<subseteq> user_ids d'" and "group_ids d \<subseteq> group_ids d'"
  shows "wf_posts d'"
  using assms wf_post_mono [of d _ d'] by (simp add: wf_posts_def)

lemma wf_comments_grow:
  assumes "wf_comments d" and "db_comments d' = db_comments d" and "db_clock d \<le> db_clock d'"
    and "user_ids d \<subseteq> user_ids d'" and "post_ids d \<subseteq> post_ids d'"
  shows "wf_comments d'"
  using assms wf_comment_mono [of d _ d'] by (simp add: wf_comments_def)

lemma wf_follows_grow:
  assumes "wf_follows d" and "set (db_follows d') \<subseteq> set (db_follows d)"
    and "user_ids d \<subseteq> user_ids d'"
  shows "wf_follows d'"
  using assms wf_follow_mono [of d _ d'] by (auto simp: wf_follows_def)

lemma wf_posts_append:
  assumes "wf_posts d" and "db_posts d' = db_posts d @ [p]"
    and "post_pk p \<notin> post_ids d" and "db_clock d < post_pub_date p"
    and "wf_post d' p" and "\<forall>q \<in> set (db_posts d). wf_post d' q"
  shows "wf_posts d'"
proof -
  have "\<forall>q \<in> set (db_posts d). post_pub_date q < post_pub_date p"
    using assms(1,4) by (auto simp: wf_posts_def wf_post_def)
  with assms show ?thesis
    by (auto simp: wf_posts_def post_ids_def sorted_wrt_append)
qed

lemma wf_comments_append:
  assumes "wf_comments d" and "db_comments d' = db_comments d @ [c]"
    and "db_clock d < comment_created c"
    and "wf_comment d' c" and "\<forall>x \<in> set (db_comments d). wf_comment d' x"
  shows "wf_comments d'"
proof -
  have "\<forall>x \<in> set (db_comments d). comment_created x < comment_created c"
    using assms(1,3) by (auto simp: wf_comments_def wf_comment_def)
  with assms show ?thesis
    by (auto simp: wf_comments_def sorted_wrt_append)
qed

lemma wf_empty: "wf_db empty_db"
  by (simp add: wf_defs empty_db_def)

lemma insert_post_wf:
  assumes wf: "wf_db d" and a: "a \<in> user_ids d" and g: "pred_option (\<lambda>x. x \<in> group_ids d) g"
  shows "wf_db (snd (insert_post txt a g img d))"
proof -
  define p where "p = \<lparr>post_pk = db_next_post d, post_text = txt, post_pub_date = Suc (db_clock d),
               post_author = a, post_group = g, post_image = img\<rparr>"
  define d' where "d' = snd (insert_post txt a g img d)"
  have f: "db_users d' = db_users d" "db_groups d' = db_groups d" "db_posts d' = db_posts d @ [p]"
    "db_comments d' = db_comments d" "db_follows d' = db_follows d"
    "db_next_post d' = Suc (db_next_post d)" "db_clock d' = Suc (db_clock d)"
    by (simp_all add: d'_def p_def insert_post_def Let_def)
  then have ids: "user_ids d' = user_ids d" "group_ids d' = group_ids d"
    "post_ids d' = insert (post_pk p) (post_ids d)"
    by (auto simp: id_sets p_def)
  have "wf_post d' p" using a g ids f by (simp add: wf_post_def p_def)
  moreover have "\<forall>q \<in> set (db_posts d). wf_post d' q"
    using wf ids f wf_post_mono [of d _ d'] by (simp add: wf_db_def wf_posts_def)
  moreover have "post_pk p \<notin> post_ids d"
    using wf by (auto simp: wf_db_def wf_posts_def wf_post_def post_ids_def p_def)
  ultimately have "wf_posts d'"
    using wf f by (intro wf_posts_append [of d d']) (simp_all add: wf_db_def p_def)
  moreover have "wf_comments d'"
    using wf ids f by (intro wf_comments_grow [of d d']) (auto simp: wf_db_def)
  moreover have "wf_follows d'"
    using wf ids f by (intro wf_follows_grow [of d d']) (auto simp: wf_db_def)
  moreover have "wf_users d'" "wf_groups d'"
    using wf f by (simp_all add: wf_db_def wf_users_def wf_groups_def)
  ultimately show ?thesis by (simp add: d'_def [symmetric] wf_db_def)
qed

lemma insert_comment_wf:
  assumes wf: "wf_db d" and a: "a \<in> user_ids d" and p: "pid \<in> post_ids d"
  shows "wf_db (insert_comment txt a pid d)"
proof -
  define c where "c = \<lparr>comment_post = Some pid, comment_author = Some a, comment_text = txt,
            comment_created = Suc (db_clock d)\<rparr>"
  define d' where "d' = insert_comment txt a pid d"
  have f: "db_users d' = db_users d" "db_groups d' = db_groups d" "db_posts d' = db_posts d"
    "db_comments d' = db_comments d @ [c]" "db_follows d' = db_follows d"
    "db_next_post d' = db_next_post d" "db_clock d' = Suc (db_clock d)"
    by (simp_all add: d'_def c_def insert_comment_def)
  then have ids: "user_ids d' = user_ids d" "group_ids d' = group_ids d" "post_ids d' = post_ids d"
    by (simp_all add: id_sets)
  have "wf_comment d' c" using a p ids f by (simp add: wf_comment_def c_def)
  moreover have "\<forall>x \<in> set (db_comments d). wf_comment d' x"
    using wf ids f wf_comment_mono [of d _ d'] by (simp add: wf_db_def wf_comments_def)
  ultimately have "wf_comments d'"
    using wf f by (intro wf_comments_append [of d d']) (simp_all add: wf_db_def c_def)
  moreover have "wf_posts d'"
    using wf ids f by (intro wf_posts_grow [of d d']) (auto simp: wf_db_def)
  moreover have "wf_follows d'"
    using wf ids f by (intro wf_follows_grow [of d d']) (auto simp: wf_db_def)
  moreover have "wf_users d'" "wf_groups d'"
    using wf f by (simp_all add: wf_db_def wf_users_def wf_groups_def)
  ultimately show ?thesis by (simp add: d'_def [symmetric] wf_db_def)
qed

lemma insert_follow_wf:
  assumes wf: "wf_db d" and "u \<in> user_ids d" and "a \<in> user_ids d"
  shows "wf_db (insert_follow u a d)"
  using assms by (auto simp: wf_defs insert_follow_def id_sets)

lemma delete_follows_wf:
  assumes "wf_db d"
  shows "wf_db (delete_follows u a d)"
proof -
  have "wf_follows (delete_follows u a d)"
    using assms by (intro wf_follows_grow [of d "delete_follows u a d"]) (auto simp: wf_db_def delete_follows_def id_sets)
  with assms show ?thesis
    by (simp add: wf_db_def wf_users_def wf_groups_def wf_posts_def wf_post_def wf_comments_def
        wf_comment_def delete_follows_def id_sets)
qed

lemma update_post_wf:
  assumes wf: "wf_db d" and g: "pred_option (\<lambda>x. x \<in> group_ids d) g"
  shows "wf_db (update_post pid txt g img d)"
proof -
  define upd :: "post \<Rightarrow> post" where "upd = (\<lambda>p. if post_pk p = pid
                              then p\<lparr>post_text := txt, post_group := g, post_image := img\<rparr>
                              else p)"
  define d' where "d' = update_post pid txt g img d"
  have keys: "\<And>p. post_pk (upd p) = post_pk p" "\<And>p. post_pub_date (upd p) = post_pub_date p"
    by (simp_all add: upd_def)
  have f: "db_users d' = db_users d" "db_groups d' = db_groups d" "db_posts d' = map upd (db_posts d)"
    "db_comments d' = db_comments d" "db_follows d' = db_follows d"
    "db_next_post d' = db_next_post d" "db_clock d' = db_clock d"
    by (simp_all add: d'_def upd_def update_post_def)
  then have ids: "user_ids d' = user_ids d" "group_ids d' = group_ids d" "post_ids d' = post_ids d"
    by (simp_all add: id_sets image_image keys)
  have "\<forall>p \<in> set (db_posts d). wf_post d' (upd p)"
    using wf g ids f by (auto simp: wf_db_def wf_posts_def wf_post_def upd_def)
  then have "wf_posts d'"
    using wf f by (simp add: wf_db_def wf_posts_def keys comp_def map_idI)
  moreover have "wf_comments d'"
    using wf ids f by (intro wf_comments_grow [of d d']) (auto simp: wf_db_def)
  moreover have "wf_follows d'"
    using wf ids f by (intro wf_follows_grow [of d d']) (auto simp: wf_db_def)
  moreover have "wf_users d'" "wf_groups d'"
    using wf f by (simp_all add: wf_db_def wf_users_def wf_groups_def)
  ultimately show ?thesis by (simp add: d'_def [symmetric] wf_db_def)
qed

lemma delete_post_wf:
  assumes wf: "wf_db d"
  shows "wf_db (delete_post pid d)"
proof -
  define d' where "d' = delete_post pid d"
  have f: "db_users d' = db_users d" "db_groups d' = db_groups d"
    "db_posts d' = filter (\<lambda>p. post_pk p \<noteq> pid) (db_posts d)"
    "db_comments d' = filter (\<lambda>c. comment_post c \<noteq> Some pid) (db_comments d)"
    "db_follows d' = db_follows d" "db_next_post d' = db_next_post d" "db_clock d' = db_clock d"
    by (simp_all add: d'_def delete_post_def)
  then have ids: "user_ids d' = user_ids d" "group_ids d' = group_ids d"
    "post_ids d' = post_ids d - {pid}"
    by (auto simp: id_sets)
  have "wf_posts d'"
    using wf ids f by (auto simp: wf_db_def wf_posts_def wf_post_def distinct_map_filter
        sorted_wrt_less_filter)
  moreover have "wf_comments d'"
  proof -
    have "\<forall>c \<in> set (db_comments d'). wf_comment d' c"
      using wf ids f by (auto simp: wf_db_def wf_comments_def wf_comment_def option.pred_set)
    moreover have "sorted_wrt (<) (map comment_created (db_comments d'))"
      using wf f by (simp add: wf_db_def wf_comments_def sorted_wrt_less_filter)
    ultimately show ?thesis by (simp add: wf_comments_def)
  qed
  moreover have "wf_follows d'"
    using wf ids f by (intro wf_follows_grow [of d d']) (auto simp: wf_db_def)
  moreover have "wf_users d'" "wf_groups d'"
    using wf f by (simp_all add: wf_db_def wf_users_def wf_groups_def)
  ultimately show ?thesis by (simp add: d'_def [symmetric] wf_db_def)
qed

lemma delete_group_wf:
  assumes wf: "wf_db d"
  shows "wf_db (delete_group gid d)"
proof -
  define clr :: "post \<Rightarrow> post" where
    "clr = (\<lambda>p. if post_group p = Some gid then p\<lparr>post_group := None\<rparr> else p)"
  define d' where "d' = delete_group gid d"
  have keys: "\<And>p. post_pk (clr p) = post_pk p" "\<And>p. post_pub_date (clr p) = post_pub_date p"
    by (simp_all add: clr_def)
  have f: "db_users d' = db_users d" "db_groups d' = filter (\<lambda>g. group_pk g \<noteq> gid) (db_groups d)"
    "db_posts d' = map clr (db_posts d)"
    "db_comments d' = db_comments d" "db_follows d' = db_follows d"
    "db_next_post d' = db_next_post d" "db_clock d' = db_clock d"
    by (simp_all add: d'_def clr_def delete_group_def)
  then have ids: "user_ids d' = user_ids d" "group_ids d' = group_ids d - {gid}"
    "post_ids d' = post_ids d"
    by (auto simp: id_sets image_image keys)
  have "\<forall>p \<in> set (db_posts d). wf_post d' (clr p)"
    using wf ids f by (auto simp: wf_db_def wf_posts_def wf_post_def clr_def option.pred_set)
  then have "wf_posts d'"
    using wf f by (simp add: wf_db_def wf_posts_def keys comp_def map_idI)
  moreover have "wf_comments d'"
    using wf ids f by (intro wf_comments_grow [of d d']) (auto simp: wf_db_def)
  moreover have "wf_follows d'"
    using wf ids f by (intro wf_follows_grow [of d d']) (auto simp: wf_db_def)
  moreover have "wf_users d'" "wf_groups d'"
    using wf f by (simp_all add: wf_db_def wf_users_def wf_groups_def distinct_map_filter)
  ultimately show ?thesis by (simp add: d'_def [symmetric] wf_db_def)
qed

lemma delete_user_wf:
  assumes wf: "wf_db d"
  shows "wf_db (delete_user uid d)"
proof -
  define gone where "gone = map post_pk (filter (\<lambda>p. post_author p = uid) (db_posts d))"
  define d' where "d' = delete_user uid d"
  have f: "db_users d' = filter (\<lambda>u. user_pk u \<noteq> uid) (db_users d)"
    "db_groups d' = db_groups d"
    "db_posts d' = filter (\<lambda>p. post_author p \<noteq> uid) (db_posts d)"
    "db_comments d' = filter (\<lambda>c. comment_author c \<noteq> Some uid \<and>
                                  (\<forall>pid \<in> set gone. comment_post c \<noteq> Some pid)) (db_comments d)"
    "db_follows d' = filter (\<lambda>f. follow_user f \<noteq> uid \<and> follow_author f \<noteq> Some uid) (db_follows d)"
    "db_next_post d' = db_next_post d" "db_clock d' = db_clock d"
    by (simp_all add: d'_def gone_def delete_user_def Let_def)
  have uids: "user_ids d' = user_ids d - {uid}" and gids: "group_ids d' = group_ids d"
    using f by (auto simp: id_sets)
  have pids: "p \<in> post_ids d'" if "p \<in> post_ids d" and "p \<notin> set gone" for p
    using that f by (auto simp: post_ids_def gone_def)
  have "wf_posts d'"
    using wf uids gids f by (auto simp: wf_db_def wf_posts_def wf_post_def distinct_map_filter
        sorted_wrt_less_filter)
  moreover have "wf_comments d'"
  proof -
    have "\<forall>c \<in> set (db_comments d'). wf_comment d' c"
      using wf uids f pids by (fastforce simp: wf_db_def wf_comments_def wf_comment_def option.pred_set)
    moreover have "sorted_wrt (<) (map comment_created (db_comments d'))"
      using wf f by (simp add: wf_db_def wf_comments_def sorted_wrt_less_filter)
    ultimately show ?thesis by (simp add: wf_comments_def)
  qed
  moreover have "wf_follows d'"
    using wf uids f by (auto simp: wf_db_def wf_follows_def wf_follow_def option.pred_set)
  moreover have "wf_users d'" "wf_groups d'"
    using wf f by (simp_all add: wf_db_def wf_users_def wf_groups_def distinct_map_filter)
  ultimately show ?thesis by (simp add: d'_def [symmetric] wf_db_def)
qed

section \<open>Lookups and ordering on well-formed tables\<close>

lemma get_post_pk: "get_post d pid = Some p \<Longrightarrow> post_pk p = pid"
  by (auto simp: get_post_def dest: find_Some_iff [THEN iffD1])

lemma comments_ordered_sorted:
  "sorted_wrt (<) (map comment_created cs) \<Longrightarrow> comments_ordered cs = rev cs"
  by (simp add: comments_ordered_def rev_sort_key_sorted)

lemma posts_ordered_sorted:
  "sorted_wrt (<) (map post_pub_date ps) \<Longrightarrow> posts_ordered ps = rev ps"
  by (simp add: posts_ordered_def rev_sort_key_sorted)

lemma insert_post_ordered:
  assumes "wf_posts d"
  shows "posts_ordered (filter P (db_posts (snd (insert_post txt a g img d)))) =
           (if P (fst (insert_post txt a g img d))
            then fst (insert_post txt a g img d) # posts_ordered (filter P (db_posts d))
            else posts_ordered (filter P (db_posts d)))"
proof -
  define p where "p = fst (insert_post txt a g img d)"
  have old: "sorted_wrt (<) (map post_pub_date (db_posts d))"
    using assms by (simp add: wf_posts_def)
  have "\<forall>q \<in> set (db_posts d). post_pub_date q < post_pub_date p"
    using assms by (auto simp: wf_posts_def wf_post_def p_def insert_post_def Let_def)
  with old have "sorted_wrt (<) (map post_pub_date (db_posts d @ [p]))"
    by (simp add: sorted_wrt_append)
  then have "posts_ordered (filter P (db_posts d @ [p])) = rev (filter P (db_posts d @ [p]))"
    by (intro posts_ordered_sorted sorted_wrt_less_filter)
  moreover have "posts_ordered (filter P (db_posts d)) = rev (filter P (db_posts d))"
    using old by (intro posts_ordered_sorted sorted_wrt_less_filter)
  moreover have "db_posts (snd (insert_post txt a g img d)) = db_posts d @ [p]"
    by (simp add: p_def insert_post_def Let_def)
  ultimately show ?thesis by (simp add: p_def [symmetric])
qed

lemma length_posts_ordered [simp]: "length (posts_ordered ps) = length ps"
  by (simp add: posts_ordered_def)

lemma set_posts_ordered [simp]: "set (posts_ordered ps) = set ps"
  by (simp add: posts_ordered_def)

lemma get_user_in: "k \<in> user_ids d \<Longrightarrow> \<exists>u. get_user d k = Some u \<and> user_pk u = k \<and> u \<in> set (db_users d)"
proof (cases "get_user d k")
  case None
  then have "k \<notin> user_pk ` set (db_users d)" by (simp add: get_user_def find_None_key)
  then show "k \<in> user_ids d \<Longrightarrow> ?thesis" by (simp add: user_ids_def)
next
  case (Some u)
  then show ?thesis by (auto simp: get_user_def dest: find_Some_iff [THEN iffD1])
qed

section \<open>What the deletion rules guarantee\<close>

text \<open>C31: deleting a group (\<open>Post.group\<close> is \<open>SET_NULL\<close>) keeps every post with its key, author and text, and clears the group of the posts that had it.\<close>

theorem delete_group_keeps_posts:
  "map post_pk (db_posts (delete_group g d)) = map post_pk (db_posts d) \<and>
   map post_author (db_posts (delete_group g d)) = map post_author (db_posts d) \<and>
   map post_text (db_posts (delete_group g d)) = map post_text (db_posts d) \<and>
   (\<forall>p \<in> set (db_posts (delete_group g d)). post_group p \<noteq> Some g) \<and>
   g \<notin> group_ids (delete_group g d)"
  by (auto simp: delete_group_def group_ids_def)

text \<open>C32: deleting a user (\<open>CASCADE\<close> on \<open>Post.author\<close>, \<open>Comment.author\<close>, \<open>Follow.user\<close>, \<open>Follow.author\<close>) leaves a well-formed store in which no post, comment or follow row names the user.\<close>

theorem delete_user_cascade:
  assumes "wf_db d"
  shows "wf_db (delete_user uid d) \<and> uid \<notin> user_ids (delete_user uid d) \<and>
         (\<forall>p \<in> set (db_posts (delete_user uid d)). post_author p \<noteq> uid) \<and>
         (\<forall>c \<in> set (db_comments (delete_user uid d)). comment_author c \<noteq> Some uid) \<and>
         (\<forall>f \<in> set (db_follows (delete_user uid d)). follow_user f \<noteq> uid \<and> follow_author f \<noteq> Some uid)"
  using delete_user_wf [OF assms] by (auto simp: delete_user_def Let_def user_ids_def)

text \<open>C34: deleting a post (\<open>Comment.post\<close> is \<open>CASCADE\<close>) removes exactly the post's row and the rows of every comment on it, changes no other table and no other column, and leaves a well-formed store with one post fewer when the post existed.\<close>

theorem delete_post_cascade:
  assumes "wf_db d"
  shows "wf_db (delete_post pid d) \<and>
         db_posts (delete_post pid d) = filter (\<lambda>p. post_pk p \<noteq> pid) (db_posts d) \<and>
         db_comments (delete_post pid d) = filter (\<lambda>c. comment_post c \<noteq> Some pid) (db_comments d) \<and>
         (delete_post pid d)\<lparr>db_posts := db_posts d, db_comments := db_comments d\<rparr> = d \<and>
         length (db_posts (delete_post pid d)) = length (db_posts d) - (if pid \<in> post_ids d then 1 else 0)"
proof -
  have dist: "distinct (map post_pk (db_posts d))"
    using assms by (simp add: wf_db_def wf_posts_def)
  have one: "length (filter (\<lambda>p. post_pk p = pid) (db_posts d)) = (if pid \<in> post_ids d then 1 else 0)"
  proof -
    have "length (filter (\<lambda>p. post_pk p = pid) (db_posts d)) \<le> 1"
      using dist by (rule length_filter_key_distinct)
    moreover have "(filter (\<lambda>p. post_pk p = pid) (db_posts d) \<noteq> []) = (pid \<in> post_ids d)"
      by (auto simp: post_ids_def filter_empty_conv)
    ultimately show ?thesis by (cases "filter (\<lambda>p. post_pk p = pid) (db_posts d)") auto
  qed
  have "length (filter (\<lambda>p. post_pk p \<noteq> pid) (db_posts d)) =
        length (db_posts d) - length (filter (\<lambda>p. post_pk p = pid) (db_posts d))"
    using sum_length_filter_compl [of "\<lambda>p. post_pk p = pid" "db_posts d"] by simp
  with one delete_post_wf [OF assms] show ?thesis
    by (simp add: delete_post_def)
qed

section \<open>Display strings\<close>

text \<open>C33: in a well-formed store the display string of every follow row is defined (no \<open>DoesNotExist\<close> is raised) and is the follower's own name, the separator, and the author's own name, or \<open>None\<close> for a row without author.\<close>

theorem follow_str_defined:
  assumes "wf_db d" and "f \<in> set (db_follows d)"
  shows "\<exists>u. get_user d (follow_user f) = Some u \<and>
           (case follow_author f of
              None \<Rightarrow> follow_str d f = Some (username u @ FOLLOW_SEP @ ''None'')
            | Some a \<Rightarrow> (\<exists>v. get_user d a = Some v \<and> follow_str d f = Some (username u @ FOLLOW_SEP @ username v)))"
proof -
  have wf: "wf_follow d f" using assms by (simp add: wf_db_def wf_follows_def)
  obtain u where u: "get_user d (follow_user f) = Some u"
    using wf get_user_in by (auto simp: wf_follow_def)
  show ?thesis
  proof (cases "follow_author f")
    case None
    with u show ?thesis by (simp add: follow_str_def)
  next
    case (Some a)
    then obtain v where "get_user d a = Some v"
      using wf get_user_in by (auto simp: wf_follow_def)
    with u Some show ?thesis by (simp add: follow_str_def)
  qed
qed

end
