(* ===== verification/Forms.thy ===== *)
theory Forms
  imports Models Http
begin

text \<open>
  \<open>posts/forms.py\<close> is not among the sources; the spec says that \<open>PostForm\<close>
  takes a required text, an optional group and an optional image, and that
  \<open>CommentForm\<close> takes a required text. Both are model forms, so their fields
  are the form fields Django derives from the model columns of
  \<open>src/yatube/posts/models.py\<close>:
  \<^item> \<open>text\<close> (a \<open>TextField\<close>) is a required \<open>CharField\<close>: its value is stripped,
    an empty result is the error \<open>required\<close>, and a NUL character is rejected;
  \<^item> \<open>group\<close> (a nullable foreign key) is a \<open>ModelChoiceField(required=False)\<close>:
    an absent or empty value is no group, any other value must be the primary key of
    an existing group (\<open>int(value)\<close> as the ORM converts it), else
    \<open>invalid_choice\<close>;
  \<^item> \<open>image\<close> (an \<open>ImageField(blank=True)\<close>) keeps the instance's file when nothing is
    uploaded and otherwise accepts only an image, stored under \<open>upload_to='posts/'\<close>.
  A form is bound when it is given data or files (\<open>request.POST or None\<close> passes
  \<open>None\<close> for an empty body); \<open>is_valid()\<close> is bound and without errors.
\<close>

datatype form_error = FieldRequired | NullCharacters | InvalidChoice | InvalidImage
  | InvalidUsername | UsernameTaken | PasswordMismatch

datatype 'a form = Unbound | Invalid "(string \<times> form_error) list" | Valid 'a

record post_data =
  pd_text :: string
  pd_group :: "group_id option"
  pd_image :: string

definition clean_text :: "(string \<times> string) list \<Rightarrow> form_error + string" where
  "clean_text data =
     (let v = py_strip (case qd_get data ''text'' of None \<Rightarrow> [] | Some s \<Rightarrow> s)
      in if v = [] then Inl FieldRequired
         else if CHR 0x00 \<in> set v then Inl NullCharacters
         else Inr v)"

definition clean_group :: "db \<Rightarrow> (string \<times> string) list \<Rightarrow> form_error + group_id option" where
  "clean_group d data =
     (case qd_get data ''group'' of
        None \<Rightarrow> Inr None
      | Some s \<Rightarrow>
          if s = [] then Inr None
          else (case python_int s of
                  None \<Rightarrow> Inl InvalidChoice
                | Some n \<Rightarrow>
                    if 0 \<le> n \<and> get_group d (nat n) \<noteq> None then Inr (Some (nat n))
                    else Inl InvalidChoice))"

definition clean_image :: "(string \<times> upload) list \<Rightarrow> string \<Rightarrow> form_error + string" where
  "clean_image files initial =
     (case qd_get files ''image'' of
        None \<Rightarrow> Inr initial
      | Some u \<Rightarrow> if upload_is_image u then Inr (''posts/'' @ upload_name u) else Inl InvalidImage)"

definition field_errors :: "(string \<times> (form_error + 'a)) list \<Rightarrow> (string \<times> form_error) list" where
  "field_errors fs = concat (map (\<lambda>(n, r). case r of Inl e \<Rightarrow> [(n, e)] | Inr _ \<Rightarrow> []) fs)"

text \<open>
  \<open>PostForm(data, files=files, instance=post)\<close>; \<open>initial\<close> is the instance's image,
  the empty string for a new post.
\<close>

definition post_form ::
  "db \<Rightarrow> (string \<times> string) list \<Rightarrow> (string \<times> upload) list \<Rightarrow> string \<Rightarrow> post_data form" where
  "post_form d data files initial =
     (if data = [] \<and> files = [] then Unbound
      else (case (clean_text data, clean_group d data, clean_image files initial) of
              (Inr t, Inr g, Inr i) \<Rightarrow> Valid \<lparr>pd_text = t, pd_group = g, pd_image = i\<rparr>
            | (t, g, i) \<Rightarrow>
                Invalid (field_errors [(''text'', map_sum id (\<lambda>_. ()) t)]
                         @ field_errors [(''group'', map_sum id (\<lambda>_. ()) g)]
                         @ field_errors [(''image'', map_sum id (\<lambda>_. ()) i)])))"

text \<open>\<open>CommentForm(request.POST or None)\<close>.\<close>

definition comment_form :: "(string \<times> string) list \<Rightarrow> string form" where
  "comment_form data =
     (if data = [] then Unbound
      else (case clean_text data of Inr t \<Rightarrow> Valid t | Inl e \<Rightarrow> Invalid [(''text'', e)]))"

text \<open>
  What a cleaned text field holds: \<open>CharField.to_python\<close> has stripped it,
  \<open>required\<close> has rejected the empty value and \<open>ProhibitNullCharactersValidator\<close>
  the NUL character.
\<close>

definition cleaned_text :: "string \<Rightarrow> bool" where
  "cleaned_text s \<longleftrightarrow> s \<noteq> [] \<and> py_strip s = s \<and> CHR 0x00 \<notin> set s"

section \<open>What a valid form holds\<close>

lemma clean_text_cleaned: "clean_text data = Inr v \<Longrightarrow> cleaned_text v"
  by (auto simp: clean_text_def cleaned_text_def Let_def py_strip_idem split: if_splits)

lemma post_form_cleaned: "post_form d data files img = Valid pd \<Longrightarrow> cleaned_text (pd_text pd)"
  by (auto simp: post_form_def split: if_splits sum.splits intro: clean_text_cleaned)

lemma comment_form_cleaned: "comment_form data = Valid t \<Longrightarrow> cleaned_text t"
  by (auto simp: comment_form_def split: if_splits sum.splits intro: clean_text_cleaned)

end
