(* ===== verification/Views.thy ===== *)
theory Views
  imports Paginator Forms
begin

text \<open>
  The request handlers of \<open>src/yatube/posts/views.py\<close>. A handler reads the store and
  the request and returns a response; a handler that writes also returns the new
  store. A response is a rendered template (the template name the view passes to
  \<open>render\<close>, and its context), a redirect to a named
  URL, the login redirect that \<open>@login_required\<close> issues (carrying the URL to come
  back to, the \<open>next\<close> parameter), or the 404 of \<open>get_object_or_404\<close>.
  \<open>request.user\<close> is the session's user when that user exists in the store and the
  anonymous user otherwise, as Django's authentication middleware resolves it.
\<close>

datatype url =
    URL_index
  | URL_group_list string
  | URL_profile string
  | URL_post_detail post_id
  | URL_post_create
  | URL_post_edit post_id
  | URL_add_comment post_id
  | URL_follow_index
  | URL_profile_follow string
  | URL_profile_unfollow string

datatype page_context =
    IndexPage "post page"
  | GroupPage group "post page"
  | ProfilePage user "post page" bool
  | DetailPage post nat "comment list" "string form"
  | CreatePage "post_data form"
  | EditPage post "post_data form"
  | FollowPage "post page"
  | SignupPage "string form"

datatype response =
    Render string page_context
  | Redirect url
  | RedirectLogin url string
  | NotFound

definition current_user :: "db \<Rightarrow> request \<Rightarrow> user option" where
  "current_user d req = (case req_user req of None \<Rightarrow> None | Some u \<Rightarrow> get_user d u)"

text \<open>
  \<open>@login_required\<close>: the anonymous user is sent to the login page with the
  requested URL as \<open>next\<close> and nothing else happens; otherwise the view runs.
\<close>

definition login_required ::
  "db \<Rightarrow> request \<Rightarrow> url \<Rightarrow> (user \<Rightarrow> response \<times> db) \<Rightarrow> response \<times> db" where
  "login_required d req here view =
     (case current_user d req of None \<Rightarrow> (RedirectLogin here (req_query req), d) | Some u \<Rightarrow> view u)"

section \<open>Feeds\<close>

definition index :: "db \<Rightarrow> request \<Rightarrow> response" where
  "index d req = Render ''posts/index.html'' (IndexPage (show_post_count_in_page req (posts_ordered (db_posts d))))"

definition group_posts :: "db \<Rightarrow> request \<Rightarrow> string \<Rightarrow> response" where
  "group_posts d req slug =
     (case get_group_by_slug d slug of
        None \<Rightarrow> NotFound
      | Some g \<Rightarrow>
          Render ''posts/group_list.html'' (GroupPage g (show_post_count_in_page req
                   (posts_ordered (filter (\<lambda>p. post_group p = Some (group_pk g)) (db_posts d))))))"

text \<open>
  \<open>request.user.is_authenticated and author != request.user and
  author.following.filter(user=request.user).exists()\<close>: false for the anonymous user.
\<close>

definition is_following :: "db \<Rightarrow> request \<Rightarrow> user \<Rightarrow> bool" where
  "is_following d req a =
     (case current_user d req of
        None \<Rightarrow> False
      | Some u \<Rightarrow> user_pk a \<noteq> user_pk u \<and> follow_exists d (user_pk u) (user_pk a))"

definition profile :: "db \<Rightarrow> request \<Rightarrow> string \<Rightarrow> response" where
  "profile d req name =
     (case get_user_by_name d name of
        None \<Rightarrow> NotFound
      | Some a \<Rightarrow>
          Render ''posts/profile.html'' (ProfilePage a (show_post_count_in_page req
            (posts_ordered (filter (\<lambda>p. post_author p = user_pk a) (db_posts d)))) (is_following d req a)))"

text \<open>\<open>Post.objects.filter(author=post.author).count()\<close> and \<open>Comment.objects.filter(post=post)\<close> in the model's ordering.\<close>

definition post_count :: "db \<Rightarrow> post \<Rightarrow> nat" where
  "post_count d p = length (filter (\<lambda>q. post_author q = post_author p) (db_posts d))"

definition post_comments :: "db \<Rightarrow> post \<Rightarrow> comment list" where
  "post_comments d p = comments_ordered (filter (\<lambda>c. comment_post c = Some (post_pk p)) (db_comments d))"

definition post_detail :: "db \<Rightarrow> request \<Rightarrow> post_id \<Rightarrow> response" where
  "post_detail d req pid =
     (case get_post d pid of
        None \<Rightarrow> NotFound
      | Some p \<Rightarrow> Render ''posts/post_detail.html'' (DetailPage p (post_count d p) (post_comments d p) (comment_form (req_POST req))))"

text \<open>
  \<open>Post.objects.filter(author__following__user=request.user)\<close>: a join of posts
  with the follow rows whose author is the post's author and whose user is the
  caller, one result row per matching follow row, in the posts' ordering.
\<close>

definition follow_feed :: "db \<Rightarrow> user_id \<Rightarrow> post list" where
  "follow_feed d u =
     posts_ordered (concat (map (\<lambda>p. map (\<lambda>f. p)
        (filter (\<lambda>f. follow_author f = Some (post_author p) \<and> follow_user f = u) (db_follows d)))
        (db_posts d)))"

definition follow_index :: "db \<Rightarrow> request \<Rightarrow> response \<times> db" where
  "follow_index d req =
     login_required d req URL_follow_index
       (\<lambda>u. (Render ''posts/follow.html'' (FollowPage (show_post_count_in_page req (follow_feed d (user_pk u)))), d))"

section \<open>Authoring\<close>

definition create_page_with_form :: "post_data form \<Rightarrow> response" where
  "create_page_with_form f = Render ''posts/create_post.html'' (CreatePage f)"

definition post_create :: "db \<Rightarrow> request \<Rightarrow> response \<times> db" where
  "post_create d req =
     login_required d req URL_post_create
       (\<lambda>u. if req_method req = POST then
              (case post_form d (req_POST req) (req_FILES req) [] of
                 Valid pd \<Rightarrow>
                   (let (p, d') = insert_post (pd_text pd) (user_pk u) (pd_group pd) (pd_image pd) d
                    in (Redirect (URL_profile (username u)), d'))
               | f \<Rightarrow> (create_page_with_form f, d))
            else (create_page_with_form Unbound, d))"

definition post_edit :: "db \<Rightarrow> request \<Rightarrow> post_id \<Rightarrow> response \<times> db" where
  "post_edit d req pid =
     login_required d req (URL_post_edit pid)
       (\<lambda>u. case get_post d pid of
              None \<Rightarrow> (NotFound, d)
            | Some p \<Rightarrow>
                if post_author p \<noteq> user_pk u then (Redirect (URL_post_detail pid), d)
                else (case post_form d (req_POST req) (req_FILES req) (post_image p) of
                        Valid pd \<Rightarrow>
                          (Redirect (URL_post_detail pid),
                           update_post pid (pd_text pd) (pd_group pd) (pd_image pd) d)
                      | f \<Rightarrow> (Render ''posts/create_post.html'' (EditPage p f), d)))"

definition add_comment :: "db \<Rightarrow> request \<Rightarrow> post_id \<Rightarrow> response \<times> db" where
  "add_comment d req pid =
     login_required d req (URL_add_comment pid)
       (\<lambda>u. case get_post d pid of
              None \<Rightarrow> (NotFound, d)
            | Some p \<Rightarrow>
                (case comment_form (req_POST req) of
                   Valid t \<Rightarrow> (Redirect (URL_post_detail pid), insert_comment t (user_pk u) (post_pk p) d)
                 | _ \<Rightarrow> (Redirect (URL_post_detail pid), d)))"

section \<open>Following\<close>

definition profile_follow :: "db \<Rightarrow> request \<Rightarrow> string \<Rightarrow> response \<times> db" where
  "profile_follow d req name =
     login_required d req (URL_profile_follow name)
       (\<lambda>u. case get_user_by_name d name of
              None \<Rightarrow> (NotFound, d)
            | Some a \<Rightarrow>
                (let follow = follow_exists d (user_pk u) (user_pk a)
                 in (Redirect (URL_profile name),
                     if user_pk u \<noteq> user_pk a \<and> \<not> follow then insert_follow (user_pk u) (user_pk a) d
                     else d)))"

definition profile_unfollow :: "db \<Rightarrow> request \<Rightarrow> string \<Rightarrow> response \<times> db" where
  "profile_unfollow d req name =
     login_required d req (URL_profile_unfollow name)
       (\<lambda>u. case get_user_by_name d name of
              None \<Rightarrow> (NotFound, d)
            | Some a \<Rightarrow>
                (Redirect (URL_profile name),
                 if follow_exists d (user_pk u) (user_pk a) then delete_follows (user_pk u) (user_pk a) d
                 else d))"

section \<open>Routing\<close>

text \<open>
  The URL patterns of \<open>posts/urls.py\<close> (not among the sources; the spec lists them)
  send each path to its view. Views that only read leave the store as it is.
\<close>

fun dispatch :: "db \<Rightarrow> request \<Rightarrow> url \<Rightarrow> response \<times> db" where
  "dispatch d req URL_index = (index d req, d)"
| "dispatch d req (URL_group_list s) = (group_posts d req s, d)"
| "dispatch d req (URL_profile n) = (profile d req n, d)"
| "dispatch d req (URL_post_detail p) = (post_detail d req p, d)"
| "dispatch d req URL_post_create = post_create d req"
| "dispatch d req (URL_post_edit p) = post_edit d req p"
| "dispatch d req (URL_add_comment p) = add_comment d req p"
| "dispatch d req URL_follow_index = follow_index d req"
| "dispatch d req (URL_profile_follow n) = profile_follow d req n"
| "dispatch d req (URL_profile_unfollow n) = profile_unfollow d req n"

section \<open>Behaviour of the handlers\<close>

lemma login_required_anonymous:
  "current_user d req = None \<Longrightarrow> login_required d req here view = (RedirectLogin here (req_query req), d)"
  by (simp add: login_required_def)

lemma login_required_user:
  "current_user d req = Some u \<Longrightarrow> login_required d req here view = view u"
  by (simp add: login_required_def)

lemma current_user_users:
  "db_users d' = db_users d \<Longrightarrow> current_user d' req = current_user d req"
  by (simp add: current_user_def get_user_def split: option.split)

lemma get_user_by_name_users:
  "db_users d' = db_users d \<Longrightarrow> get_user_by_name d' n = get_user_by_name d n"
  by (simp add: get_user_by_name_def)

text \<open>C2: an anonymous request to create a post changes nothing and is redirected to the login page with the create page as \<open>next\<close>.\<close>

lemma post_create_anonymous:
  assumes "current_user d req = None"
  shows "post_create d req = (RedirectLogin URL_post_create (req_query req), d)"
  using assms by (simp add: post_create_def login_required_anonymous)

lemma post_create_insert:
  assumes "current_user d req = Some u" and "req_method req = POST"
    and "post_form d (req_POST req) (req_FILES req) [] = Valid pd"
  shows "post_create d req =
           (Redirect (URL_profile (username u)), snd (insert_post (pd_text pd) (user_pk u) (pd_group pd) (pd_image pd) d))"
  using assms by (simp add: post_create_def login_required_user split_def)

text \<open>C1: a valid post submitted by a signed-in user adds exactly one post at the end of the table, with the next key and the next timestamp, owned by the caller and carrying the form's text, group and image, and redirects to the caller's profile.\<close>

lemma post_create_valid:
  assumes "current_user d req = Some u" and "req_method req = POST"
    and "post_form d (req_POST req) (req_FILES req) [] = Valid pd"
  shows "\<exists>p. post_create d req = (Redirect (URL_profile (username u)),
                 d\<lparr>db_posts := db_posts d @ [p], db_next_post := Suc (db_next_post d),
                   db_clock := Suc (db_clock d)\<rparr>) \<and>
             post_author p = user_pk u \<and> post_text p = pd_text pd \<and> post_group p = pd_group pd \<and>
             post_image p = pd_image pd \<and> post_pk p = db_next_post d"
proof -
  let ?p = "\<lparr>post_pk = db_next_post d, post_text = pd_text pd, post_pub_date = Suc (db_clock d),
             post_author = user_pk u, post_group = pd_group pd, post_image = pd_image pd\<rparr>"
  have "post_create d req = (Redirect (URL_profile (username u)),
          d\<lparr>db_posts := db_posts d @ [?p], db_next_post := Suc (db_next_post d),
            db_clock := Suc (db_clock d)\<rparr>)"
    using assms by (simp add: post_create_def login_required_user insert_post_def Let_def)
  then show ?thesis by (intro exI [of _ ?p]) simp
qed

text \<open>C3: a signed-in user who is not the author of an existing post and asks to edit it is redirected to the post's page and the store is unchanged.\<close>

lemma post_edit_non_author:
  assumes "current_user d req = Some u" and "get_post d pid = Some p" and "post_author p \<noteq> user_pk u"
  shows "post_edit d req pid = (Redirect (URL_post_detail pid), d)"
  using assms by (simp add: post_edit_def login_required_user)

text \<open>C4: a valid edit by the author replaces the text, group and image of that post only, keeps the number of posts, and redirects to the post's page.\<close>

lemma post_edit_author_valid:
  assumes u: "current_user d req = Some u" and p: "get_post d pid = Some p"
    and a: "post_author p = user_pk u"
    and v: "post_form d (req_POST req) (req_FILES req) (post_image p) = Valid pd"
  shows "fst (post_edit d req pid) = Redirect (URL_post_detail pid) \<and>
         get_post (snd (post_edit d req pid)) pid =
           Some (p\<lparr>post_text := pd_text pd, post_group := pd_group pd, post_image := pd_image pd\<rparr>) \<and>
         length (db_posts (snd (post_edit d req pid))) = length (db_posts d) \<and>
         (\<forall>q. q \<noteq> pid \<longrightarrow> get_post (snd (post_edit d req pid)) q = get_post d q)"
proof -
  have run: "post_edit d req pid =
      (Redirect (URL_post_detail pid), update_post pid (pd_text pd) (pd_group pd) (pd_image pd) d)"
    using u p a v by (simp add: post_edit_def login_required_user)
  have pk: "post_pk p = pid" using p by (rule get_post_pk)
  define d' where "d' = update_post pid (pd_text pd) (pd_group pd) (pd_image pd) d"
  have look: "get_post d' q =
        map_option (\<lambda>x. if post_pk x = pid
                         then x\<lparr>post_text := pd_text pd, post_group := pd_group pd, post_image := pd_image pd\<rparr>
                         else x) (get_post d q)" for q
    unfolding d'_def get_post_def update_post_def by (simp add: find_map_key_same)
  have same: "get_post d' q = get_post d q" if "q \<noteq> pid" for q
  proof (cases "get_post d q")
    case None
    then show ?thesis by (simp add: look)
  next
    case (Some x)
    then have "post_pk x = q" by (rule get_post_pk)
    with Some that show ?thesis by (simp add: look)
  qed
  have "get_post d' pid =
          Some (p\<lparr>post_text := pd_text pd, post_group := pd_group pd, post_image := pd_image pd\<rparr>)"
    using p pk by (simp add: look)
  moreover have "length (db_posts d') = length (db_posts d)"
    by (simp add: d'_def update_post_def)
  ultimately show ?thesis
    using run same by (simp add: d'_def [symmetric])
qed

text \<open>C5: an anonymous comment submission changes nothing and is redirected to the login page with the comment URL as \<open>next\<close>.\<close>

lemma add_comment_anonymous:
  assumes "current_user d req = None"
  shows "add_comment d req pid = (RedirectLogin (URL_add_comment pid) (req_query req), d)"
  using assms by (simp add: add_comment_def login_required_anonymous)

lemma add_comment_invalid:
  assumes "current_user d req = Some u" and "get_post d pid = Some p"
    and "\<forall>t. comment_form (req_POST req) \<noteq> Valid t"
  shows "add_comment d req pid = (Redirect (URL_post_detail pid), d)"
  using assms by (auto simp: add_comment_def login_required_user split: form.splits)

text \<open>C6: on a well-formed store, a valid comment by a signed-in user on an existing post adds one comment, redirects to the post's page, and that page then lists the new comment first, with the caller as author.\<close>

lemma add_comment_valid:
  assumes wf: "wf_db d" and u: "current_user d req = Some u" and p: "get_post d pid = Some p"
    and t: "comment_form (req_POST req) = Valid t"
  shows "fst (add_comment d req pid) = Redirect (URL_post_detail pid) \<and>
         length (db_comments (snd (add_comment d req pid))) = Suc (length (db_comments d)) \<and>
         (\<exists>n cs. post_detail (snd (add_comment d req pid)) req' pid =
            Render ''posts/post_detail.html'' (DetailPage p n
              (\<lparr>comment_post = Some pid, comment_author = Some (user_pk u), comment_text = t,
                 comment_created = Suc (db_clock d)\<rparr> # cs)
              (comment_form (req_POST req'))))"
proof -
  let ?c = "\<lparr>comment_post = Some pid, comment_author = Some (user_pk u), comment_text = t,
                 comment_created = Suc (db_clock d)\<rparr>"
  let ?P = "\<lambda>c. comment_post c = Some pid"
  have pk: "post_pk p = pid" using p by (rule get_post_pk)
  have run: "add_comment d req pid = (Redirect (URL_post_detail pid), insert_comment t (user_pk u) pid d)"
    using u p t pk by (simp add: add_comment_def login_required_user)
  define d' where "d' = insert_comment t (user_pk u) pid d"
  have f: "db_posts d' = db_posts d" "db_comments d' = db_comments d @ [?c]"
    by (simp_all add: d'_def insert_comment_def)
  have old: "sorted_wrt (<) (map comment_created (db_comments d))"
    and before: "\<forall>c \<in> set (db_comments d). comment_created c < Suc (db_clock d)"
    using wf by (auto simp: wf_db_def wf_comments_def wf_comment_def)
  then have "sorted_wrt (<) (map comment_created (filter ?P (db_comments d) @ [?c]))"
    by (auto simp: sorted_wrt_append sorted_wrt_less_filter)
  then have "comments_ordered (filter ?P (db_comments d')) = ?c # rev (filter ?P (db_comments d))"
    using f by (simp add: comments_ordered_sorted)
  moreover have "get_post d' pid = Some p" using p f by (simp add: get_post_def)
  ultimately have "post_detail d' req' pid =
      Render ''posts/post_detail.html'' (DetailPage p (length (filter (\<lambda>q. post_author q = post_author p) (db_posts d')))
        (?c # rev (filter ?P (db_comments d))) (comment_form (req_POST req')))"
    using pk by (simp add: post_detail_def post_comments_def post_count_def)
  then show ?thesis using run f by (simp add: d'_def [symmetric])
qed

lemma profile_follow_new:
  assumes "current_user d req = Some u" and "get_user_by_name d name = Some a"
    and "user_pk u \<noteq> user_pk a" and "\<not> follow_exists d (user_pk u) (user_pk a)"
  shows "profile_follow d req name = (Redirect (URL_profile name), insert_follow (user_pk u) (user_pk a) d)"
  using assms by (simp add: profile_follow_def login_required_user)

text \<open>C14: following oneself, or an author one already follows, redirects to the profile and leaves the store unchanged (no self edge, no duplicate edge).\<close>

lemma profile_follow_noop:
  assumes "current_user d req = Some u" and "get_user_by_name d name = Some a"
    and "user_pk u = user_pk a \<or> follow_exists d (user_pk u) (user_pk a)"
  shows "profile_follow d req name = (Redirect (URL_profile name), d)"
  using assms by (auto simp: profile_follow_def login_required_user)

lemma profile_unfollow_user:
  assumes "current_user d req = Some u" and "get_user_by_name d name = Some a"
  shows "profile_unfollow d req name = (Redirect (URL_profile name), delete_follows (user_pk u) (user_pk a) d)"
proof -
  have "\<not> follow_exists d (user_pk u) (user_pk a) \<Longrightarrow> delete_follows (user_pk u) (user_pk a) d = d"
    by (auto simp: delete_follows_def follow_exists_def filter_id_conv)
  with assms show ?thesis by (auto simp: profile_unfollow_def login_required_user)
qed

text \<open>C13: following an author one did not follow and then unfollowing them restores the store exactly.\<close>

lemma follow_unfollow_roundtrip:
  assumes u: "current_user d req = Some u" and a: "get_user_by_name d name = Some a"
    and ne: "user_pk u \<noteq> user_pk a" and no: "\<not> follow_exists d (user_pk u) (user_pk a)"
  shows "snd (profile_unfollow (snd (profile_follow d req name)) req name) = d"
proof -
  let ?d' = "insert_follow (user_pk u) (user_pk a) d"
  have "snd (profile_follow d req name) = ?d'"
    using profile_follow_new [OF u a ne no] by simp
  moreover have du: "db_users ?d' = db_users d" by (simp add: insert_follow_def)
  have "current_user ?d' req = Some u" and "get_user_by_name ?d' name = Some a"
    using u a current_user_users [OF du] get_user_by_name_users [OF du] by simp_all
  then have "snd (profile_unfollow ?d' req name) = delete_follows (user_pk u) (user_pk a) ?d'"
    by (simp add: profile_unfollow_user)
  moreover have "delete_follows (user_pk u) (user_pk a) ?d' = d"
  proof -
    have "filter (\<lambda>f. \<not> (follow_user f = user_pk u \<and> follow_author f = Some (user_pk a))) (db_follows d)
          = db_follows d"
      using no by (auto simp: follow_exists_def filter_id_conv)
    then show ?thesis by (simp add: delete_follows_def insert_follow_def)
  qed
  ultimately show ?thesis by simp
qed

text \<open>C15: after an unfollow request by a signed-in user, the user no longer follows that author.\<close>

lemma unfollow_removes:
  assumes "current_user d req = Some u" and "get_user_by_name d name = Some a"
  shows "\<not> follow_exists (snd (profile_unfollow d req name)) (user_pk u) (user_pk a)"
  using assms by (simp add: profile_unfollow_user delete_follows_def follow_exists_def)

lemma follow_feed_refines:
  assumes "distinct (map (\<lambda>f. (follow_user f, follow_author f)) (db_follows d))"
  shows "follow_feed d u = posts_ordered (filter (\<lambda>p. follow_exists d u (post_author p)) (db_posts d))"
proof -
  have one: "map (\<lambda>f. p) (filter (\<lambda>f. follow_author f = Some (post_author p) \<and> follow_user f = u) (db_follows d))
             = (if follow_exists d u (post_author p) then [p] else [])" for p
  proof -
    let ?l = "filter (\<lambda>f. follow_author f = Some (post_author p) \<and> follow_user f = u) (db_follows d)"
    have "length (filter (\<lambda>f. (follow_user f, follow_author f) = (u, Some (post_author p)))
            (db_follows d)) \<le> 1"
      by (rule length_filter_key_distinct [OF assms])
    moreover have "?l = filter (\<lambda>f. (follow_user f, follow_author f) = (u, Some (post_author p)))
            (db_follows d)"
      by (rule filter_cong) auto
    ultimately have "length ?l \<le> 1" by (simp only:)
    moreover have "(?l \<noteq> []) = follow_exists d u (post_author p)"
      by (auto simp: follow_exists_def filter_empty_conv)
    ultimately show ?thesis by (cases ?l) auto
  qed
  have "concat (map (\<lambda>p. if follow_exists d u (post_author p) then [p] else []) ps) =
        filter (\<lambda>p. follow_exists d u (post_author p)) ps" for ps :: "post list"
    by (induction ps) auto
  then show ?thesis by (simp add: follow_feed_def one)
qed

end
