(* ===== verification/Routing.thy ===== *)
theory Routing
  imports Views
begin

text \<open>
  URL routing and the login redirect. \<open>posts/urls.py\<close> and the settings are not among
  the sources; the spec's table of paths (section 6) and the tests of
  \<open>posts/tests/test_urls.py\<close> fix the patterns:
  \<open>''\<close>, \<open>group/<slug:slug>/\<close>, \<open>profile/<str:username>/\<close>,
  \<open>posts/<int:post_id>/\<close>, \<open>create/\<close>, \<open>posts/<int:post_id>/edit/\<close>,
  \<open>posts/<int:post_id>/comment/\<close>, \<open>follow/\<close>,
  \<open>profile/<str:username>/follow/\<close> and \<open>profile/<str:username>/unfollow/\<close>, with
  Django's path converters (\<open>slug\<close> is \<open>[-a-zA-Z0-9_]+\<close>, \<open>str\<close> is \<open>[^/]+\<close>,
  \<open>int\<close> is \<open>[0-9]+\<close> read by \<open>int()\<close>). \<open>url_path\<close> is \<open>reverse()\<close>
  before quoting, and \<open>resolve\<close> decides which pattern a request path matches from
  the path's \<open>/\<close>-separated segments (the Urlconf theory holds the patterns as
  Django tries them and proves the two resolvers equal). The anonymous user's redirect is
  \<open>redirect_to_login\<close> to \<open>settings.LOGIN_URL\<close> (\<open>'/auth/login/'\<close>) with the requested path in
  \<open>next\<close>, percent-encoded by \<open>QueryDict.urlencode(safe='/')\<close>; the login view reads
  it back with \<open>parse_qsl\<close> and \<open>unquote_plus\<close>. Strings are byte strings (the
  UTF-8 encoding of the text).
\<close>

section \<open>Paths\<close>

fun url_path :: "url \<Rightarrow> string" where
  "url_path URL_index = ''/''"
| "url_path (URL_group_list s) = ''/group/'' @ s @ ''/''"
| "url_path (URL_profile n) = ''/profile/'' @ n @ ''/''"
| "url_path (URL_post_detail p) = ''/posts/'' @ decimal_string p @ ''/''"
| "url_path URL_post_create = ''/create/''"
| "url_path (URL_post_edit p) = ''/posts/'' @ decimal_string p @ ''/edit/''"
| "url_path (URL_add_comment p) = ''/posts/'' @ decimal_string p @ ''/comment/''"
| "url_path URL_follow_index = ''/follow/''"
| "url_path (URL_profile_follow n) = ''/profile/'' @ n @ ''/follow/''"
| "url_path (URL_profile_unfollow n) = ''/profile/'' @ n @ ''/unfollow/''"

text \<open>\<open>str.split(sep)\<close>: the pieces between the separators, empty ones included.\<close>

fun split_on :: "char \<Rightarrow> string \<Rightarrow> string list" where
  "split_on c [] = [[]]"
| "split_on c (x # xs) = (if x = c then [] # split_on c xs
                          else (let r = split_on c xs in (x # hd r) # tl r))"

definition slug_char :: "char \<Rightarrow> bool" where
  "slug_char c \<longleftrightarrow>
     py_isdigit c \<or> (65 \<le> (of_char c :: nat) \<and> (of_char c :: nat) \<le> 90)
     \<or> (97 \<le> (of_char c :: nat) \<and> (of_char c :: nat) \<le> 122) \<or> c = CHR ''-'' \<or> c = CHR ''_''"

definition is_slug :: "string \<Rightarrow> bool" where
  "is_slug s \<longleftrightarrow> s \<noteq> [] \<and> (\<forall>c \<in> set s. slug_char c)"

definition is_str :: "string \<Rightarrow> bool" where
  "is_str s \<longleftrightarrow> s \<noteq> [] \<and> CHR ''/'' \<notin> set s"

definition is_int :: "string \<Rightarrow> bool" where
  "is_int s \<longleftrightarrow> s \<noteq> [] \<and> (\<forall>c \<in> set s. py_isdigit c)"

text \<open>The patterns, one per shape of the path's segments after the leading slash.\<close>

definition resolve_segments :: "string list \<Rightarrow> url option" where
  "resolve_segments ss =
     (case ss of
        [a] \<Rightarrow> if a = [] then Some URL_index else None
      | [a, e] \<Rightarrow>
          if e \<noteq> [] then None
          else if a = ''create'' then Some URL_post_create
          else if a = ''follow'' then Some URL_follow_index
          else None
      | [a, x, e] \<Rightarrow>
          if e \<noteq> [] then None
          else if a = ''group'' \<and> is_slug x then Some (URL_group_list x)
          else if a = ''profile'' \<and> is_str x then Some (URL_profile x)
          else if a = ''posts'' \<and> is_int x then Some (URL_post_detail (dec_fold 0 x))
          else None
      | [a, x, y, e] \<Rightarrow>
          if e \<noteq> [] then None
          else if a = ''posts'' \<and> is_int x \<and> y = ''edit'' then Some (URL_post_edit (dec_fold 0 x))
          else if a = ''posts'' \<and> is_int x \<and> y = ''comment'' then Some (URL_add_comment (dec_fold 0 x))
          else if a = ''profile'' \<and> is_str x \<and> y = ''follow'' then Some (URL_profile_follow x)
          else if a = ''profile'' \<and> is_str x \<and> y = ''unfollow'' then Some (URL_profile_unfollow x)
          else None
      | _ \<Rightarrow> None)"

definition resolve :: "string \<Rightarrow> url option" where
  "resolve path =
     (case path of
        c # rest \<Rightarrow> if c = CHR ''/'' then resolve_segments (split_on CHR ''/'' rest) else None
      | [] \<Rightarrow> None)"

text \<open>The URLs \<^const>\<open>url_path\<close> prints and \<^const>\<open>resolve\<close> reads back: the captured values match their converters.\<close>

fun valid_url :: "url \<Rightarrow> bool" where
  "valid_url (URL_group_list s) = is_slug s"
| "valid_url (URL_profile n) = is_str n"
| "valid_url (URL_profile_follow n) = is_str n"
| "valid_url (URL_profile_unfollow n) = is_str n"
| "valid_url _ = True"

text \<open>The URLs whose view is wrapped in \<open>@login_required\<close>.\<close>

fun login_url :: "url \<Rightarrow> bool" where
  "login_url URL_post_create = True"
| "login_url (URL_post_edit _) = True"
| "login_url (URL_add_comment _) = True"
| "login_url URL_follow_index = True"
| "login_url (URL_profile_follow _) = True"
| "login_url (URL_profile_unfollow _) = True"
| "login_url _ = False"

section \<open>Percent-encoding\<close>

text \<open>\<open>urllib.parse.quote(s, safe)\<close>: letters, digits, \<open>_.-~\<close> and the safe characters stay, every other byte is \<open>%XX\<close> in upper-case hex.\<close>

definition always_safe :: "char \<Rightarrow> bool" where
  "always_safe c \<longleftrightarrow> slug_char c \<or> c = CHR ''.'' \<or> c = CHR ''~''"

definition hex_digit :: "nat \<Rightarrow> char" where
  "hex_digit k = (if k < 10 then char_of (48 + k) else char_of (55 + k))"

definition hex_value :: "char \<Rightarrow> nat option" where
  "hex_value c =
     (let n = (of_char c :: nat)
      in if 48 \<le> n \<and> n \<le> 57 then Some (n - 48)
         else if 65 \<le> n \<and> n \<le> 70 then Some (n - 55)
         else if 97 \<le> n \<and> n \<le> 102 then Some (n - 87)
         else None)"

definition quote_char :: "string \<Rightarrow> char \<Rightarrow> string" where
  "quote_char safe c =
     (if always_safe c \<or> c \<in> set safe then [c]
      else [CHR ''%'', hex_digit (of_char c div 16), hex_digit (of_char c mod 16)])"

definition url_quote :: "string \<Rightarrow> string \<Rightarrow> string" where
  "url_quote safe s = concat (map (quote_char safe) s)"

text \<open>\<open>unquote\<close>: a \<open>%\<close> followed by two hex digits (either case) is that byte, anything else stays.\<close>

fun url_unquote :: "string \<Rightarrow> string" where
  "url_unquote (c # h # l # cs) =
     (if c = CHR ''%'' then
        (case (hex_value h, hex_value l) of
           (Some a, Some b) \<Rightarrow> char_of (16 * a + b) # url_unquote cs
         | _ \<Rightarrow> c # url_unquote (h # l # cs))
      else c # url_unquote (h # l # cs))"
| "url_unquote cs = cs"

definition unquote_plus :: "string \<Rightarrow> string" where
  "unquote_plus s = url_unquote (map (\<lambda>c. if c = CHR ''+'' then CHR '' '' else c) s)"

text \<open>
  \<open>parse_qsl(qs, keep_blank_values=True)\<close> as \<open>QueryDict\<close> calls it: the fields
  between \<open>&\<close>, empty ones skipped, each split at its first \<open>=\<close> (a field without
  one has the empty value), name and value unquoted.
\<close>

definition split_first :: "char \<Rightarrow> string \<Rightarrow> string \<times> string" where
  "split_first c s = (takeWhile (\<lambda>x. x \<noteq> c) s, drop 1 (dropWhile (\<lambda>x. x \<noteq> c) s))"

definition parse_qsl :: "string \<Rightarrow> (string \<times> string) list" where
  "parse_qsl qs =
     map (\<lambda>nv. case split_first CHR ''='' nv of (n, v) \<Rightarrow> (unquote_plus n, unquote_plus v))
       (filter (\<lambda>f. f \<noteq> []) (split_on CHR ''&'' qs))"

section \<open>Locations\<close>

text \<open>
  \<open>reverse()\<close> quotes the path it builds, keeping the RFC 3986 sub-delimiters and
  \<open>/~:@\<close>; \<open>redirect()\<close> sends that string as the \<open>Location\<close>. The server hands the
  view the percent-decoded path (\<open>PATH_INFO\<close>).
\<close>

definition reverse_url :: "url \<Rightarrow> string" where
  "reverse_url u = url_quote ''!$&'()*+,;=/~:@'' (url_path u)"

text \<open>
  \<open>request.get_full_path()\<close> is \<open>escape_uri_path(request.path)\<close> followed, when the
  query string is not empty, by \<open>?\<close> and \<open>iri_to_uri(QUERY_STRING)\<close>;
  \<open>redirect_to_login\<close> puts it into \<open>next\<close> with \<open>QueryDict.urlencode(safe='/')\<close>.
\<close>

definition escape_uri_path :: "string \<Rightarrow> string" where
  "escape_uri_path p = url_quote ''/:@&+$,-_.!~*'()'' p"

definition iri_to_uri :: "string \<Rightarrow> string" where
  "iri_to_uri s = url_quote ''/#%[]=:;$&()+,!?*@'~'' s"

definition get_full_path :: "url \<Rightarrow> string \<Rightarrow> string" where
  "get_full_path here q = escape_uri_path (url_path here) @ (if q = [] then [] else CHR ''?'' # iri_to_uri q)"

definition login_location :: "url \<Rightarrow> string \<Rightarrow> string" where
  "login_location here q = ''/auth/login/'' @ ''?next='' @ url_quote ''/'' (get_full_path here q)"

fun location :: "response \<Rightarrow> string option" where
  "location (Redirect u) = Some (reverse_url u)"
| "location (RedirectLogin u q) = Some (login_location u q)"
| "location _ = None"

text \<open>What the login view finds in \<open>request.GET['next']\<close> when the client follows a location: the query is the part after the first \<open>?\<close>, up to a fragment.\<close>

definition location_next :: "string \<Rightarrow> string option" where
  "location_next loc =
     qd_get (parse_qsl (takeWhile (\<lambda>c. c \<noteq> CHR ''#'') (drop 1 (dropWhile (\<lambda>c. c \<noteq> CHR ''?'') loc))))
       ''next''"

text \<open>
  How the server takes a request target apart: the path before the first \<open>?\<close>,
  percent-decoded (\<open>PATH_INFO\<close>), and the raw query string after it
  (\<open>QUERY_STRING\<close>).
\<close>

definition target_path :: "string \<Rightarrow> string" where
  "target_path t = url_unquote (takeWhile (\<lambda>c. c \<noteq> CHR ''?'') t)"

definition target_query :: "string \<Rightarrow> string" where
  "target_query t = drop 1 (dropWhile (\<lambda>c. c \<noteq> CHR ''?'') t)"

text \<open>
  The characters a client puts into a query string unescaped: the unreserved ones,
  \<open>%\<close> of an escape, and the delimiters RFC 3986 allows in a query, but not the \<open>#\<close>
  that starts the fragment; on these \<open>iri_to_uri\<close> changes nothing.
\<close>

definition query_char :: "char \<Rightarrow> bool" where
  "query_char c \<longleftrightarrow> c \<noteq> CHR ''#'' \<and> (always_safe c \<or> c \<in> set ''/#%[]=:;$&()+,!?*@'~'')"

section \<open>Splitting and resolving\<close>

lemma split_on_no_sep: "c \<notin> set w \<Longrightarrow> split_on c w = [w]"
  by (induction w) auto

lemma split_on_sep: "c \<notin> set w \<Longrightarrow> split_on c (w @ c # r) = w # split_on c r"
  by (induction w) (auto simp: Let_def)

lemma decimal_string_is_int: "is_int (decimal_string n)"
  using decimal_string_nonempty decimal_string_digits by (simp add: is_int_def)

lemma slash_not_digit: "py_isdigit c \<Longrightarrow> c \<noteq> CHR ''/''"
  by (auto simp: py_isdigit_def)

lemma slash_not_decimal: "CHR ''/'' \<notin> set (decimal_string n)"
  using decimal_string_digits slash_not_digit by blast

lemma slash_not_slug: "is_slug s \<Longrightarrow> CHR ''/'' \<notin> set s"
  by (auto simp: is_slug_def slug_char_def py_isdigit_def)

lemma slug_is_str: "is_slug s \<Longrightarrow> is_str s"
  using slash_not_slug by (auto simp: is_str_def is_slug_def)

lemma resolve_url_path: "valid_url u \<Longrightarrow> resolve (url_path u) = Some u"
  by (cases u) (auto simp: resolve_def resolve_segments_def split_on_sep split_on_no_sep
      slash_not_decimal slash_not_slug decimal_string_is_int decimal_string_value slug_is_str is_str_def)

section \<open>Quoting and unquoting\<close>

lemma of_char_small: "(n::nat) < 256 \<Longrightarrow> of_char (char_of n :: char) = n"
  by (simp add: of_char_of)

lemma hex_value_hex_digit: "k < 16 \<Longrightarrow> hex_value (hex_digit k) = Some k"
  by (auto simp: hex_value_def hex_digit_def of_char_small Let_def)

lemma hex_digit_safe: "k < 16 \<Longrightarrow> always_safe (hex_digit k)"
  by (auto simp: always_safe_def slug_char_def py_isdigit_def hex_digit_def of_char_small)

lemma of_char_less: "(of_char (c :: char) :: nat) < 256"
  using of_char_mod_256 [of c] by (metis mod_less_divisor zero_less_numeral)

lemma byte_div_16: "(of_char (c :: char) :: nat) div 16 < 16"
  using of_char_less [of c] by (simp add: div_less_iff_less_mult)

lemma byte_mod_16: "(of_char (c :: char) :: nat) mod 16 < 16"
  by simp

lemma percent_not_safe: "\<not> always_safe CHR ''%''"
  by (simp add: always_safe_def slug_char_def py_isdigit_def)

lemma url_unquote_plain: "c \<noteq> CHR ''%'' \<Longrightarrow> url_unquote (c # cs) = c # url_unquote cs"
  by (cases cs rule: url_unquote.cases) auto

lemma url_unquote_escape:
  "hex_value h = Some a \<Longrightarrow> hex_value l = Some b \<Longrightarrow>
   url_unquote (CHR ''%'' # h # l # cs) = char_of (16 * a + b) # url_unquote cs"
  by simp

lemma url_unquote_quote_char:
  assumes "CHR ''%'' \<notin> set safe"
  shows "url_unquote (quote_char safe c @ cs) = c # url_unquote cs"
proof (cases "always_safe c \<or> c \<in> set safe")
  case True
  then have "c \<noteq> CHR ''%''" using assms percent_not_safe by auto
  with True show ?thesis by (simp add: quote_char_def url_unquote_plain)
next
  case False
  with byte_div_16 [of c] byte_mod_16 [of c] show ?thesis
    by (simp add: quote_char_def hex_value_hex_digit)
qed

lemma url_unquote_quote: "CHR ''%'' \<notin> set safe \<Longrightarrow> url_unquote (url_quote safe s) = s"
proof (induction s)
  case Nil
  then show ?case by (simp add: url_quote_def)
next
  case (Cons c s)
  then show ?case
    using url_unquote_quote_char [of safe c "url_quote safe s"] by (simp add: url_quote_def)
qed

lemma url_quote_chars:
  "x \<in> set (url_quote safe s) \<Longrightarrow> always_safe x \<or> x \<in> set safe \<or> x = CHR ''%''"
  using hex_digit_safe [OF byte_div_16] hex_digit_safe [OF byte_mod_16]
  by (auto simp: url_quote_def quote_char_def split: if_splits)

lemma url_quote_without:
  "\<not> always_safe x \<Longrightarrow> x \<notin> set safe \<Longrightarrow> x \<noteq> CHR ''%'' \<Longrightarrow> x \<notin> set (url_quote safe s)"
  using url_quote_chars by blast

lemma url_quote_id: "\<forall>c \<in> set s. always_safe c \<or> c \<in> set safe \<Longrightarrow> url_quote safe s = s"
  by (induction s) (simp_all add: url_quote_def quote_char_def)

lemma unquote_plus_quote:
  "CHR ''%'' \<notin> set safe \<Longrightarrow> CHR ''+'' \<notin> set safe \<Longrightarrow> unquote_plus (url_quote safe s) = s"
proof -
  assume pct: "CHR ''%'' \<notin> set safe" and plus: "CHR ''+'' \<notin> set safe"
  have "CHR ''+'' \<notin> set (url_quote safe s)"
    using plus by (intro url_quote_without) (simp_all add: always_safe_def slug_char_def py_isdigit_def)
  moreover have "CHR ''+'' \<notin> set xs \<Longrightarrow>
      map (\<lambda>c. if c = CHR ''+'' then CHR '' '' else c) xs = xs" for xs :: string
    by (induction xs) auto
  ultimately have "map (\<lambda>c. if c = CHR ''+'' then CHR '' '' else c) (url_quote safe s) = url_quote safe s"
    by blast
  then show ?thesis using url_unquote_quote [OF pct] by (simp add: unquote_plus_def)
qed

section \<open>The login redirect\<close>

lemma location_next_login: "location_next (login_location u r) = Some (get_full_path u r)"
proof -
  define q where "q = url_quote ''/'' (get_full_path u r)"
  have hash: "CHR ''#'' \<notin> set q" and amp: "CHR ''&'' \<notin> set q"
    unfolding q_def by (intro url_quote_without; simp add: always_safe_def slug_char_def py_isdigit_def)+
  have val: "unquote_plus q = get_full_path u r"
    unfolding q_def by (rule unquote_plus_quote) simp_all
  have "takeWhile (\<lambda>c. c \<noteq> CHR ''#'') q = q"
    using hash by (auto simp: takeWhile_eq_all_conv)
  then have query: "takeWhile (\<lambda>c. c \<noteq> CHR ''#'') (drop 1 (dropWhile (\<lambda>c. c \<noteq> CHR ''?'') (login_location u r)))
      = ''next='' @ q"
    by (simp add: login_location_def q_def [symmetric])
  have "split_on CHR ''&'' (''next='' @ q) = [''next='' @ q]"
    using amp by (intro split_on_no_sep) simp
  then have "parse_qsl (''next='' @ q) = [(unquote_plus ''next'', unquote_plus q)]"
    by (simp add: parse_qsl_def split_first_def)
  moreover have "unquote_plus ''next'' = ''next''"
    by (simp add: unquote_plus_def)
  ultimately show ?thesis
    unfolding location_next_def query by (simp add: qd_get_def val)
qed

lemma iri_to_uri_query: "\<forall>c \<in> set q. query_char c \<Longrightarrow> iri_to_uri q = q"
  unfolding iri_to_uri_def query_char_def by (rule url_quote_id) blast

lemma escape_uri_path_no_query: "CHR ''?'' \<notin> set (escape_uri_path p)"
  unfolding escape_uri_path_def
  by (rule url_quote_without) (simp_all add: always_safe_def slug_char_def py_isdigit_def)

lemma unquote_escape_uri_path: "url_unquote (escape_uri_path p) = p"
  by (simp add: escape_uri_path_def url_unquote_quote)

lemma full_path_target:
  "target_path (get_full_path u q) = url_path u"
  "target_query (get_full_path u q) = iri_to_uri q"
proof -
  let ?P = "\<lambda>c. c \<noteq> CHR ''?''"
  have tw: "takeWhile ?P (escape_uri_path p @ r) = escape_uri_path p @ takeWhile ?P r"
    and tw0: "takeWhile ?P (escape_uri_path p) = escape_uri_path p"
    and dw: "dropWhile ?P (escape_uri_path p @ r) = dropWhile ?P r"
    and dw0: "dropWhile ?P (escape_uri_path p) = []"
    for p r using escape_uri_path_no_query [of p]
    by (auto intro: takeWhile_append2 dropWhile_append2 simp: takeWhile_eq_all_conv dropWhile_eq_Nil_conv)
  show "target_path (get_full_path u q) = url_path u"
    by (simp add: target_path_def get_full_path_def tw tw0 unquote_escape_uri_path)
  show "target_query (get_full_path u q) = iri_to_uri q"
    by (simp add: target_query_def get_full_path_def dw dw0 iri_to_uri_def url_quote_def)
qed

lemma resolve_valid: "resolve p = Some u \<Longrightarrow> valid_url u"
  by (auto simp: resolve_def resolve_segments_def split: list.splits if_splits)

lemma reverse_resolves: "valid_url u \<Longrightarrow> resolve (url_unquote (reverse_url u)) = Some u"
  by (simp add: reverse_url_def url_unquote_quote resolve_url_path)

lemma resolve_canonical: "resolve p = Some u \<Longrightarrow> resolve (url_unquote (reverse_url u)) = Some u"
  using resolve_valid reverse_resolves by blast

section \<open>The redirects of the views\<close>

lemma get_user_by_name_name: "get_user_by_name d n = Some a \<Longrightarrow> a \<in> set (db_users d) \<and> username a = n"
  by (auto simp: get_user_by_name_def dest: find_Some_iff [THEN iffD1])

lemma current_user_member: "current_user d req = Some u \<Longrightarrow> u \<in> set (db_users d)"
  by (auto simp: current_user_def get_user_def split: option.splits dest: find_Some_iff [THEN iffD1])

text \<open>A view issues the login redirect only for its own URL, and only when it is under \<open>@login_required\<close>.\<close>

lemma dispatch_login_redirect:
  "fst (dispatch d req u) = RedirectLogin v q \<Longrightarrow> v = u \<and> q = req_query req \<and> login_url u"
  by (cases u) (auto simp: index_def group_posts_def profile_def is_following_def post_detail_def post_count_def post_comments_def post_create_def create_page_with_form_def
      post_edit_def add_comment_def follow_index_def profile_follow_def profile_unfollow_def
      login_required_def Let_def split_def split: option.splits if_splits form.splits)

text \<open>The targets of the views' redirects are URLs whose captured values match their converters, as long as every user name does.\<close>

lemma dispatch_redirect_valid:
  assumes "\<forall>x \<in> set (db_users d). is_str (username x)" and "fst (dispatch d req u) = Redirect v"
  shows "valid_url v"
  using assms
  by (cases u) (auto simp: index_def group_posts_def profile_def is_following_def post_detail_def post_count_def post_comments_def post_create_def create_page_with_form_def
      post_edit_def add_comment_def follow_index_def profile_follow_def profile_unfollow_def
      login_required_def Let_def split_def split: option.splits if_splits form.splits
      dest: current_user_member get_user_by_name_name)

end
