(* ===== verification/Accounts.thy ===== *)
theory Accounts
  imports Routing
begin

text \<open>
  The sign-up page of the \<open>users\<close> app, whose code is not among the sources: a
  \<open>CreateView\<close> over \<open>CreationForm\<close>, Django's \<open>UserCreationForm\<close> for the user
  model, that sends the new user to \<open>posts:index\<close>. What it does is fixed by the
  users tests (\<open>users/tests/test_forms.py\<close>: a valid sign-up adds one user and
  redirects to the index, a taken user name adds nothing) and by Django's form.
  The model's user has a key and a name only, so the optional names and e-mail
  fields, the password hash and the password validators of the settings are left
  out; a user name is compared after stripping and without NFKC normalisation.
\<close>

text \<open>
  \<open>UnicodeUsernameValidator\<close> (\<open>^[\\w.@+-]+\\Z\<close>, at most 150 characters) on
  the ASCII range: letters, digits and \<open>_.@+-\<close>; characters outside ASCII are
  accepted, as \<open>\\w\<close> accepts the letters among them.
\<close>

definition username_char :: "char \<Rightarrow> bool" where
  "username_char c \<longleftrightarrow> slug_char c \<or> c \<in> set ''.@+'' \<or> 128 \<le> (of_char c :: nat)"

definition valid_username :: "string \<Rightarrow> bool" where
  "valid_username s \<longleftrightarrow> s \<noteq> [] \<and> length s \<le> 150 \<and> (\<forall>c \<in> set s. username_char c)"

text \<open>\<open>form.save()\<close>: the new row of the user table.\<close>

definition signup :: "user_id \<Rightarrow> string \<Rightarrow> db \<Rightarrow> db" where
  "signup u name d = d\<lparr>db_users := db_users d @ [\<lparr>user_pk = u, username = name\<rparr>]\<rparr>"

text \<open>The key the database gives the new row: one more than the largest key in use.\<close>

definition fresh_user_id :: "db \<Rightarrow> user_id" where
  "fresh_user_id d = Suc (Max (insert 0 (user_ids d)))"

text \<open>
  The user name field: stripped, required, the validator, then the model's
  uniqueness check, which runs only on a name that passed the field's own checks.
\<close>

definition username_error :: "db \<Rightarrow> string \<Rightarrow> form_error option" where
  "username_error d name =
     (if name = [] then Some FieldRequired
      else if \<not> valid_username name then Some InvalidUsername
      else if get_user_by_name d name \<noteq> None then Some UsernameTaken
      else None)"

text \<open>
  The two password fields (\<open>strip=False\<close>), required and without NUL, and
  \<open>clean_password2\<close>: a mismatch is reported when both passwords were clean.
\<close>

definition password_errors :: "string \<Rightarrow> string \<Rightarrow> (string \<times> form_error) list" where
  "password_errors p1 p2 =
     (if p1 = [] then [(''password1'', FieldRequired)]
      else if CHR 0x00 \<in> set p1 then [(''password1'', NullCharacters)] else []) @
     (if p2 = [] then [(''password2'', FieldRequired)]
      else if CHR 0x00 \<in> set p2 then [(''password2'', NullCharacters)]
      else if p1 \<noteq> [] \<and> CHR 0x00 \<notin> set p1 \<and> p1 \<noteq> p2 then [(''password2'', PasswordMismatch)]
      else [])"

definition signup_form :: "db \<Rightarrow> (string \<times> string) list \<Rightarrow> string form" where
  "signup_form d data =
     (let name = py_strip (case qd_get data ''username'' of None \<Rightarrow> [] | Some s \<Rightarrow> s);
          p1 = (case qd_get data ''password1'' of None \<Rightarrow> [] | Some s \<Rightarrow> s);
          p2 = (case qd_get data ''password2'' of None \<Rightarrow> [] | Some s \<Rightarrow> s);
          errs = (case username_error d name of None \<Rightarrow> [] | Some e \<Rightarrow> [(''username'', e)])
                 @ password_errors p1 p2
      in if errs = [] then Valid name else Invalid errs)"

text \<open>
  \<open>CreateView\<close>: a GET shows the empty form; a POST binds the form, saves the
  user and redirects to the index when it is valid, and shows it with its errors
  otherwise.
\<close>

definition signup_view :: "db \<Rightarrow> request \<Rightarrow> response \<times> db" where
  "signup_view d req =
     (if req_method req = POST then
        (case signup_form d (req_POST req) of
           Valid name \<Rightarrow> (Redirect URL_index, signup (fresh_user_id d) name d)
         | f \<Rightarrow> (Render ''users/signup.html'' (SignupPage f), d))
      else (Render ''users/signup.html'' (SignupPage Unbound), d))"

lemma signup_form_username:
  assumes "signup_form d data = Valid name"
  shows "username_error d name = None"
proof (cases "username_error d (py_strip (case qd_get data ''username'' of None \<Rightarrow> [] | Some s \<Rightarrow> s))")
  case None
  then show ?thesis using assms by (simp add: signup_form_def Let_def split: if_splits)
next
  case (Some e)
  then show ?thesis using assms by (simp add: signup_form_def Let_def)
qed

lemma username_error_none:
  "username_error d name = None \<Longrightarrow> valid_username name \<and> get_user_by_name d name = None"
  by (simp add: username_error_def split: if_splits)

lemma fresh_user_id_fresh: "fresh_user_id d \<notin> user_ids d"
proof
  assume "fresh_user_id d \<in> user_ids d"
  then have "fresh_user_id d \<le> Max (insert 0 (user_ids d))"
    by (simp add: user_ids_def)
  then show False by (simp add: fresh_user_id_def)
qed

text \<open>A sign-up changes the user table only, and only by a valid, unused name under a fresh key.\<close>

lemma signup_view_store:
  "snd (signup_view d req) = d \<or>
   (\<exists>name. valid_username name \<and> get_user_by_name d name = None \<and>
      snd (signup_view d req) = signup (fresh_user_id d) name d)"
proof (cases "req_method req = POST"; cases "signup_form d (req_POST req)")
  fix name assume "req_method req = POST" "signup_form d (req_POST req) = Valid name"
  then show ?thesis
    using username_error_none [OF signup_form_username] by (auto simp: signup_view_def)
qed (simp_all add: signup_view_def)

lemma signup_view_tables [simp]:
  "db_posts (snd (signup_view d req)) = db_posts d"
  "db_comments (snd (signup_view d req)) = db_comments d"
  "db_follows (snd (signup_view d req)) = db_follows d"
  "db_groups (snd (signup_view d req)) = db_groups d"
  using signup_view_store [of d req] by (auto simp: signup_def)

lemma signup_view_users:
  "set (db_users (snd (signup_view d req))) \<subseteq> set (db_users d) \<union> {x. valid_username (username x)}"
  using signup_view_store [of d req] by (auto simp: signup_def)

lemma get_user_by_name_None: "get_user_by_name d n = None \<Longrightarrow> n \<notin> username ` set (db_users d)"
  by (auto simp: get_user_by_name_def find_None_iff)

lemma signup_wf:
  assumes "wf_db d" and "u \<notin> user_ids d" and "name \<notin> username ` set (db_users d)"
  shows "wf_db (signup u name d)"
proof -
  have grow: "user_ids d \<subseteq> user_ids (signup u name d)" by (auto simp: user_ids_def signup_def)
  have "wf_users (signup u name d)"
    using assms by (auto simp: wf_db_def wf_users_def signup_def user_ids_def)
  moreover have "wf_posts (signup u name d)"
    using assms grow by (intro wf_posts_grow [of d "signup u name d"]) (auto simp: wf_db_def signup_def group_ids_def)
  moreover have "wf_comments (signup u name d)"
    using assms grow by (intro wf_comments_grow [of d "signup u name d"]) (auto simp: wf_db_def signup_def post_ids_def)
  moreover have "wf_follows (signup u name d)"
    using assms grow by (intro wf_follows_grow [of d "signup u name d"]) (auto simp: wf_db_def signup_def)
  moreover have "wf_groups (signup u name d)"
    using assms by (simp add: wf_db_def wf_groups_def signup_def)
  ultimately show ?thesis by (simp add: wf_db_def)
qed

lemma signup_view_wf:
  assumes "wf_db d"
  shows "wf_db (snd (signup_view d req))"
  using signup_view_store [of d req]
proof
  assume "snd (signup_view d req) = d"
  then show ?thesis using assms by simp
next
  assume "\<exists>name. valid_username name \<and> get_user_by_name d name = None \<and>
      snd (signup_view d req) = signup (fresh_user_id d) name d"
  then obtain name where "get_user_by_name d name = None"
    and eq: "snd (signup_view d req) = signup (fresh_user_id d) name d" by blast
  then show ?thesis
    using signup_wf [OF assms fresh_user_id_fresh get_user_by_name_None] by simp
qed

text \<open>
  \<open>test_increase_count_users_after_signup\<close>: a valid sign-up redirects to the index
  and adds exactly one user, found afterwards by its name.
\<close>

lemma signup_valid:
  assumes "req_method req = POST" and "signup_form d (req_POST req) = Valid name"
  shows "signup_view d req = (Redirect URL_index, signup (fresh_user_id d) name d) \<and>
         length (db_users (snd (signup_view d req))) = Suc (length (db_users d)) \<and>
         get_user_by_name (snd (signup_view d req)) name = Some \<lparr>user_pk = fresh_user_id d, username = name\<rparr>"
proof -
  have "get_user_by_name d name = None"
    using username_error_none [OF signup_form_username [OF assms(2)]] by simp
  then have "\<forall>y \<in> set (db_users d). \<not> username y = name"
    by (simp add: get_user_by_name_def find_None_iff)
  with assms show ?thesis
    by (simp add: signup_view_def signup_def get_user_by_name_def find_append_fresh)
qed

end
