(* ===== verification/System.thy ===== *)
theory System
  imports Routing Accounts
begin

text \<open>
  The whole application as a state machine over the store. A step is one request to
  one of the URL patterns, handled by \<^const>\<open>dispatch\<close>, or one of the changes that
  happen outside \<open>posts/views.py\<close>: a visitor submits the sign-up page of the
  \<open>users\<close> app (\<^const>\<open>signup_view\<close>), an
  administrator creates a group (with a fresh key and an unused slug), or deletes a
  post, a group or a user, with the \<open>on_delete\<close> semantics of the model.
\<close>

definition follows_ok :: "db \<Rightarrow> bool" where
  "follows_ok d \<longleftrightarrow>
     distinct (map (\<lambda>f. (follow_user f, follow_author f)) (db_follows d)) \<and>
     (\<forall>f \<in> set (db_follows d). follow_author f \<noteq> Some (follow_user f))"

definition create_group :: "group_id \<Rightarrow> string \<Rightarrow> string \<Rightarrow> string \<Rightarrow> db \<Rightarrow> db" where
  "create_group g t s desc d =
     d\<lparr>db_groups := db_groups d @ [\<lparr>group_pk = g, group_title = t, group_slug = s,
                                     group_description = desc\<rparr>]\<rparr>"

inductive reachable :: "db \<Rightarrow> bool" where
  init: "reachable empty_db"
| request: "reachable d \<Longrightarrow> reachable (snd (dispatch d req url))"
| signup: "reachable d \<Longrightarrow> reachable (snd (signup_view d req))"
| new_group: "reachable d \<Longrightarrow> g \<notin> group_ids d \<Longrightarrow> s \<notin> group_slug ` set (db_groups d) \<Longrightarrow>
     reachable (create_group g t s desc d)"
| del_post: "reachable d \<Longrightarrow> reachable (delete_post p d)"
| del_group: "reachable d \<Longrightarrow> reachable (delete_group g d)"
| del_user: "reachable d \<Longrightarrow> reachable (delete_user u d)"

text \<open>The text columns hold only what the forms' \<open>clean()\<close> produces.\<close>

definition texts_clean :: "db \<Rightarrow> bool" where
  "texts_clean d \<longleftrightarrow>
     (\<forall>p \<in> set (db_posts d). cleaned_text (post_text p)) \<and>
     (\<forall>c \<in> set (db_comments d). cleaned_text (comment_text c))"

lemma current_user_in: "current_user d req = Some u \<Longrightarrow> user_pk u \<in> user_ids d"
  by (auto simp: current_user_def get_user_def user_ids_def split: option.splits dest: find_Some_iff [THEN iffD1])

lemma get_user_by_name_in: "get_user_by_name d n = Some a \<Longrightarrow> user_pk a \<in> user_ids d"
  by (auto simp: get_user_by_name_def user_ids_def dest: find_Some_iff [THEN iffD1])

lemma get_post_in: "get_post d pid = Some p \<Longrightarrow> post_pk p \<in> post_ids d"
  by (auto simp: get_post_def post_ids_def dest: find_Some_iff [THEN iffD1])

lemma get_group_in: "get_group d g = Some x \<Longrightarrow> g \<in> group_ids d"
  by (auto simp: get_group_def group_ids_def dest!: find_Some_iff [THEN iffD1])

lemma clean_group_in: "clean_group d data = Inr g \<Longrightarrow> pred_option (\<lambda>x. x \<in> group_ids d) g"
  by (auto simp: clean_group_def split: option.splits if_splits dest: get_group_in)

lemma post_form_group:
  "post_form d data files img = Valid pd \<Longrightarrow> pred_option (\<lambda>x. x \<in> group_ids d) (pd_group pd)"
  by (auto simp: post_form_def split: if_splits sum.splits intro: clean_group_in)

lemma post_create_outcome:
  "snd (post_create d req) = d \<or>
   (\<exists>u pd. current_user d req = Some u \<and> post_form d (req_POST req) (req_FILES req) [] = Valid pd \<and>
      snd (post_create d req) = snd (insert_post (pd_text pd) (user_pk u) (pd_group pd) (pd_image pd) d))"
  by (auto simp: post_create_def login_required_def split_def split: option.splits form.splits)

lemma post_edit_outcome:
  "snd (post_edit d req pid) = d \<or>
   (\<exists>u p pd. current_user d req = Some u \<and> get_post d pid = Some p \<and>
      post_form d (req_POST req) (req_FILES req) (post_image p) = Valid pd \<and>
      snd (post_edit d req pid) = update_post pid (pd_text pd) (pd_group pd) (pd_image pd) d)"
  by (auto simp: post_edit_def login_required_def split: option.splits form.splits)

lemma add_comment_outcome:
  "snd (add_comment d req pid) = d \<or>
   (\<exists>u p t. current_user d req = Some u \<and> get_post d pid = Some p \<and> comment_form (req_POST req) = Valid t \<and>
      snd (add_comment d req pid) = insert_comment t (user_pk u) (post_pk p) d)"
  by (auto simp: add_comment_def login_required_def split: option.splits form.splits)

lemma profile_follow_outcome:
  "snd (profile_follow d req name) = d \<or>
   (\<exists>u a. current_user d req = Some u \<and> get_user_by_name d name = Some a \<and>
      user_pk u \<noteq> user_pk a \<and> \<not> follow_exists d (user_pk u) (user_pk a) \<and>
      snd (profile_follow d req name) = insert_follow (user_pk u) (user_pk a) d)"
  by (auto simp: profile_follow_def login_required_def Let_def split: option.splits)

lemma profile_unfollow_outcome:
  "snd (profile_unfollow d req name) = d \<or>
   (\<exists>u a. current_user d req = Some u \<and> get_user_by_name d name = Some a \<and>
      snd (profile_unfollow d req name) = delete_follows (user_pk u) (user_pk a) d)"
  by (auto simp: profile_unfollow_def login_required_def split: option.splits)

lemma follow_index_store: "snd (follow_index d req) = d"
  by (simp add: follow_index_def login_required_def split: option.splits)


lemma dispatch_wf:
  assumes wf: "wf_db d"
  shows "wf_db (snd (dispatch d req url))"
proof (cases url)
  case URL_post_create
  from post_create_outcome [of d req] show ?thesis
  proof
    assume "\<exists>u pd. current_user d req = Some u \<and> post_form d (req_POST req) (req_FILES req) [] = Valid pd \<and>
      snd (post_create d req) = snd (insert_post (pd_text pd) (user_pk u) (pd_group pd) (pd_image pd) d)"
    then show ?thesis
      using URL_post_create wf by (auto intro!: insert_post_wf dest: current_user_in post_form_group)
  qed (use URL_post_create wf in simp)
next
  case (URL_post_edit pid)
  from post_edit_outcome [of d req pid] show ?thesis
  proof
    assume "\<exists>u p pd. current_user d req = Some u \<and> get_post d pid = Some p \<and>
      post_form d (req_POST req) (req_FILES req) (post_image p) = Valid pd \<and>
      snd (post_edit d req pid) = update_post pid (pd_text pd) (pd_group pd) (pd_image pd) d"
    then show ?thesis
      using URL_post_edit wf by (auto intro!: update_post_wf dest: post_form_group)
  qed (use URL_post_edit wf in simp)
next
  case (URL_add_comment pid)
  from add_comment_outcome [of d req pid] show ?thesis
  proof
    assume "\<exists>u p t. current_user d req = Some u \<and> get_post d pid = Some p \<and> comment_form (req_POST req) = Valid t \<and>
      snd (add_comment d req pid) = insert_comment t (user_pk u) (post_pk p) d"
    then show ?thesis
      using URL_add_comment wf by (auto intro!: insert_comment_wf dest: current_user_in get_post_in)
  qed (use URL_add_comment wf in simp)
next
  case (URL_profile_follow name)
  from profile_follow_outcome [of d req name] show ?thesis
  proof
    assume "\<exists>u a. current_user d req = Some u \<and> get_user_by_name d name = Some a \<and>
      user_pk u \<noteq> user_pk a \<and> \<not> follow_exists d (user_pk u) (user_pk a) \<and>
      snd (profile_follow d req name) = insert_follow (user_pk u) (user_pk a) d"
    then show ?thesis
      using URL_profile_follow wf by (auto intro!: insert_follow_wf dest: current_user_in get_user_by_name_in)
  qed (use URL_profile_follow wf in simp)
next
  case (URL_profile_unfollow name)
  from profile_unfollow_outcome [of d req name] show ?thesis
    using URL_profile_unfollow wf by (auto intro: delete_follows_wf)
qed (use wf follow_index_store in simp_all)


lemma follows_ok_same: "db_follows d' = db_follows d \<Longrightarrow> follows_ok d' = follows_ok d"
  by (simp add: follows_ok_def)

lemma follows_ok_filter: "follows_ok d \<Longrightarrow> db_follows d' = filter P (db_follows d) \<Longrightarrow> follows_ok d'"
  by (auto simp: follows_ok_def distinct_map_filter)

lemma insert_follow_ok:
  assumes "follows_ok d" and "u \<noteq> a" and "\<not> follow_exists d u a"
  shows "follows_ok (insert_follow u a d)"
  using assms by (auto simp: follows_ok_def insert_follow_def follow_exists_def)

lemma dispatch_follows_ok:
  assumes ok: "follows_ok d"
  shows "follows_ok (snd (dispatch d req url))"
proof (cases url)
  case URL_post_create
  from post_create_outcome [of d req] show ?thesis
    using URL_post_create ok by (auto simp: follows_ok_def insert_post_def Let_def)
next
  case (URL_post_edit pid)
  from post_edit_outcome [of d req pid] show ?thesis
    using URL_post_edit ok by (auto simp: follows_ok_def update_post_def)
next
  case (URL_add_comment pid)
  from add_comment_outcome [of d req pid] show ?thesis
    using URL_add_comment ok by (auto simp: follows_ok_def insert_comment_def)
next
  case (URL_profile_follow name)
  from profile_follow_outcome [of d req name] show ?thesis
    using URL_profile_follow ok by (auto intro: insert_follow_ok)
next
  case (URL_profile_unfollow name)
  from profile_unfollow_outcome [of d req name] show ?thesis
    using URL_profile_unfollow ok by (auto simp: delete_follows_def intro: follows_ok_filter)
qed (use ok follow_index_store in simp_all)

lemma create_group_wf:
  assumes "wf_db d" and "g \<notin> group_ids d" and "s \<notin> group_slug ` set (db_groups d)"
  shows "wf_db (create_group g t s desc d)"
proof -
  let ?d' = "create_group g t s desc d"
  have grow: "group_ids d \<subseteq> group_ids ?d'" by (auto simp: group_ids_def create_group_def)
  have "wf_groups ?d'"
    using assms by (auto simp: wf_db_def wf_groups_def create_group_def group_ids_def)
  moreover have "wf_posts ?d'"
    using assms grow by (intro wf_posts_grow [of d ?d']) (auto simp: wf_db_def create_group_def user_ids_def)
  moreover have "wf_comments ?d'"
    using assms by (intro wf_comments_grow [of d ?d']) (auto simp: wf_db_def create_group_def id_sets)
  moreover have "wf_follows ?d'"
    using assms by (intro wf_follows_grow [of d ?d']) (auto simp: wf_db_def create_group_def user_ids_def)
  moreover have "wf_users ?d'"
    using assms by (simp add: wf_db_def wf_users_def create_group_def)
  ultimately show ?thesis by (simp add: wf_db_def)
qed

theorem reachable_wf: "reachable d \<Longrightarrow> wf_db d"
proof (induction rule: reachable.induct)
  case init
  show ?case by (simp add: wf_defs empty_db_def)
qed (auto intro: dispatch_wf signup_view_wf create_group_wf delete_post_wf delete_group_wf delete_user_wf)

theorem reachable_follows_ok: "reachable d \<Longrightarrow> follows_ok d"
proof (induction rule: reachable.induct)
  case init
  show ?case by (simp add: follows_ok_def empty_db_def)
next
  case (request d req url)
  then show ?case by (simp add: dispatch_follows_ok)
next
  case (del_user d u)
  then show ?case by (auto simp: delete_user_def Let_def intro: follows_ok_filter)
qed (auto simp: follows_ok_def create_group_def delete_post_def delete_group_def)

lemma valid_username_is_str: "valid_username s \<Longrightarrow> is_str s"
  by (auto simp: valid_username_def is_str_def username_char_def slug_char_def py_isdigit_def)

lemma dispatch_users: "db_users (snd (dispatch d req url)) = db_users d"
proof (cases url)
  case URL_post_create
  from post_create_outcome [of d req] show ?thesis
    using URL_post_create by (auto simp: insert_post_def Let_def)
next
  case (URL_post_edit pid)
  from post_edit_outcome [of d req pid] show ?thesis
    using URL_post_edit by (auto simp: update_post_def)
next
  case (URL_add_comment pid)
  from add_comment_outcome [of d req pid] show ?thesis
    using URL_add_comment by (auto simp: insert_comment_def)
next
  case (URL_profile_follow name)
  from profile_follow_outcome [of d req name] show ?thesis
    using URL_profile_follow by (auto simp: insert_follow_def)
next
  case (URL_profile_unfollow name)
  from profile_unfollow_outcome [of d req name] show ?thesis
    using URL_profile_unfollow by (auto simp: delete_follows_def)
qed (simp_all add: follow_index_store)

theorem reachable_usernames: "reachable d \<Longrightarrow> \<forall>x \<in> set (db_users d). valid_username (username x)"
proof (induction rule: reachable.induct)
  case (signup d req)
  then show ?case using signup_view_users [of d req] by blast
qed (auto simp: empty_db_def dispatch_users create_group_def delete_post_def
       delete_group_def delete_user_def Let_def)

lemma dispatch_texts_clean:
  assumes ok: "texts_clean d"
  shows "texts_clean (snd (dispatch d req url))"
proof (cases url)
  case URL_post_create
  from post_create_outcome [of d req] show ?thesis
    using URL_post_create ok
    by (auto simp: texts_clean_def insert_post_def Let_def) (metis post_form_cleaned)
next
  case (URL_post_edit pid)
  from post_edit_outcome [of d req pid] show ?thesis
    using URL_post_edit ok
    by (auto simp: texts_clean_def update_post_def) (metis post_form_cleaned)
next
  case (URL_add_comment pid)
  from add_comment_outcome [of d req pid] show ?thesis
    using URL_add_comment ok
    by (auto simp: texts_clean_def insert_comment_def) (metis comment_form_cleaned)
next
  case (URL_profile_follow name)
  from profile_follow_outcome [of d req name] show ?thesis
    using URL_profile_follow ok by (auto simp: texts_clean_def insert_follow_def)
next
  case (URL_profile_unfollow name)
  from profile_unfollow_outcome [of d req name] show ?thesis
    using URL_profile_unfollow ok by (auto simp: texts_clean_def delete_follows_def)
qed (simp_all add: ok follow_index_store)

text \<open>C9: in every reachable store the text of every post and of every comment is a value the forms' cleaning produces: non-empty, without surrounding whitespace, and without a NUL character.\<close>

theorem reachable_texts_clean: "reachable d \<Longrightarrow> texts_clean d"
proof (induction rule: reachable.induct)
  case init
  show ?case by (simp add: texts_clean_def empty_db_def)
next
  case (request d req url)
  from request.IH show ?case by (rule dispatch_texts_clean)
qed (auto simp: texts_clean_def create_group_def delete_post_def delete_group_def
       delete_user_def Let_def)

end
