(* ===== verification/Urlconf.thy ===== *)
theory Urlconf
  imports Routing
begin

text \<open>
  The URL patterns as Django holds them: \<open>urlpatterns\<close> of \<open>posts/urls.py\<close> (not
  among the sources; the spec's path table and \<open>posts/tests/test_urls.py\<close> give the
  routes and their order) is a list of routes, and the resolver tries them in order on
  the request path without its leading slash, the first match winning. Every route of
  the app is a sequence of segments each followed by a slash, a segment being a
  literal or a path converter; the route compiles to a regular expression, and since no
  converter's character class contains the slash that follows it, the greedy match
  below is the regular expression's match. \<^const>\<open>resolve\<close> of the Routing theory
  decides the same question on the path's \<open>/\<close>-separated segments; the theorem of
  this theory is that the two resolvers agree on every path.
\<close>

datatype route_seg = SLit string | SSlug | SStr | SInt

text \<open>The character classes of the converters: \<open>[-a-zA-Z0-9_]\<close>, \<open>[^/]\<close> and \<open>[0-9]\<close>.\<close>

fun seg_ok :: "route_seg \<Rightarrow> char \<Rightarrow> bool" where
  "seg_ok SSlug c = slug_char c"
| "seg_ok SStr c = (c \<noteq> CHR ''/'')"
| "seg_ok SInt c = py_isdigit c"
| "seg_ok (SLit w) c = False"

text \<open>\<open>RoutePattern.match\<close>: the captured strings of a full match of the route.\<close>

fun match_route :: "route_seg list \<Rightarrow> string \<Rightarrow> string list option" where
  "match_route [] s = (if s = [] then Some [] else None)"
| "match_route (SLit w # es) s =
     (if take (Suc (length w)) s = w @ ''/'' then match_route es (drop (Suc (length w)) s) else None)"
| "match_route (e # es) s =
     (let x = takeWhile (seg_ok e) s
      in if x \<noteq> [] \<and> take 1 (drop (length x) s) = ''/''
         then map_option (Cons x) (match_route es (drop (Suc (length x)) s))
         else None)"

text \<open>
  \<open>path(route, view, name=...)\<close> in the order of \<open>posts/urls.py\<close>; the view is named
  by the URL it serves, built from the captured values (an \<open>int\<close> converter's
  \<open>to_python\<close> is \<open>int()\<close>).
\<close>

definition urlpatterns :: "(route_seg list \<times> (string list \<Rightarrow> url)) list" where
  "urlpatterns =
     [([], \<lambda>_. URL_index),
      ([SLit ''group'', SSlug], \<lambda>xs. URL_group_list (xs ! 0)),
      ([SLit ''profile'', SStr], \<lambda>xs. URL_profile (xs ! 0)),
      ([SLit ''posts'', SInt], \<lambda>xs. URL_post_detail (dec_fold 0 (xs ! 0))),
      ([SLit ''create''], \<lambda>_. URL_post_create),
      ([SLit ''posts'', SInt, SLit ''edit''], \<lambda>xs. URL_post_edit (dec_fold 0 (xs ! 0))),
      ([SLit ''posts'', SInt, SLit ''comment''], \<lambda>xs. URL_add_comment (dec_fold 0 (xs ! 0))),
      ([SLit ''follow''], \<lambda>_. URL_follow_index),
      ([SLit ''profile'', SStr, SLit ''follow''], \<lambda>xs. URL_profile_follow (xs ! 0)),
      ([SLit ''profile'', SStr, SLit ''unfollow''], \<lambda>xs. URL_profile_unfollow (xs ! 0))]"

text \<open>\<open>URLResolver.resolve\<close>: the first route that matches.\<close>

fun resolve_in :: "(route_seg list \<times> (string list \<Rightarrow> url)) list \<Rightarrow> string \<Rightarrow> url option" where
  "resolve_in [] s = None"
| "resolve_in ((r, v) # ps) s = (case match_route r s of Some xs \<Rightarrow> Some (v xs) | None \<Rightarrow> resolve_in ps s)"

definition resolve_routes :: "string \<Rightarrow> url option" where
  "resolve_routes path =
     (case path of
        c # rest \<Rightarrow> if c = CHR ''/'' then resolve_in urlpatterns rest else None
      | [] \<Rightarrow> None)"

text \<open>Serving a request path: the view of the matched route, or the 404 page.\<close>

definition handle :: "db \<Rightarrow> request \<Rightarrow> string \<Rightarrow> response \<times> db" where
  "handle d req path = (case resolve_routes path of None \<Rightarrow> (NotFound, d) | Some u \<Rightarrow> dispatch d req u)"

text \<open>The same matching on the segments of the path, the bridge of the proof.\<close>

definition conv_ok :: "route_seg \<Rightarrow> string \<Rightarrow> bool" where
  "conv_ok e x \<longleftrightarrow> x \<noteq> [] \<and> (\<forall>c \<in> set x. seg_ok e c)"

fun seg_match :: "route_seg list \<Rightarrow> string list \<Rightarrow> string list option" where
  "seg_match [] ss = (if ss = [[]] then Some [] else None)"
| "seg_match (SLit w # es) ss =
     (case ss of x # xs \<Rightarrow> if x = w \<and> xs \<noteq> [] then seg_match es xs else None | [] \<Rightarrow> None)"
| "seg_match (e # es) ss =
     (case ss of
        x # xs \<Rightarrow> if conv_ok e x \<and> xs \<noteq> [] then map_option (Cons x) (seg_match es xs) else None
      | [] \<Rightarrow> None)"

fun resolve_seg_in :: "(route_seg list \<times> (string list \<Rightarrow> url)) list \<Rightarrow> string list \<Rightarrow> url option" where
  "resolve_seg_in [] ss = None"
| "resolve_seg_in ((r, v) # ps) ss = (case seg_match r ss of Some xs \<Rightarrow> Some (v xs) | None \<Rightarrow> resolve_seg_in ps ss)"

section \<open>Splitting at the first slash\<close>

lemma split_on_cases:
  "split_on c s = (if c \<in> set s then takeWhile (\<lambda>x. x \<noteq> c) s # split_on c (tl (dropWhile (\<lambda>x. x \<noteq> c) s)) else [s])"
  by (induction s) (auto simp: Let_def)

lemma split_on_not_Nil: "split_on c s \<noteq> []"
  by (subst split_on_cases) simp

lemma split_on_empty: "(split_on c s = [[]]) = (s = [])"
  using split_on_not_Nil [of c] by (subst split_on_cases) auto

lemma take_literal:
  assumes "c \<notin> set w"
  shows "(take (Suc (length w)) s = w @ [c]) = (c \<in> set s \<and> takeWhile (\<lambda>x. x \<noteq> c) s = w)"
  using assms
proof (induction w arbitrary: s)
  case Nil
  then show ?case by (cases s) auto
next
  case (Cons a w)
  then show ?case by (cases s) auto
qed

lemma drop_literal:
  assumes "c \<notin> set w" and "take (Suc (length w)) s = w @ [c]"
  shows "drop (Suc (length w)) s = tl (dropWhile (\<lambda>x. x \<noteq> c) s)"
  using assms
proof (induction w arbitrary: s)
  case Nil
  then show ?case by (cases s) auto
next
  case (Cons a w)
  then show ?case by (cases s) auto
qed

lemma take_converter:
  assumes "\<not> P c"
  shows "(take 1 (drop (length (takeWhile P s)) s) = [c]) =
         (c \<in> set s \<and> (\<forall>ch \<in> set (takeWhile (\<lambda>x. x \<noteq> c) s). P ch))"
  using assms by (induction s) auto

lemma converter_segment:
  assumes "\<not> P c" and "take 1 (drop (length (takeWhile P s)) s) = [c]"
  shows "takeWhile P s = takeWhile (\<lambda>x. x \<noteq> c) s \<and>
         drop (Suc (length (takeWhile P s))) s = tl (dropWhile (\<lambda>x. x \<noteq> c) s)"
  using assms by (induction s) (auto split: if_splits)

section \<open>The two matchers agree\<close>

abbreviation segment :: "string \<Rightarrow> string" where
  "segment s \<equiv> takeWhile (\<lambda>x. x \<noteq> CHR ''/'') s"

abbreviation after_segment :: "string \<Rightarrow> string" where
  "after_segment s \<equiv> tl (dropWhile (\<lambda>x. x \<noteq> CHR ''/'') s)"

lemma match_literal_step:
  "CHR ''/'' \<notin> set w \<Longrightarrow>
   match_route (SLit w # es) s =
     (if CHR ''/'' \<in> set s \<and> segment s = w then match_route es (after_segment s) else None)"
  using take_literal [of "CHR ''/''" w s] drop_literal [of "CHR ''/''" w s] by auto

lemma match_converter_step:
  assumes "\<forall>v. e \<noteq> SLit v"
  shows "match_route (e # es) s =
     (if CHR ''/'' \<in> set s \<and> conv_ok e (segment s)
      then map_option (Cons (segment s)) (match_route es (after_segment s)) else None)"
proof -
  have ns: "\<not> seg_ok e CHR ''/''" using assms by (cases e) (simp_all add: slug_char_def py_isdigit_def)
  have eq: "match_route (e # es) s =
     (let x = takeWhile (seg_ok e) s
      in if x \<noteq> [] \<and> take 1 (drop (length x) s) = ''/''
         then map_option (Cons x) (match_route es (drop (Suc (length x)) s)) else None)"
    using assms by (cases e) simp_all
  show ?thesis
  proof (cases "take 1 (drop (length (takeWhile (seg_ok e) s)) s) = [CHR ''/'']")
    case True
    from converter_segment [of "seg_ok e" "CHR ''/''" s, OF ns True]
    have tw: "takeWhile (seg_ok e) s = segment s"
      and dr0: "drop (Suc (length (takeWhile (seg_ok e) s))) s = after_segment s" by blast+
    from dr0 tw have dr: "drop (Suc (length (segment s))) s = after_segment s" by simp
    show ?thesis using True tw dr take_converter [of "seg_ok e" "CHR ''/''" s, OF ns]
      by (simp add: eq Let_def conv_ok_def)
  next
    case False
    with take_converter [of "seg_ok e" "CHR ''/''" s, OF ns] show ?thesis by (auto simp: eq Let_def conv_ok_def)
  qed
qed

lemma seg_literal_step:
  "seg_match (SLit w # es) (split_on CHR ''/'' s) =
     (if CHR ''/'' \<in> set s \<and> segment s = w then seg_match es (split_on CHR ''/'' (after_segment s)) else None)"
  using split_on_not_Nil by (subst split_on_cases) auto

lemma seg_converter_step:
  assumes "\<forall>v. e \<noteq> SLit v"
  shows "seg_match (e # es) (split_on CHR ''/'' s) =
     (if CHR ''/'' \<in> set s \<and> conv_ok e (segment s)
      then map_option (Cons (segment s)) (seg_match es (split_on CHR ''/'' (after_segment s))) else None)"
  using assms split_on_not_Nil by (cases e; subst split_on_cases) (auto simp: conv_ok_def)

lemma match_route_segments:
  "\<forall>w. SLit w \<in> set es \<longrightarrow> CHR ''/'' \<notin> set w \<Longrightarrow> match_route es s = seg_match es (split_on CHR ''/'' s)"
proof (induction es arbitrary: s)
  case Nil
  then show ?case by (simp add: split_on_empty)
next
  case (Cons e es)
  show ?case
  proof (cases "\<exists>w. e = SLit w")
    case True
    then obtain w where e: "e = SLit w" by blast
    with Cons.prems have "CHR ''/'' \<notin> set w" by simp
    with e Cons show ?thesis
      by (simp del: match_route.simps seg_match.simps add: match_literal_step seg_literal_step)
  next
    case False
    with Cons show ?thesis
      by (simp del: match_route.simps seg_match.simps add: match_converter_step seg_converter_step)
  qed
qed

lemma resolve_in_segments:
  "\<forall>(r, v) \<in> set ps. \<forall>w. SLit w \<in> set r \<longrightarrow> CHR ''/'' \<notin> set w \<Longrightarrow>
   resolve_in ps s = resolve_seg_in ps (split_on CHR ''/'' s)"
proof (induction ps)
  case Nil
  then show ?case by simp
next
  case (Cons rv ps)
  then show ?case by (cases rv) (auto simp: match_route_segments split: option.split)
qed

lemma urlpatterns_literals: "\<forall>(r, v) \<in> set urlpatterns. \<forall>w. SLit w \<in> set r \<longrightarrow> CHR ''/'' \<notin> set w"
  by (simp add: urlpatterns_def)

lemma conv_ok_converters [simp]:
  "conv_ok SSlug x = is_slug x" "conv_ok SStr x = is_str x" "conv_ok SInt x = is_int x"
  by (auto simp: conv_ok_def is_slug_def is_str_def is_int_def)

lemma resolve_seg_urlpatterns: "resolve_seg_in urlpatterns ss = resolve_segments ss"
proof -
  consider "ss = []" | a where "ss = [a]" | a b where "ss = [a, b]" | a b c where "ss = [a, b, c]"
    | a b c e where "ss = [a, b, c, e]" | a b c e f r where "ss = a # b # c # e # f # r"
    by (metis list.exhaust)
  then show ?thesis by cases (simp_all add: urlpatterns_def resolve_segments_def)
qed

text \<open>
  Django's resolution of a request path, trying the routes of \<open>urlpatterns\<close> in order on
  the raw path, gives the same URL (or the same 404) as the resolver on the path's
  segments, for every path; the order of the routes does not matter, as no two of them
  match the same path.
\<close>

lemma resolve_routes_segments: "resolve_routes p = resolve p"
  by (simp add: resolve_routes_def resolve_def resolve_in_segments [OF urlpatterns_literals]
      resolve_seg_urlpatterns split: list.split)

lemma handle_resolved: "resolve_routes p = Some u \<Longrightarrow> handle d req p = dispatch d req u"
  by (simp add: handle_def)

section \<open>Properties of the URL configuration\<close>

text \<open>C12: the login redirect a view issues preserves the whole request: the \<open>next\<close> parameter the login view reads from its location is the request's full path, and once the client follows it the server resolves its path to the URL that was asked for and hands the view the same query string (when that query string is written in the characters a client sends unescaped).\<close>

theorem login_next_roundtrip:
  assumes "valid_url u" and "fst (dispatch d req u) = RedirectLogin v q"
    and "list_all query_char (req_query req)"
  shows "\<exists>n. location_next (login_location v q) = Some n \<and>
             resolve_routes (target_path n) = Some u \<and> target_query n = req_query req"
proof -
  have "v = u" and "q = req_query req" using dispatch_login_redirect [OF assms(2)] by simp_all
  then show ?thesis
    using assms(1,3) by (simp add: location_next_login full_path_target iri_to_uri_query list_all_iff
      resolve_routes_segments resolve_url_path)
qed

text \<open>C11: an anonymous request to a path that the URL patterns send to a view under \<open>@login_required\<close> is answered with the login redirect for that URL and the request's query string and changes nothing.\<close>

theorem anonymous_login_redirect:
  assumes "current_user d req = None" and "resolve_routes p = Some u" and "login_url u"
  shows "handle d req p = (RedirectLogin u (req_query req), d)"
  using assms
  by (cases u) (simp_all add: handle_resolved post_create_def post_edit_def add_comment_def
      follow_index_def profile_follow_def profile_unfollow_def login_required_anonymous)

end
