(* ===== verification/Interleaving.thy ===== *)
theory Interleaving
  imports System "HOL-Library.Multiset"
begin

text \<open>
  Requests are handled one at a time and in any order (no locking in
  \<open>posts/views.py\<close>).  This theory isolates the store change of the follow and
  unfollow views (\<open>profile_follow\<close>, \<open>profile_unfollow\<close>): the pair of users a
  request names (\<open>follow_target\<close>), the guarded insert and the delete
  (\<open>follow_step\<close>), and proves that two such requests commute up to
  the order of the follow rows, read through the abstraction
  \<open>follows_unordered\<close> (the store with its follow rows as a multiset).  It also
  proves that the follow table refines an abstract follow graph, a set of edges
  (\<open>follow_rel\<close>) with insertion and removal (\<open>follow_abs\<close>).
\<close>

definition follow_target :: "db \<Rightarrow> request \<Rightarrow> string \<Rightarrow> (user_id \<times> user_id) option" where
  "follow_target d req n =
     (case (current_user d req, get_user_by_name d n) of
        (Some u, Some a) \<Rightarrow> Some (user_pk u, user_pk a)
      | _ \<Rightarrow> None)"

definition follows_unordered :: "db \<Rightarrow> db \<times> follow multiset" where
  "follows_unordered d = (d\<lparr>db_follows := []\<rparr>, mset (db_follows d))"

definition follow_if_new :: "user_id \<Rightarrow> user_id \<Rightarrow> db \<Rightarrow> db" where
  "follow_if_new u a d = (if u \<noteq> a \<and> \<not> follow_exists d u a then insert_follow u a d else d)"

definition follow_step :: "bool \<Rightarrow> user_id \<Rightarrow> user_id \<Rightarrow> db \<Rightarrow> db" where
  "follow_step b u a = (if b then follow_if_new u a else delete_follows u a)"

definition follow_url :: "bool \<Rightarrow> string \<Rightarrow> url" where
  "follow_url b n = (if b then URL_profile_follow n else URL_profile_unfollow n)"

text \<open>
  The abstract follow graph: the set of (follower, author) edges the rows of the
  \<open>Follow\<close> table name, and the operations the two views promise on it.
\<close>

definition follow_rel :: "db \<Rightarrow> (user_id \<times> user_id) set" where
  "follow_rel d = set (concat (map (\<lambda>f. case follow_author f of None \<Rightarrow> [] | Some a \<Rightarrow> [(follow_user f, a)])
                                 (db_follows d)))"

definition follow_abs :: "bool \<Rightarrow> user_id \<times> user_id \<Rightarrow> (user_id \<times> user_id) set \<Rightarrow> (user_id \<times> user_id) set" where
  "follow_abs b e R = (if b then (if fst e \<noteq> snd e then insert e R else R) else R - {e})"

text \<open>
  \<open>profile_follow\<close> reads and writes in two queries: the \<open>exists()\<close> check with
  the guard (\<open>follow_check\<close>, which names the row to create, if any) and
  \<open>Follow.objects.create\<close> (\<open>follow_commit\<close>). Django runs them in autocommit
  mode, each its own transaction, so another request may run between them.
\<close>

definition follow_check :: "db \<Rightarrow> request \<Rightarrow> string \<Rightarrow> (user_id \<times> user_id) option" where
  "follow_check d req n =
     (case follow_target d req n of
        None \<Rightarrow> None
      | Some (u, a) \<Rightarrow> if u \<noteq> a \<and> \<not> follow_exists d u a then Some (u, a) else None)"

definition follow_commit :: "(user_id \<times> user_id) option \<Rightarrow> db \<Rightarrow> db" where
  "follow_commit c d = (case c of None \<Rightarrow> d | Some (u, a) \<Rightarrow> insert_follow u a d)"

lemma follow_request_store:
  "snd (profile_follow d req n) =
     (case follow_target d req n of None \<Rightarrow> d | Some (u, a) \<Rightarrow> follow_if_new u a d)"
  by (simp add: profile_follow_def login_required_def follow_if_new_def follow_target_def Let_def
      split: option.split)

lemma follow_if_new_users: "db_users (follow_if_new u a d) = db_users d"
  by (simp add: follow_if_new_def insert_follow_def)

lemma follow_target_store [simp]:
  "follow_target (follow_if_new u a d) req n = follow_target d req n"
  unfolding follow_target_def
  by (simp only: current_user_users [OF follow_if_new_users] get_user_by_name_users [OF follow_if_new_users])

lemma follow_exists_insert:
  "follow_exists (insert_follow u a d) x y = (follow_exists d x y \<or> (x = u \<and> y = a))"
  by (auto simp: follow_exists_def insert_follow_def)

lemma follow_if_new_exists:
  "follow_exists (follow_if_new u a d) x y = (follow_exists d x y \<or> (x = u \<and> y = a \<and> u \<noteq> a))"
  by (auto simp: follow_if_new_def follow_exists_insert)

lemma follow_if_new_follows:
  "db_follows (follow_if_new u a d) =
     db_follows d @ (if u \<noteq> a \<and> \<not> follow_exists d u a
                     then [\<lparr>follow_user = u, follow_author = Some a\<rparr>] else [])"
  by (simp add: follow_if_new_def insert_follow_def)

lemma follow_if_new_rest:
  "(follow_if_new u a d)\<lparr>db_follows := fs\<rparr> = d\<lparr>db_follows := fs\<rparr>"
  by (simp add: follow_if_new_def insert_follow_def)

lemma follow_if_new_commute:
  "follows_unordered (follow_if_new u2 a2 (follow_if_new u1 a1 d)) =
     follows_unordered (follow_if_new u1 a1 (follow_if_new u2 a2 d))"
proof -
  have "(follow_if_new u2 a2 (follow_if_new u1 a1 d))\<lparr>db_follows := []\<rparr> =
     (follow_if_new u1 a1 (follow_if_new u2 a2 d))\<lparr>db_follows := []\<rparr>"
    by (simp only: follow_if_new_rest)
  moreover have "mset (db_follows (follow_if_new u2 a2 (follow_if_new u1 a1 d))) =
     mset (db_follows (follow_if_new u1 a1 (follow_if_new u2 a2 d)))"
    by (cases "u1 = u2 \<and> a1 = a2") (simp_all add: follow_if_new_follows follow_if_new_exists)
  ultimately show ?thesis by (simp only: follows_unordered_def)
qed

lemma delete_follows_absent:
  "\<not> follow_exists d u a \<Longrightarrow> delete_follows u a d = d"
  by (simp add: delete_follows_def follow_exists_def filter_id_conv)

lemma unfollow_request_store:
  "snd (profile_unfollow d req n) =
     (case follow_target d req n of None \<Rightarrow> d | Some (u, a) \<Rightarrow> delete_follows u a d)"
  by (simp add: profile_unfollow_def login_required_def follow_target_def delete_follows_absent
      split: option.split)

lemma follow_url_store:
  "snd (dispatch d req (follow_url b n)) =
     (case follow_target d req n of None \<Rightarrow> d | Some (u, a) \<Rightarrow> follow_step b u a d)"
  by (cases b) (simp_all only: follow_url_def if_True if_False dispatch.simps follow_request_store
      unfollow_request_store follow_step_def)

lemma follow_step_users: "db_users (follow_step b u a d) = db_users d"
  by (simp add: follow_step_def follow_if_new_users delete_follows_def)

lemma follow_target_step [simp]:
  "follow_target (follow_step b u a d) req n = follow_target d req n"
  unfolding follow_target_def
  by (simp only: current_user_users [OF follow_step_users] get_user_by_name_users [OF follow_step_users])

lemma follow_exists_delete:
  "follow_exists (delete_follows u a d) x y = (follow_exists d x y \<and> \<not> (x = u \<and> y = a))"
  by (auto simp: follow_exists_def delete_follows_def)

lemma delete_follows_follows:
  "db_follows (delete_follows u a d) =
     filter (\<lambda>f. \<not> (follow_user f = u \<and> follow_author f = Some a)) (db_follows d)"
  by (simp add: delete_follows_def)

lemma follow_step_rest:
  "(follow_step b u a d)\<lparr>db_follows := fs\<rparr> = d\<lparr>db_follows := fs\<rparr>"
  by (simp add: follow_step_def follow_if_new_rest delete_follows_def)

lemma follow_step_commute:
  assumes "b1 = b2 \<or> (u1, a1) \<noteq> (u2, a2)"
  shows "follows_unordered (follow_step b2 u2 a2 (follow_step b1 u1 a1 d)) =
     follows_unordered (follow_step b1 u1 a1 (follow_step b2 u2 a2 d))"
proof -
  have "(follow_step b2 u2 a2 (follow_step b1 u1 a1 d))\<lparr>db_follows := []\<rparr> =
     (follow_step b1 u1 a1 (follow_step b2 u2 a2 d))\<lparr>db_follows := []\<rparr>"
    by (simp only: follow_step_rest)
  moreover have "mset (db_follows (follow_step b2 u2 a2 (follow_step b1 u1 a1 d))) =
     mset (db_follows (follow_step b1 u1 a1 (follow_step b2 u2 a2 d)))"
    using assms
    by (cases b1; cases b2; cases "u1 = u2 \<and> a1 = a2")
       (auto simp: follow_step_def follow_if_new_follows follow_if_new_exists follow_exists_delete
         delete_follows_follows conj_commute)
  ultimately show ?thesis by (simp only: follows_unordered_def)
qed

text \<open>C35: a follow or unfollow request and another follow or unfollow request give the same store in either order, up to the order of the follow rows, unless one follows and the other unfollows the same pair of users; the application needs no ordering between such concurrent requests.\<close>

theorem follow_requests_commute:
  assumes "b1 = b2 \<or> follow_target d r1 n1 \<noteq> follow_target d r2 n2"
  shows "follows_unordered (snd (dispatch (snd (dispatch d r1 (follow_url b1 n1))) r2 (follow_url b2 n2))) =
   follows_unordered (snd (dispatch (snd (dispatch d r2 (follow_url b2 n2))) r1 (follow_url b1 n1)))"
proof (cases "follow_target d r1 n1"; cases "follow_target d r2 n2")
  fix t1 t2 assume t: "follow_target d r1 n1 = Some t1" "follow_target d r2 n2 = Some t2"
  then have "b1 = b2 \<or> (fst t1, snd t1) \<noteq> (fst t2, snd t2)" using assms by simp
  then show ?thesis
    unfolding follow_url_store
    by (simp only: t follow_target_step option.case prod.case_eq_if follow_step_commute)
qed (simp_all only: follow_url_store follow_target_step option.case prod.case_eq_if)

lemma follow_rel_member: "(u, a) \<in> follow_rel d \<longleftrightarrow> follow_exists d u a"
  by (force simp: follow_rel_def follow_exists_def split: option.splits)

lemma follow_rel_step: "follow_rel (follow_step b u a d) = follow_abs b (u, a) (follow_rel d)"
proof (cases b)
  case True
  have "follow_exists d u a \<Longrightarrow> insert (u, a) (follow_rel d) = follow_rel d"
    using follow_rel_member by blast
  with True show ?thesis
    by (auto simp: follow_step_def follow_abs_def follow_if_new_def insert_follow_def follow_rel_def)
next
  case False
  then show ?thesis
    by (force simp: follow_step_def follow_abs_def delete_follows_follows follow_rel_def split: option.splits)
qed

text \<open>C38: the follow table refines the abstract follow graph: a follow request that names a user and an author adds the edge unless they are the same user, an unfollow request removes it, and a request that names no such pair leaves the graph as it is.\<close>

theorem follow_requests_refine:
  "follow_rel (snd (dispatch d req (follow_url b n))) =
     (case follow_target d req n of None \<Rightarrow> follow_rel d | Some e \<Rightarrow> follow_abs b e (follow_rel d))"
  by (simp add: follow_url_store follow_rel_step split: option.split prod.split)

section \<open>The follow view's two queries\<close>

text \<open>Run back to back, the two phases are the view.\<close>

lemma follow_request_phases:
  "snd (dispatch d req (URL_profile_follow n)) = follow_commit (follow_check d req n) d"
  unfolding dispatch.simps follow_request_store
  by (simp add: follow_check_def follow_commit_def follow_if_new_def split: option.split prod.split)

text \<open>
  Two follow requests for the same pair whose checks both run before either create
  (a double submit, or two tabs) store the row twice: the follow graph loses the
  no-duplicate half of \<^const>\<open>follows_ok\<close>, which only the sequential
  handling of requests keeps (\<open>reachable_follows_ok\<close>).  \<open>Follow\<close> declares no
  unique constraint that would reject the second row.
\<close>

lemma follow_race_duplicate:
  assumes "follow_check d r1 n1 = Some e" and "follow_check d r2 n2 = Some e"
  shows "\<not> follows_ok (follow_commit (follow_check d r2 n2) (follow_commit (follow_check d r1 n1) d))"
  using assms by (cases e) (simp add: follow_commit_def insert_follow_def follows_ok_def)

end
