(* ===== verification/Responses.thy ===== *)
theory Responses
  imports Urlconf
begin

text \<open>
  What a client sees of a response: its status code and, for a rendered page, the
  template.  The tests of \<open>posts/tests/test_urls.py\<close> check both for every URL of the
  app, for the guest and for a signed-in user; this theory states their tables
  (\<open>url_template\<close>, \<open>expected_status\<close>) and proves that the URL patterns and the views
  meet them for every store, every user and every path, not only for the tests'
  fixture.
\<close>

text \<open>
  \<open>render\<close> answers 200, \<open>redirect\<close> and \<open>redirect_to_login\<close> answer 302 (an
  \<open>HttpResponseRedirect\<close>), and \<open>Http404\<close> answers 404.
\<close>

fun status_code :: "response \<Rightarrow> nat" where
  "status_code (Render _ _) = 200"
| "status_code (Redirect _) = 302"
| "status_code (RedirectLogin _ _) = 302"
| "status_code NotFound = 404"

text \<open>
  The template a response renders: the one a view passes to \<open>render\<close>, and for the
  404 page the project's \<open>handler404\<close> (\<open>core.views.page_not_found\<close>, not among the
  sources), which renders \<open>core/404.html\<close> as \<open>core/tests.py\<close> checks; redirects
  render nothing.
\<close>

fun response_template :: "response \<Rightarrow> string option" where
  "response_template (Render t _) = Some t"
| "response_template NotFound = Some ''core/404.html''"
| "response_template _ = None"

text \<open>The template each page is rendered with (\<open>urls_list_authorized_user\<close>, and \<open>posts/follow.html\<close> of \<open>follow_index\<close>); the other URLs render nothing.\<close>

fun url_template :: "url \<Rightarrow> string option" where
  "url_template URL_index = Some ''posts/index.html''"
| "url_template (URL_group_list _) = Some ''posts/group_list.html''"
| "url_template (URL_profile _) = Some ''posts/profile.html''"
| "url_template (URL_post_detail _) = Some ''posts/post_detail.html''"
| "url_template URL_post_create = Some ''posts/create_post.html''"
| "url_template (URL_post_edit _) = Some ''posts/create_post.html''"
| "url_template URL_follow_index = Some ''posts/follow.html''"
| "url_template _ = None"

text \<open>The object a URL names exists (the \<open>get_object_or_404\<close> of its view succeeds).\<close>

fun url_found :: "db \<Rightarrow> url \<Rightarrow> bool" where
  "url_found d (URL_group_list s) = (get_group_by_slug d s \<noteq> None)"
| "url_found d (URL_profile n) = (get_user_by_name d n \<noteq> None)"
| "url_found d (URL_post_detail pid) = (get_post d pid \<noteq> None)"
| "url_found d (URL_post_edit pid) = (get_post d pid \<noteq> None)"
| "url_found d (URL_add_comment pid) = (get_post d pid \<noteq> None)"
| "url_found d (URL_profile_follow n) = (get_user_by_name d n \<noteq> None)"
| "url_found d (URL_profile_unfollow n) = (get_user_by_name d n \<noteq> None)"
| "url_found d _ = True"

text \<open>
  The status codes of \<open>test_url_exists_for_guest\<close> and \<open>test_url_exists_for_authorized\<close>
  for a request without a body: the guest is sent to the login page from every
  protected URL and sees the public pages that exist; a signed-in user sees every page
  that exists, is sent back to the post when editing another user's post, and is
  redirected after the comment, follow and unfollow actions.
\<close>

fun expected_status :: "db \<Rightarrow> user option \<Rightarrow> url \<Rightarrow> nat" where
  "expected_status d None v = (if login_url v then 302 else if url_found d v then 200 else 404)"
| "expected_status d (Some u) v =
     (if \<not> url_found d v then 404
      else case v of
        URL_post_edit pid \<Rightarrow>
          (case get_post d pid of Some p \<Rightarrow> if post_author p = user_pk u then 200 else 302 | None \<Rightarrow> 404)
      | URL_add_comment _ \<Rightarrow> 302
      | URL_profile_follow _ \<Rightarrow> 302
      | URL_profile_unfollow _ \<Rightarrow> 302
      | _ \<Rightarrow> 200)"

lemma dispatch_status:
  assumes "req_POST req = []" and "req_FILES req = []"
  shows "status_code (fst (dispatch d req v)) = expected_status d (current_user d req) v"
  using assms
  by (cases v; cases "current_user d req")
     (auto simp: index_def group_posts_def profile_def post_detail_def post_create_def
        create_page_with_form_def post_edit_def add_comment_def follow_index_def profile_follow_def
        profile_unfollow_def login_required_def post_form_def comment_form_def Let_def
        split: option.split)

lemma dispatch_template:
  "response_template (fst (dispatch d req v)) = Some t \<Longrightarrow>
     (url_found d v \<and> url_template v = Some t) \<or> (\<not> url_found d v \<and> t = ''core/404.html'')"
  by (cases v)
     (auto simp: index_def group_posts_def profile_def post_detail_def post_create_def
        create_page_with_form_def post_edit_def add_comment_def follow_index_def profile_follow_def
        profile_unfollow_def login_required_def Let_def
        split: option.splits if_splits form.splits prod.splits)



end
