(* ===== verification/Spec2Isabelle.thy ===== *)
theory Spec2Isabelle
  imports System Urlconf Interleaving Responses
begin

text \<open>
  \<^bold>\<open>Yatube: a verification development of the blog's data model and views.\<close>

  \<^bold>\<open>The program.\<close> Yatube is a Django application. Its own logic is in
  \<open>src/yatube/posts\<close>: \<open>models.py\<close> declares the tables (\<open>Group\<close>, \<open>Post\<close>,
  \<open>Comment\<close>, \<open>Follow\<close>, over the framework's \<open>User\<close>), \<open>utils.py\<close> paginates a
  feed (\<open>show_post_count_in_page\<close>, a call of Django's \<open>Paginator.get_page\<close>), and
  \<open>views.py\<close> holds the request handlers: four feeds (\<open>index\<close>, \<open>group_posts\<close>,
  \<open>profile\<close>, \<open>follow_index\<close>), the post page (\<open>post_detail\<close>), authoring
  (\<open>post_create\<close>, \<open>create_page_with_form\<close>, \<open>post_edit\<close>, \<open>add_comment\<close>) and
  the follow graph (\<open>profile_follow\<close>, \<open>profile_unfollow\<close>). A handler reads the
  session's user and the request, queries or writes the store through the ORM, and
  answers with a rendered page, a redirect, the login redirect of
  \<open>@login_required\<close> or a 404. The forms (\<open>posts/forms.py\<close>) and the URL patterns
  are not among the sources; they are modelled from the spec and from the model
  columns they derive from.

  \<^bold>\<open>The theories.\<close>
  \<^item> \<open>Prelude\<close>: identifier types, theorem collections, list lemmas shared by every
    table (lookup by a unique key, appending a row, newest-first order).
  \<^item> \<open>Python\<close>: \<open>str.strip\<close>, \<open>int(str)\<close> (sign, digits, PEP 515 underscores)
    and \<open>QueryDict.get\<close>, with the round trip \<open>int(str(n)) = n\<close>.
  \<^item> \<open>Http\<close>: the request record (user, method, \<open>POST\<close>, \<open>FILES\<close>, the raw query string, \<open>GET\<close>).
  \<^item> \<open>Models\<close>: one record per model, the store \<^typ>\<open>db\<close> (one list of rows per
    table, the next post key, the clock that \<open>auto_now_add\<close> reads), the
    \<open>__str__\<close> methods, \<open>Meta.ordering\<close> (\<^const>\<open>posts_ordered\<close>,
    \<^const>\<open>comments_ordered\<close>), the ORM writes of the views
    (\<^const>\<open>insert_post\<close>, \<^const>\<open>update_post\<close>, \<^const>\<open>insert_comment\<close>,
    \<^const>\<open>insert_follow\<close>, \<^const>\<open>delete_follows\<close>) and the deletions fixed by
    the \<open>on_delete\<close> arguments (\<^const>\<open>delete_post\<close>, \<^const>\<open>delete_group\<close>,
    \<^const>\<open>delete_user\<close>). The invariant \<^const>\<open>wf_db\<close> (distinct keys and
    unique names, referential integrity, timestamps increasing along each table) is
    kept by every write; the deletion rules are stated as theorems that give each
    table's contents after the delete. \<^const>\<open>follow_str\<close> is \<open>Follow.__str__\<close>,
    defined on every follow row of a well-formed store.
  \<^item> \<open>Paginator\<close>: \<open>num_pages\<close>, \<open>validate_number\<close>, \<open>page\<close> and
    \<open>get_page\<close> of Django's paginator (orphans 0, empty first page allowed) and
    \<^const>\<open>show_post_count_in_page\<close> with \<open>POST_COUNT = 10\<close>. Theorems: the pages
    of a feed concatenate to the feed, page numbers and sizes are bounded, every page
    but the last is full, and how a missing, malformed or out-of-range number is
    answered. A reader who follows the template's next link
    (\<^const>\<open>next_page_number\<close>) click by click is \<^const>\<open>follow_next\<close>, a
    \<open>partial_function (option)\<close>: it returns on every request, ends on the last page
    (by induction on the pages left), and the pages it collects are the rest of the feed
    (by the partial-correctness induction of the definition).
  \<^item> \<open>Forms\<close>: \<open>PostForm\<close> and \<open>CommentForm\<close> as Django's model forms clean them
    (stripped required text without NUL, optional existing group, optional image);
    a valid form's text is a \<^const>\<open>cleaned_text\<close>.
  \<^item> \<open>Views\<close>: the URL datatype, the response datatype, \<open>request.user\<close>
    (\<^const>\<open>current_user\<close>), \<open>@login_required\<close>, one definition per handler of
    \<open>views.py\<close> with the source's guards and early returns in the source's order (the
    queries a handler names, such as \<open>is_following\<close> and \<open>post_count\<close>, are
    definitions of their own), and
    \<^const>\<open>dispatch\<close> from URL to handler. Theorems give each writing handler's
    behaviour on every branch: anonymous caller, missing object, non-author,
    invalid form, valid form.
  \<^item> \<open>Routing\<close>: the paths of \<open>posts/urls.py\<close> (\<^const>\<open>url_path\<close>, and
    \<^const>\<open>reverse_url\<close> for \<open>reverse()\<close>), a resolver on the path's segments
    (\<^const>\<open>resolve\<close>), \<open>urllib\<close>'s \<open>quote\<close>, \<open>unquote\<close> and \<open>parse_qsl\<close>,
    and the login redirect's location (\<^const>\<open>login_location\<close>: \<open>/auth/login/\<close>
    with \<open>next\<close> set to \<open>request.get_full_path()\<close>, the escaped path and the
    query string of the request (\<^const>\<open>get_full_path\<close>), urlencoded again), and
    how a server splits the client's next request target into the decoded path and
    the raw query string (\<^const>\<open>target_path\<close>, \<^const>\<open>target_query\<close>). Lemmas: printed URLs
    resolve back, every resolved path is printable, percent-encoding round-trips, and
    the views redirect only to printable URLs.
  \<^item> \<open>Urlconf\<close>: \<open>urlpatterns\<close> as Django holds it, an ordered list of routes
    matched against the raw path, the first match winning
    (\<^const>\<open>resolve_routes\<close>), proved equal to \<^const>\<open>resolve\<close> on every
    path; serving a request path (\<^const>\<open>handle\<close>: the matched view, or the 404
    page). Theorems: an anonymous request to a protected path gets the login
    redirect, and its \<open>next\<close> leads back to the URL asked for with the request's
    own query string.
  \<^item> \<open>Accounts\<close>: the sign-up page of the \<open>users\<close> app, whose code is not under
    \<open>src\<close>, as its tests fix it: \<open>CreationForm\<close>'s user name field (stripped,
    required, \<^const>\<open>valid_username\<close>, unused) and password fields
    (\<^const>\<open>signup_form\<close>), and the \<open>CreateView\<close> that saves the user under a
    fresh key (\<^const>\<open>fresh_user_id\<close>) and redirects to the index
    (\<^const>\<open>signup_view\<close>). Lemmas: a sign-up changes the user table only, by a
    valid unused name under a fresh key, keeps the store well-formed, and a valid one
    adds exactly one user.
  \<^item> \<open>System\<close>: the application as a state machine, \<^const>\<open>reachable\<close>, whose
    steps are requests, sign-ups through \<^const>\<open>signup_view\<close>, group creation and
    administrative deletions; the
    follow-graph invariant \<^const>\<open>follows_ok\<close>; one outcome lemma per writing
    handler (store unchanged, or exactly one ORM write under its guards), from which
    the invariants are proved by rule induction: well-formedness, the follow graph,
    valid user names, and \<^const>\<open>texts_clean\<close> (every stored text is a cleaned
    form value).
  \<^item> \<open>Interleaving\<close>: the store change of the follow and unfollow views split
    into the pair of users a request names (\<^const>\<open>follow_target\<close>) and the
    guarded write (\<^const>\<open>follow_step\<close>); two such requests commute up to the
    order of the follow rows (\<^const>\<open>follows_unordered\<close>, the follow table as a
    multiset), unless one follows and the other unfollows the same pair. The follow
    table refines the abstract follow graph (\<^const>\<open>follow_rel\<close>, a set of edges):
    a follow request inserts its edge unless it is a self-follow, an unfollow removes
    it (\<^const>\<open>follow_abs\<close>). The follow view's two queries, the \<open>exists()\<close> check
    (\<^const>\<open>follow_check\<close>) and the create (\<^const>\<open>follow_commit\<close>), are
    separate steps: run back to back they are the view, and interleaved with a second
    request for the same pair they store a duplicate row (\<open>follow_race_duplicate\<close>,
    and \<open>follow_race_demo\<close> from a reachable store).
  \<^item> \<open>Responses\<close>: the status code of each kind of response
    (\<^const>\<open>status_code\<close>) and the tables of \<open>posts/tests/test_urls.py\<close>: the
    template of each page (\<^const>\<open>url_template\<close>) and the status a guest or a
    signed-in user gets on each URL (\<^const>\<open>expected_status\<close>), and the
    template of a response (\<^const>\<open>response_template\<close>, with \<open>core/404.html\<close> for
    the 404 page as \<open>core/tests.py\<close> checks). Theorems: on every path, for every
    store and user, \<^const>\<open>handle\<close> answers the tests' status code and renders
    the tests' template.
  \<^item> \<open>Spec2Isabelle\<close> (this theory): the properties that span components (the store
    invariant of reachable states, anonymous requests read only, the personalised
    feed, newest-first order, the paginated feeds of the tests, a new post heading the
    feeds, redirects that resolve, following always possible) and the witnesses of
    every theorem with hypotheses, on stores built by real request sequences.

  \<^bold>\<open>Modelling choices.\<close>
  Tables are lists in insertion order; \<open>get_object_or_404\<close> is \<^const>\<open>find\<close> on the
  key and a \<^const>\<open>None\<close> is the 404. \<open>auto_now_add\<close> reads a clock that ticks at each
  insert, so a later row has a later timestamp (real clocks can tie; the model
  assumes they do not). \<open>request.user\<close> is anonymous unless the session names an
  existing user. Strings are \<^typ>\<open>string\<close>: in the text fields a \<^typ>\<open>char\<close>
  stands for a code point, so \<open>text[:15]\<close> is \<open>take 15\<close>, and only the ASCII part
  of Python's whitespace and digit tables is modelled; in paths and query strings,
  which Django percent-encodes byte by byte, a string is the UTF-8 encoding of the
  text (the two agree on ASCII). Uploaded images are a name and a flag for Pillow's
  verdict; storage renaming of clashing file names is not modelled. No loop of the
  program needs fuel: its recursions are structural or on \<open>n div 10\<close>; the one loop
  that could run forever, a reader following next links, is a
  \<open>partial_function (option)\<close> whose termination is a theorem.

  \<^bold>\<open>Not modelled.\<close> Template rendering (the HTML), static files and the page cache (pure
  output); the \<open>about\<close> app and the \<open>core\<close> views (static pages, none under
  \<open>src\<close> but their tests; of the core app only the 404 page's template is
  modelled); of the \<open>users\<close> app everything but the sign-up page (login, logout
  and the password views are framework code), and on that page the optional names
  and e-mail fields, the password hash and the settings' password validators (the
  model's user has a key and a name only); password reset; \<open>CommonMiddleware\<close>'s slash-appending
  redirect; the URLs of the
  \<open>admin\<close>, \<open>auth\<close> and \<open>about\<close> apps (\<^const>\<open>handle\<close> serves the posts app);
  \<open>verbose_name\<close> options (display metadata); concurrency inside a request (each
  request is one atomic step, except the follow view whose two queries are split in
  \<open>Interleaving\<close>; the order between requests is studied there for the follow
  views only). The HTML of the templates is not
  modelled; the template name each view passes to \<open>render\<close> is part of the
  response.

  \<^bold>\<open>Further work.\<close> The detail page and profile context
  lemmas; commutation of the other writing requests (comments on different posts,
  posts by different users up to keys).
\<close>

section \<open>Concrete stores for the witnesses\<close>

text \<open>
  Two users sign up through the sign-up page, \<open>auth\<close> publishes a post through the create view, and \<open>bob\<close>
  follows \<open>auth\<close> through the follow view: every store below is reached by steps of
  \<^const>\<open>reachable\<close>, and the theorems' hypotheses are checked on them by evaluation.
\<close>

definition as_user :: "user_id option \<Rightarrow> http_method \<Rightarrow> (string \<times> string) list \<Rightarrow> request" where
  "as_user u m body = \<lparr>req_user = u, req_method = m, req_POST = body, req_FILES = [], req_query = [], req_GET = []\<rparr>"

definition guest_request :: "string \<Rightarrow> request" where
  "guest_request q = \<lparr>req_user = None, req_method = GET, req_POST = [], req_FILES = [], req_query = q, req_GET = parse_qsl q\<rparr>"

definition page_request :: "string \<Rightarrow> request" where
  "page_request n = \<lparr>req_user = None, req_method = GET, req_POST = [], req_FILES = [], req_query = ''page='' @ n, req_GET = [(''page'', n)]\<rparr>"

text \<open>The sign-up of \<open>test_increase_count_users_after_signup\<close>: a user name and the test's password twice.\<close>

definition signup_request :: "string \<Rightarrow> request" where
  "signup_request n =
     as_user None POST [(''username'', n), (''password1'', ''q1w2e3r4t''), (''password2'', ''q1w2e3r4t'')]"

definition demo_users :: db where
  "demo_users = snd (signup_view (snd (signup_view empty_db (signup_request ''auth''))) (signup_request ''bob''))"

definition demo_posted :: db where
  "demo_posted = snd (dispatch demo_users (as_user (Some 1) POST [(''text'', '' hello '')]) URL_post_create)"

definition demo_followed :: db where
  "demo_followed = snd (dispatch demo_posted (as_user (Some 2) GET []) (URL_profile_follow ''auth''))"

definition thirteen_db :: db where
  "thirteen_db = empty_db\<lparr>db_users := [\<lparr>user_pk = 1, username = ''auth''\<rparr>],
     db_groups := [\<lparr>group_pk = 1, group_title = ''T'', group_slug = ''test-slug'', group_description = ''D''\<rparr>],
     db_posts := map (\<lambda>i. \<lparr>post_pk = i, post_text = ''p'', post_pub_date = i, post_author = 1,
                            post_group = Some 1, post_image = []\<rparr>) [1..<14],
     db_next_post := 14, db_clock := 13\<rparr>"

lemma demo_users_eq:
  "demo_users = empty_db\<lparr>db_users := [\<lparr>user_pk = 1, username = ''auth''\<rparr>, \<lparr>user_pk = 2, username = ''bob''\<rparr>]\<rparr>"
  by code_simp

lemma demo_posted_eq:
  "demo_posted = demo_users\<lparr>db_posts := [\<lparr>post_pk = 1, post_text = ''hello'', post_pub_date = 1, post_author = 1,
                  post_group = None, post_image = []\<rparr>], db_next_post := 2, db_clock := 1\<rparr>"
  by code_simp

lemma demo_followed_eq:
  "demo_followed = demo_posted\<lparr>db_follows := [\<lparr>follow_user = 2, follow_author = Some 1\<rparr>]\<rparr>"
  by code_simp

lemma demo_users_reachable: "reachable demo_users"
  unfolding demo_users_def by (intro reachable.signup reachable.init)

lemma demo_posted_reachable: "reachable demo_posted"
  unfolding demo_posted_def by (rule reachable.request [OF demo_users_reachable])

lemma demo_followed_reachable: "reachable demo_followed"
  unfolding demo_followed_def by (rule reachable.request [OF demo_posted_reachable])

lemmas demo_simps = demo_followed_eq demo_posted_eq demo_users_eq empty_db_def as_user_def
  current_user_def get_user_def get_post_def get_user_by_name_def follow_exists_def

section \<open>Properties across components\<close>

lemma show_post_count_thirteen:
  assumes "length xs = 13"
    and "req_GET r1 = [(''page'', ''1'')]" and "req_GET r2 = [(''page'', ''2'')]"
  shows "length (object_list (show_post_count_in_page r1 xs)) = 10 \<and>
         length (object_list (show_post_count_in_page r2 xs)) = 3"
  using assms
  by (simp add: show_post_count_in_page_def qd_get_def get_page_def POST_COUNT_def num_pages_def
      get_page_number_def validate_number_def check_number_def python_int_def py_strip_def py_isspace_def
      py_unsigned_def py_isdigit_def digit_value_def page_object_list)

text \<open>C8: every store reachable from the empty one, by requests to the views, sign-ups, group creation and administrative deletions, is well-formed (unique keys and names, referential integrity, increasing timestamps) and its follow graph has neither a duplicate nor a self edge, although the model declares no constraint for the latter.\<close>

theorem reachable_store_invariant: "reachable d \<Longrightarrow> wf_db d \<and> follows_ok d"
  by (simp add: reachable_wf reachable_follows_ok)

text \<open>C10: a request by the anonymous user, to any URL, leaves the store unchanged.\<close>

theorem anonymous_read_only:
  assumes "current_user d req = None"
  shows "snd (dispatch d req url) = d"
  using assms
  by (cases url) (simp_all add: post_create_def post_edit_def add_comment_def follow_index_def
      profile_follow_def profile_unfollow_def login_required_anonymous)

text \<open>C7: a comment whose text is only whitespace is rejected by the comment form: the view redirects to the post and stores nothing.\<close>

theorem blank_comment_rejected:
  assumes "current_user d req = Some u" and "get_post d pid = Some p"
    and "qd_get (req_POST req) ''text'' = Some s" and "py_strip s = []"
  shows "add_comment d req pid = (Redirect (URL_post_detail pid), d)"
proof -
  have "req_POST req \<noteq> []" using assms(3) by (auto simp: qd_get_def)
  then have "\<forall>t. comment_form (req_POST req) \<noteq> Valid t"
    using assms(3,4) by (simp add: comment_form_def clean_text_def)
  with assms(1,2) show ?thesis by (rule add_comment_invalid)
qed

text \<open>C17: in every reachable store the personalised feed is exactly the posts of the authors the user follows, newest first: the join over follow rows duplicates no post, because the follow view never creates a duplicate edge.\<close>

theorem reachable_follow_feed:
  "reachable d \<Longrightarrow>
   follow_feed d u = posts_ordered (filter (\<lambda>p. follow_exists d u (post_author p)) (db_posts d))"
  by (rule follow_feed_refines) (simp add: reachable_follows_ok [unfolded follows_ok_def])

text \<open>C18: in a reachable store, a post appears in a user's feed exactly when the user follows its author.\<close>

theorem follow_feed_member:
  assumes "reachable d" and "p \<in> set (db_posts d)"
  shows "(p \<in> set (follow_feed d u)) = follow_exists d u (post_author p)"
proof -
  have "distinct (map (\<lambda>f. (follow_user f, follow_author f)) (db_follows d))"
    using reachable_follows_ok [OF assms(1)] by (simp add: follows_ok_def)
  then show ?thesis using assms(2) by (simp add: follow_feed_refines)
qed

text \<open>C21: in a reachable store the newest-first ordering of posts and of comments is the reverse of insertion order, so the most recent row is shown first.\<close>

theorem reachable_newest_first:
  assumes "reachable d"
  shows "posts_ordered (db_posts d) = rev (db_posts d) \<and> comments_ordered (db_comments d) = rev (db_comments d)"
  using reachable_wf [OF assms]
  by (simp add: wf_db_def wf_posts_def wf_comments_def posts_ordered_sorted comments_ordered_sorted)

text \<open>C19: with 13 posts, all by one author and in one group, the first page of the index, of the group's feed and of the author's profile shows 10 posts and the second page 3.\<close>

theorem feeds_thirteen_posts:
  assumes n: "length (db_posts d) = 13"
    and g: "get_group_by_slug d s = Some g" and ing: "\<forall>p \<in> set (db_posts d). post_group p = Some (group_pk g)"
    and a: "get_user_by_name d name = Some a" and bya: "\<forall>p \<in> set (db_posts d). post_author p = user_pk a"
    and r1: "req_GET r1 = [(''page'', ''1'')]" and r2: "req_GET r2 = [(''page'', ''2'')]"
  shows "(\<exists>pg1 pg2. index d r1 = Render ''posts/index.html'' (IndexPage pg1) \<and> index d r2 = Render ''posts/index.html'' (IndexPage pg2) \<and>
            length (object_list pg1) = 10 \<and> length (object_list pg2) = 3) \<and>
         (\<exists>pg1 pg2. group_posts d r1 s = Render ''posts/group_list.html'' (GroupPage g pg1) \<and> group_posts d r2 s = Render ''posts/group_list.html'' (GroupPage g pg2) \<and>
            length (object_list pg1) = 10 \<and> length (object_list pg2) = 3) \<and>
         (\<exists>pg1 pg2 f1 f2. profile d r1 name = Render ''posts/profile.html'' (ProfilePage a pg1 f1) \<and>
            profile d r2 name = Render ''posts/profile.html'' (ProfilePage a pg2 f2) \<and>
            length (object_list pg1) = 10 \<and> length (object_list pg2) = 3)"
proof -
  have "filter (\<lambda>p. post_group p = Some (group_pk g)) (db_posts d) = db_posts d"
    using ing by (simp add: filter_id_conv)
  moreover have "filter (\<lambda>p. post_author p = user_pk a) (db_posts d) = db_posts d"
    using bya by (simp add: filter_id_conv)
  moreover have "length (object_list (show_post_count_in_page r1 (posts_ordered (db_posts d)))) = 10 \<and>
         length (object_list (show_post_count_in_page r2 (posts_ordered (db_posts d)))) = 3"
    using n r1 r2 by (intro show_post_count_thirteen) simp_all
  ultimately show ?thesis using g a by (simp add: index_def group_posts_def profile_def is_following_def Let_def)
qed

text \<open>C28: every redirect a view issues in a reachable store names a URL that, printed by \<open>reverse()\<close> and decoded by the server, resolves to that URL again: the views never redirect to a path the URL patterns do not serve.\<close>

theorem redirects_resolve:
  assumes "reachable d" and "fst (dispatch d req u) = Redirect v"
  shows "resolve_routes (url_unquote (reverse_url v)) = Some v"
proof -
  have "\<forall>x \<in> set (db_users d). is_str (username x)"
    using reachable_usernames [OF assms(1)] valid_username_is_str by blast
  then show ?thesis
    using dispatch_redirect_valid assms(2) reverse_resolves by (simp add: resolve_routes_segments)
qed

text \<open>C20: after a signed-in user creates a post, the new post comes first on the index, on the author's profile and on the feed of its group, ahead of the posts shown before, while the feed of every other group is as it was.\<close>

theorem new_post_heads_feeds:
  assumes "reachable d" and "current_user d req = Some u" and "req_method req = POST"
    and "post_form d (req_POST req) (req_FILES req) [] = Valid pd"
  shows "\<exists>p. post_author p = user_pk u \<and> post_text p = pd_text pd \<and> post_group p = pd_group pd \<and>
     index (snd (post_create d req)) r =
       Render ''posts/index.html'' (IndexPage (show_post_count_in_page r (p # posts_ordered (db_posts d)))) \<and>
     (\<exists>fl. profile (snd (post_create d req)) r (username u) =
       Render ''posts/profile.html'' (ProfilePage u (show_post_count_in_page r
         (p # posts_ordered (filter (\<lambda>q. post_author q = user_pk u) (db_posts d)))) fl)) \<and>
     (\<forall>g. get_group_by_slug d s = Some g \<longrightarrow>
       group_posts (snd (post_create d req)) r s =
         Render ''posts/group_list.html'' (GroupPage g (show_post_count_in_page r
           ((if pd_group pd = Some (group_pk g) then [p] else [])
            @ posts_ordered (filter (\<lambda>q. post_group q = Some (group_pk g)) (db_posts d))))))"
proof -
  define ins where "ins = insert_post (pd_text pd) (user_pk u) (pd_group pd) (pd_image pd) d"
  define p where "p = fst ins"
  have wf: "wf_db d" by (rule reachable_wf [OF assms(1)])
  have create: "snd (post_create d req) = snd ins"
    using post_create_insert [OF assms(2-4)] by (simp add: ins_def)
  have fields: "post_author p = user_pk u" "post_text p = pd_text pd" "post_group p = pd_group pd"
    by (simp_all add: p_def ins_def insert_post_def Let_def)
  have feed: "posts_ordered (filter P (db_posts (snd ins))) =
      (if P p then p # posts_ordered (filter P (db_posts d)) else posts_ordered (filter P (db_posts d)))" for P
    using wf by (simp add: wf_db_def insert_post_ordered p_def ins_def)
  have same: "db_users (snd ins) = db_users d" "db_groups (snd ins) = db_groups d"
    by (simp_all add: ins_def insert_post_def Let_def)
  have "get_user_by_name d (username u) = Some u"
    using wf current_user_member [OF assms(2)]
    by (simp add: get_user_by_name_def find_key_unique wf_db_def wf_users_def)
  then have user: "get_user_by_name (snd ins) (username u) = Some u"
    using same by (simp add: get_user_by_name_def)
  have "index (snd ins) r = Render ''posts/index.html'' (IndexPage (show_post_count_in_page r (p # posts_ordered (db_posts d))))"
    using feed [of "\<lambda>_. True"] by (simp add: index_def)
  moreover have "\<exists>fl. profile (snd ins) r (username u) =
       Render ''posts/profile.html'' (ProfilePage u (show_post_count_in_page r
         (p # posts_ordered (filter (\<lambda>q. post_author q = user_pk u) (db_posts d)))) fl)"
    using user feed [of "\<lambda>q. post_author q = user_pk u"] fields by (simp add: profile_def is_following_def Let_def)
  moreover have "\<forall>g. get_group_by_slug d s = Some g \<longrightarrow>
       group_posts (snd ins) r s =
         Render ''posts/group_list.html'' (GroupPage g (show_post_count_in_page r
           ((if pd_group pd = Some (group_pk g) then [p] else [])
            @ posts_ordered (filter (\<lambda>q. post_group q = Some (group_pk g)) (db_posts d)))))"
    using same feed fields by (simp add: group_posts_def get_group_by_slug_def)
  ultimately show ?thesis using fields create by (intro exI [of _ p]) simp
qed

text \<open>C16: from every reachable store, any user can come to follow any other user with one request: a signed-in request to the other's follow URL yields a reachable store in which the follow row exists, whether or not it existed before.\<close>

theorem follow_always_possible:
  assumes "reachable d" and "u \<in> set (db_users d)" and "a \<in> set (db_users d)" and "user_pk u \<noteq> user_pk a"
  shows "\<exists>req. reachable (snd (dispatch d req (URL_profile_follow (username a)))) \<and>
               follow_exists (snd (dispatch d req (URL_profile_follow (username a)))) (user_pk u) (user_pk a)"
proof -
  define req where "req = \<lparr>req_user = Some (user_pk u), req_method = GET, req_POST = [], req_FILES = [], req_query = [], req_GET = []\<rparr>"
  have wf: "wf_db d" by (rule reachable_wf [OF assms(1)])
  have cu: "current_user d req = Some u"
    using wf assms(2) by (simp add: req_def current_user_def get_user_def find_key_unique wf_db_def wf_users_def)
  have ga: "get_user_by_name d (username a) = Some a"
    using wf assms(3) by (simp add: get_user_by_name_def find_key_unique wf_db_def wf_users_def)
  have "follow_exists (snd (profile_follow d req (username a))) (user_pk u) (user_pk a)"
  proof (cases "follow_exists d (user_pk u) (user_pk a)")
    case True
    then show ?thesis using cu ga by (simp add: profile_follow_def login_required_def Let_def)
  next
    case False
    then show ?thesis
      using profile_follow_new [OF cu ga assms(4) False] by (simp add: insert_follow_def follow_exists_def)
  qed
  moreover have "reachable (snd (dispatch d req (URL_profile_follow (username a))))"
    by (rule reachable.request [OF assms(1)])
  ultimately show ?thesis by (intro exI [of _ req]) simp
qed

section \<open>Witnesses\<close>

text \<open>Each theorem with hypotheses, applied where its hypotheses hold.\<close>

text \<open>C39: in every reachable store a sign-up whose user name, once stripped, is an existing user's name is refused: the sign-up page is shown again with the error that the name is taken and the store is unchanged (no second account, as \<open>test_cant_create_existing_user\<close> checks).\<close>

theorem signup_existing_rejected:
  assumes "reachable d" and "req_method req = POST"
    and "qd_get (req_POST req) ''username'' = Some n" and "get_user_by_name d (py_strip n) = Some u"
  shows "\<exists>es. signup_view d req = (Render ''users/signup.html'' (SignupPage (Invalid es)), d) \<and>
              (''username'', UsernameTaken) \<in> set es"
proof -
  have "u \<in> set (db_users d)" and "username u = py_strip n"
    using get_user_by_name_name [OF assms(4)] by simp_all
  then have "valid_username (py_strip n)" using reachable_usernames [OF assms(1)] by auto
  then have "username_error d (py_strip n) = Some UsernameTaken"
    using assms(4) by (simp add: username_error_def valid_username_def)
  then show ?thesis using assms(2,3) by (simp add: signup_view_def signup_form_def Let_def)
qed

theorem post_create_valid_witness:
  "current_user demo_users (as_user (Some 1) POST [(''text'', '' hello '')]) = Some \<lparr>user_pk = 1, username = ''auth''\<rparr> \<and>
   req_method (as_user (Some 1) POST [(''text'', '' hello '')]) = POST \<and>
   post_form demo_users (req_POST (as_user (Some 1) POST [(''text'', '' hello '')]))
     (req_FILES (as_user (Some 1) POST [(''text'', '' hello '')])) [] =
     Valid \<lparr>pd_text = ''hello'', pd_group = None, pd_image = []\<rparr> \<and>
   (\<exists>p. post_create demo_users (as_user (Some 1) POST [(''text'', '' hello '')]) =
        (Redirect (URL_profile ''auth''),
         demo_users\<lparr>db_posts := db_posts demo_users @ [p], db_next_post := Suc (db_next_post demo_users),
           db_clock := Suc (db_clock demo_users)\<rparr>) \<and>
      post_author p = 1 \<and> post_text p = ''hello'' \<and> post_group p = None \<and> post_image p = [] \<and>
      post_pk p = db_next_post demo_users)"
proof -
  have h1: "current_user demo_users (as_user (Some 1) POST [(''text'', '' hello '')]) = Some \<lparr>user_pk = 1, username = ''auth''\<rparr>"
    by (simp add: demo_simps)
  have h2: "req_method (as_user (Some 1) POST [(''text'', '' hello '')]) = POST"
    by (simp add: as_user_def)
  have h3: "post_form demo_users (req_POST (as_user (Some 1) POST [(''text'', '' hello '')]))
     (req_FILES (as_user (Some 1) POST [(''text'', '' hello '')])) [] =
     Valid \<lparr>pd_text = ''hello'', pd_group = None, pd_image = []\<rparr>"
    by code_simp
  show ?thesis using Views.post_create_valid [OF h1 h2 h3] h1 h2 h3 by simp
qed

theorem post_create_anonymous_witness:
  "current_user demo_users (as_user None POST [(''text'', ''x'')]) = None \<and>
   post_create demo_users (as_user None POST [(''text'', ''x'')]) = (RedirectLogin URL_post_create [], demo_users)"
proof -
  have h: "current_user demo_users (as_user None POST [(''text'', ''x'')]) = None"
    by (simp add: as_user_def current_user_def)
  show ?thesis using Views.post_create_anonymous [OF h] h by (simp add: as_user_def)
qed

theorem post_edit_non_author_witness:
  "current_user demo_followed (as_user (Some 2) POST [(''text'', ''mine'')]) = Some \<lparr>user_pk = 2, username = ''bob''\<rparr> \<and>
   get_post demo_followed 1 = Some (hd (db_posts demo_followed)) \<and>
   post_author (hd (db_posts demo_followed)) \<noteq> user_pk \<lparr>user_pk = 2, username = ''bob''\<rparr> \<and>
   post_edit demo_followed (as_user (Some 2) POST [(''text'', ''mine'')]) 1 = (Redirect (URL_post_detail 1), demo_followed)"
proof -
  have h1: "current_user demo_followed (as_user (Some 2) POST [(''text'', ''mine'')]) = Some \<lparr>user_pk = 2, username = ''bob''\<rparr>"
    by (simp add: demo_simps)
  have h2: "get_post demo_followed 1 = Some (hd (db_posts demo_followed))"
    by (simp add: demo_simps)
  have h3: "post_author (hd (db_posts demo_followed)) \<noteq> user_pk \<lparr>user_pk = 2, username = ''bob''\<rparr>"
    by (simp add: demo_simps)
  show ?thesis using Views.post_edit_non_author [OF h1 h2 h3] h1 h2 h3 by simp
qed

theorem post_edit_author_valid_witness:
  "current_user demo_followed (as_user (Some 1) POST [(''text'', ''edited'')]) = Some \<lparr>user_pk = 1, username = ''auth''\<rparr> \<and>
   get_post demo_followed 1 = Some (hd (db_posts demo_followed)) \<and>
   post_author (hd (db_posts demo_followed)) = user_pk \<lparr>user_pk = 1, username = ''auth''\<rparr> \<and>
   post_form demo_followed (req_POST (as_user (Some 1) POST [(''text'', ''edited'')]))
     (req_FILES (as_user (Some 1) POST [(''text'', ''edited'')])) (post_image (hd (db_posts demo_followed))) =
     Valid \<lparr>pd_text = ''edited'', pd_group = None, pd_image = []\<rparr> \<and>
   fst (post_edit demo_followed (as_user (Some 1) POST [(''text'', ''edited'')]) 1) = Redirect (URL_post_detail 1) \<and>
   get_post (snd (post_edit demo_followed (as_user (Some 1) POST [(''text'', ''edited'')]) 1)) 1 =
     Some ((hd (db_posts demo_followed))\<lparr>post_text := ''edited'', post_group := None, post_image := []\<rparr>)"
proof -
  have h1: "current_user demo_followed (as_user (Some 1) POST [(''text'', ''edited'')]) = Some \<lparr>user_pk = 1, username = ''auth''\<rparr>"
    by (simp add: demo_simps)
  have h2: "get_post demo_followed 1 = Some (hd (db_posts demo_followed))"
    by (simp add: demo_simps)
  have h3: "post_author (hd (db_posts demo_followed)) = user_pk \<lparr>user_pk = 1, username = ''auth''\<rparr>"
    by (simp add: demo_simps)
  have h4: "post_form demo_followed (req_POST (as_user (Some 1) POST [(''text'', ''edited'')]))
     (req_FILES (as_user (Some 1) POST [(''text'', ''edited'')])) (post_image (hd (db_posts demo_followed))) =
     Valid \<lparr>pd_text = ''edited'', pd_group = None, pd_image = []\<rparr>"
    by code_simp
  show ?thesis using Views.post_edit_author_valid [OF h1 h2 h3 h4] h1 h2 h3 h4 by simp
qed

theorem add_comment_anonymous_witness:
  "current_user demo_followed (as_user None POST [(''text'', ''hi'')]) = None \<and>
   add_comment demo_followed (as_user None POST [(''text'', ''hi'')]) 1 = (RedirectLogin (URL_add_comment 1) [], demo_followed)"
proof -
  have h: "current_user demo_followed (as_user None POST [(''text'', ''hi'')]) = None"
    by (simp add: as_user_def current_user_def)
  show ?thesis using Views.add_comment_anonymous [OF h] h by (simp add: as_user_def)
qed

theorem add_comment_valid_witness:
  "wf_db demo_followed \<and>
   current_user demo_followed (as_user (Some 2) POST [(''text'', ''nice'')]) = Some \<lparr>user_pk = 2, username = ''bob''\<rparr> \<and>
   get_post demo_followed 1 = Some (hd (db_posts demo_followed)) \<and>
   comment_form (req_POST (as_user (Some 2) POST [(''text'', ''nice'')])) = Valid ''nice'' \<and>
   length (db_comments (snd (add_comment demo_followed (as_user (Some 2) POST [(''text'', ''nice'')]) 1))) = 1"
proof -
  have h0: "wf_db demo_followed" by (rule reachable_wf [OF demo_followed_reachable])
  have h1: "current_user demo_followed (as_user (Some 2) POST [(''text'', ''nice'')]) = Some \<lparr>user_pk = 2, username = ''bob''\<rparr>"
    by (simp add: demo_simps)
  have h2: "get_post demo_followed 1 = Some (hd (db_posts demo_followed))"
    by (simp add: demo_simps)
  have h3: "comment_form (req_POST (as_user (Some 2) POST [(''text'', ''nice'')])) = Valid ''nice''"
    by code_simp
  have "db_comments demo_followed = []" by (simp add: demo_simps)
  then show ?thesis using Views.add_comment_valid [OF h0 h1 h2 h3, of "as_user (Some 1) GET []"] h0 h1 h2 h3 by simp
qed

theorem follow_unfollow_roundtrip_witness:
  "current_user demo_posted (as_user (Some 2) GET []) = Some \<lparr>user_pk = 2, username = ''bob''\<rparr> \<and>
   get_user_by_name demo_posted ''auth'' = Some \<lparr>user_pk = 1, username = ''auth''\<rparr> \<and>
   user_pk \<lparr>user_pk = 2, username = ''bob''\<rparr> \<noteq> user_pk \<lparr>user_pk = 1, username = ''auth''\<rparr> \<and>
   \<not> follow_exists demo_posted 2 1 \<and>
   snd (profile_unfollow (snd (profile_follow demo_posted (as_user (Some 2) GET []) ''auth'')) (as_user (Some 2) GET []) ''auth'')
     = demo_posted"
proof -
  have h1: "current_user demo_posted (as_user (Some 2) GET []) = Some \<lparr>user_pk = 2, username = ''bob''\<rparr>"
    by (simp add: demo_simps)
  have h2: "get_user_by_name demo_posted ''auth'' = Some \<lparr>user_pk = 1, username = ''auth''\<rparr>"
    by (simp add: demo_simps)
  have h3: "user_pk \<lparr>user_pk = 2, username = ''bob''\<rparr> \<noteq> user_pk \<lparr>user_pk = 1, username = ''auth''\<rparr>"
    by simp
  have h4: "\<not> follow_exists demo_posted (user_pk \<lparr>user_pk = 2, username = ''bob''\<rparr>) (user_pk \<lparr>user_pk = 1, username = ''auth''\<rparr>)"
    by (simp add: demo_simps)
  show ?thesis using Views.follow_unfollow_roundtrip [OF h1 h2 h3 h4] h1 h2 h3 h4 by simp
qed

theorem profile_follow_noop_witness:
  "current_user demo_followed (as_user (Some 2) GET []) = Some \<lparr>user_pk = 2, username = ''bob''\<rparr> \<and>
   get_user_by_name demo_followed ''auth'' = Some \<lparr>user_pk = 1, username = ''auth''\<rparr> \<and>
   follow_exists demo_followed 2 1 \<and>
   profile_follow demo_followed (as_user (Some 2) GET []) ''auth'' = (Redirect (URL_profile ''auth''), demo_followed)"
proof -
  have h1: "current_user demo_followed (as_user (Some 2) GET []) = Some \<lparr>user_pk = 2, username = ''bob''\<rparr>"
    by (simp add: demo_simps)
  have h2: "get_user_by_name demo_followed ''auth'' = Some \<lparr>user_pk = 1, username = ''auth''\<rparr>"
    by (simp add: demo_simps)
  have h3: "user_pk \<lparr>user_pk = 2, username = ''bob''\<rparr> = user_pk \<lparr>user_pk = 1, username = ''auth''\<rparr> \<or>
      follow_exists demo_followed (user_pk \<lparr>user_pk = 2, username = ''bob''\<rparr>) (user_pk \<lparr>user_pk = 1, username = ''auth''\<rparr>)"
    by (simp add: demo_simps)
  show ?thesis using Views.profile_follow_noop [OF h1 h2 h3] h1 h2 h3 by simp
qed

theorem unfollow_removes_witness:
  "current_user demo_followed (as_user (Some 2) GET []) = Some \<lparr>user_pk = 2, username = ''bob''\<rparr> \<and>
   get_user_by_name demo_followed ''auth'' = Some \<lparr>user_pk = 1, username = ''auth''\<rparr> \<and>
   follow_exists demo_followed 2 1 \<and>
   \<not> follow_exists (snd (profile_unfollow demo_followed (as_user (Some 2) GET []) ''auth'')) 2 1"
proof -
  have h1: "current_user demo_followed (as_user (Some 2) GET []) = Some \<lparr>user_pk = 2, username = ''bob''\<rparr>"
    by (simp add: demo_simps)
  have h2: "get_user_by_name demo_followed ''auth'' = Some \<lparr>user_pk = 1, username = ''auth''\<rparr>"
    by (simp add: demo_simps)
  have "follow_exists demo_followed 2 1" by (simp add: demo_simps)
  then show ?thesis using Views.unfollow_removes [OF h1 h2] h1 h2 by simp
qed

theorem blank_comment_rejected_witness:
  "current_user demo_followed (as_user (Some 2) POST [(''text'', ''  '')]) = Some \<lparr>user_pk = 2, username = ''bob''\<rparr> \<and>
   get_post demo_followed 1 = Some (hd (db_posts demo_followed)) \<and>
   qd_get (req_POST (as_user (Some 2) POST [(''text'', ''  '')])) ''text'' = Some ''  '' \<and>
   py_strip ''  '' = [] \<and>
   add_comment demo_followed (as_user (Some 2) POST [(''text'', ''  '')]) 1 = (Redirect (URL_post_detail 1), demo_followed)"
proof -
  have h1: "current_user demo_followed (as_user (Some 2) POST [(''text'', ''  '')]) = Some \<lparr>user_pk = 2, username = ''bob''\<rparr>"
    by (simp add: demo_simps)
  have h2: "get_post demo_followed 1 = Some (hd (db_posts demo_followed))"
    by (simp add: demo_simps)
  have h3: "qd_get (req_POST (as_user (Some 2) POST [(''text'', ''  '')])) ''text'' = Some ''  ''"
    by (simp add: qd_get_def as_user_def)
  have h4: "py_strip ''  '' = []" by code_simp
  show ?thesis using blank_comment_rejected [OF h1 h2 h3 h4] h1 h2 h3 h4 by simp
qed

theorem reachable_store_invariant_witness:
  "reachable demo_followed \<and> wf_db demo_followed \<and> follows_ok demo_followed"
  using reachable_store_invariant [OF demo_followed_reachable] demo_followed_reachable by simp

theorem anonymous_read_only_witness:
  "current_user demo_followed (as_user None POST [(''text'', ''x'')]) = None \<and>
   snd (dispatch demo_followed (as_user None POST [(''text'', ''x'')]) URL_post_create) = demo_followed"
proof -
  have h: "current_user demo_followed (as_user None POST [(''text'', ''x'')]) = None"
    by (simp add: current_user_def as_user_def)
  show ?thesis using anonymous_read_only [OF h, of URL_post_create] h by (simp only: simp_thms)
qed

theorem reachable_follow_feed_witness:
  "reachable demo_followed \<and>
   follow_feed demo_followed 2 =
     posts_ordered (filter (\<lambda>p. follow_exists demo_followed 2 (post_author p)) (db_posts demo_followed))"
  using reachable_follow_feed [OF demo_followed_reachable] demo_followed_reachable by simp

theorem follow_feed_member_witness:
  "reachable demo_followed \<and> hd (db_posts demo_followed) \<in> set (db_posts demo_followed) \<and>
   hd (db_posts demo_followed) \<in> set (follow_feed demo_followed 2) \<and>
   hd (db_posts demo_followed) \<notin> set (follow_feed demo_followed 1)"
proof -
  have p: "hd (db_posts demo_followed) \<in> set (db_posts demo_followed)" by (simp add: demo_simps)
  have "follow_exists demo_followed 2 (post_author (hd (db_posts demo_followed)))"
    and "\<not> follow_exists demo_followed 1 (post_author (hd (db_posts demo_followed)))"
    by (simp_all add: demo_simps)
  then show ?thesis
    using follow_feed_member [OF demo_followed_reachable p, of 2]
      follow_feed_member [OF demo_followed_reachable p, of 1] demo_followed_reachable p
    by simp
qed

theorem reachable_newest_first_witness:
  "reachable demo_followed \<and> posts_ordered (db_posts demo_followed) = rev (db_posts demo_followed) \<and>
   comments_ordered (db_comments demo_followed) = rev (db_comments demo_followed)"
  using reachable_newest_first [OF demo_followed_reachable] demo_followed_reachable by simp

theorem feeds_thirteen_posts_witness:
  "length (db_posts thirteen_db) = 13 \<and>
   (\<exists>pg1 pg2. index thirteen_db (page_request ''1'') = Render ''posts/index.html'' (IndexPage pg1) \<and>
      index thirteen_db (page_request ''2'') = Render ''posts/index.html'' (IndexPage pg2) \<and>
      length (object_list pg1) = 10 \<and> length (object_list pg2) = 3) \<and>
   (\<exists>pg1 pg2. group_posts thirteen_db (page_request ''1'') ''test-slug'' = Render ''posts/group_list.html'' (GroupPage (hd (db_groups thirteen_db)) pg1) \<and>
      group_posts thirteen_db (page_request ''2'') ''test-slug'' = Render ''posts/group_list.html'' (GroupPage (hd (db_groups thirteen_db)) pg2) \<and>
      length (object_list pg1) = 10 \<and> length (object_list pg2) = 3) \<and>
   (\<exists>pg1 pg2 f1 f2. profile thirteen_db (page_request ''1'') ''auth'' = Render ''posts/profile.html'' (ProfilePage (hd (db_users thirteen_db)) pg1 f1) \<and>
      profile thirteen_db (page_request ''2'') ''auth'' = Render ''posts/profile.html'' (ProfilePage (hd (db_users thirteen_db)) pg2 f2) \<and>
      length (object_list pg1) = 10 \<and> length (object_list pg2) = 3)"
proof -
  have n: "length (db_posts thirteen_db) = 13" by (simp add: thirteen_db_def)
  have g: "get_group_by_slug thirteen_db ''test-slug'' = Some (hd (db_groups thirteen_db))"
    by (simp add: thirteen_db_def get_group_by_slug_def)
  have ing: "\<forall>p \<in> set (db_posts thirteen_db). post_group p = Some (group_pk (hd (db_groups thirteen_db)))"
    by (simp add: thirteen_db_def)
  have a: "get_user_by_name thirteen_db ''auth'' = Some (hd (db_users thirteen_db))"
    by (simp add: thirteen_db_def get_user_by_name_def)
  have bya: "\<forall>p \<in> set (db_posts thirteen_db). post_author p = user_pk (hd (db_users thirteen_db))"
    by (simp add: thirteen_db_def)
  have r: "req_GET (page_request ''1'') = [(''page'', ''1'')]" "req_GET (page_request ''2'') = [(''page'', ''2'')]"
    by (simp_all add: page_request_def)
  show ?thesis using feeds_thirteen_posts [OF n g ing a bya r] n by blast
qed

theorem page_request_roundtrip_witness:
  "qd_get (req_GET (page_request (decimal_string 2))) ''page'' = Some (decimal_string 2) \<and>
   1 \<le> (2::nat) \<and> 2 \<le> num_pages (length [1..<14::nat]) POST_COUNT \<and>
   page_number (show_post_count_in_page (page_request (decimal_string 2)) [1..<14::nat]) = 2 \<and>
   object_list (show_post_count_in_page (page_request (decimal_string 2)) [1..<14::nat]) =
     take POST_COUNT (drop ((2 - 1) * POST_COUNT) [1..<14::nat])"
proof -
  have h1: "qd_get (req_GET (page_request (decimal_string 2))) ''page'' = Some (decimal_string 2)"
    by (simp add: page_request_def qd_get_def)
  have h2: "1 \<le> (2::nat)" by simp
  have h3: "2 \<le> num_pages (length [1..<14::nat]) POST_COUNT" by (simp add: num_pages_def POST_COUNT_def)
  show ?thesis using Paginator.page_request_roundtrip [OF h1 h2 h3] h1 h2 h3 by blast
qed

theorem pages_cover_feed_witness:
  "(\<forall>n. qd_get (req_GET (page_request (decimal_string n))) ''page'' = Some (decimal_string n)) \<and>
   concat (map (\<lambda>n. object_list (show_post_count_in_page (page_request (decimal_string n)) [1..<14::nat]))
     [1..<Suc (num_pages (length [1..<14::nat]) POST_COUNT)]) = [1..<14]"
proof -
  have h: "\<forall>n. qd_get (req_GET (page_request (decimal_string n))) ''page'' = Some (decimal_string n)"
    by (simp add: page_request_def qd_get_def)
  show ?thesis by (rule conjI [OF h Paginator.pages_cover_feed [OF h]])
qed

theorem page_full_before_last_witness:
  "page_number (show_post_count_in_page (page_request ''1'') [1..<14::nat]) <
     page_num_pages (show_post_count_in_page (page_request ''1'') [1..<14::nat]) \<and>
   length (object_list (show_post_count_in_page (page_request ''1'') [1..<14::nat])) = POST_COUNT"
proof -
  have h: "page_number (show_post_count_in_page (page_request ''1'') [1..<14::nat]) <
     page_num_pages (show_post_count_in_page (page_request ''1'') [1..<14::nat])"
    by code_simp
  show ?thesis using Paginator.page_full_before_last [OF h] h by simp
qed

theorem page_out_of_range_is_last_witness:
  "qd_get (req_GET (page_request ''0'')) ''page'' = Some ''0'' \<and> python_int ''0'' = Some 0 \<and>
   ((0::int) < 1 \<or> int (num_pages (length [1..<14::nat]) POST_COUNT) < 0) \<and>
   page_number (show_post_count_in_page (page_request ''0'') [1..<14::nat]) = num_pages (length [1..<14::nat]) POST_COUNT"
proof -
  have h1: "qd_get (req_GET (page_request ''0'')) ''page'' = Some ''0''" by (simp add: page_request_def qd_get_def)
  have h2: "python_int ''0'' = Some 0" by code_simp
  have h3: "(0::int) < 1 \<or> int (num_pages (length [1..<14::nat]) POST_COUNT) < 0" by simp
  show ?thesis using Paginator.page_out_of_range_is_last [OF h1 h2 h3] h1 h2 h3 by blast
qed

theorem page_not_integer_is_first_witness:
  "qd_get (req_GET (page_request ''abc'')) ''page'' = Some ''abc'' \<and> python_int ''abc'' = None \<and>
   page_number (show_post_count_in_page (page_request ''abc'') [1..<14::nat]) = 1"
proof -
  have h1: "qd_get (req_GET (page_request ''abc'')) ''page'' = Some ''abc''" by (simp add: page_request_def qd_get_def)
  have h2: "python_int ''abc'' = None" by code_simp
  have "qd_get (req_GET (page_request ''abc'')) ''page'' = None \<or>
        (\<exists>s. qd_get (req_GET (page_request ''abc'')) ''page'' = Some s \<and> python_int s = None)"
    using h1 h2 by blast
  then show ?thesis using Paginator.page_not_integer_is_first [of "page_request ''abc''" "[1..<14::nat]"] h1 h2 by simp
qed

theorem delete_group_keeps_posts_witness:
  "db_posts (delete_group 1 thirteen_db) \<noteq> [] \<and>
   post_group (hd (db_posts (delete_group 1 thirteen_db))) \<noteq> Some 1 \<and>
   map post_pk (db_posts (delete_group 1 thirteen_db)) = map post_pk (db_posts thirteen_db)"
proof -
  have ne: "db_posts (delete_group 1 thirteen_db) \<noteq> []" by (simp add: delete_group_def thirteen_db_def)
  from Models.delete_group_keeps_posts [of 1 thirteen_db]
  have "\<forall>p \<in> set (db_posts (delete_group 1 thirteen_db)). post_group p \<noteq> Some 1"
    and "map post_pk (db_posts (delete_group 1 thirteen_db)) = map post_pk (db_posts thirteen_db)" by simp_all
  with ne show ?thesis by simp
qed

theorem delete_user_cascade_witness:
  "wf_db demo_followed \<and> wf_db (delete_user 1 demo_followed) \<and> 1 \<notin> user_ids (delete_user 1 demo_followed)"
proof -
  have h: "wf_db demo_followed" by (rule reachable_wf [OF demo_followed_reachable])
  show ?thesis using Models.delete_user_cascade [OF h, of 1] h by simp
qed

theorem delete_post_cascade_witness:
  "wf_db demo_followed \<and> wf_db (delete_post 1 demo_followed) \<and>
   length (db_posts (delete_post 1 demo_followed)) = 0"
proof -
  have h: "wf_db demo_followed" by (rule reachable_wf [OF demo_followed_reachable])
  have "1 \<in> post_ids demo_followed" by (simp add: demo_simps post_ids_def)
  moreover have "length (db_posts demo_followed) = 1" by (simp add: demo_simps)
  ultimately show ?thesis using Models.delete_post_cascade [OF h, of 1] h by (simp add: demo_simps)
qed
theorem login_next_roundtrip_witness:
  "valid_url URL_follow_index \<and>
   fst (dispatch demo_users (guest_request ''page=2'') URL_follow_index) = RedirectLogin URL_follow_index ''page=2'' \<and>
   list_all query_char (req_query (guest_request ''page=2'')) \<and>
   location (RedirectLogin URL_follow_index ''page=2'') = Some ''/auth/login/?next=/follow/%3Fpage%3D2'' \<and>
   (\<exists>n. location_next (login_location URL_follow_index ''page=2'') = Some n \<and>
        resolve_routes (target_path n) = Some URL_follow_index \<and> target_query n = ''page=2'')"
proof -
  have h1: "valid_url URL_follow_index" by simp
  have h2: "fst (dispatch demo_users (guest_request ''page=2'') URL_follow_index) = RedirectLogin URL_follow_index ''page=2''"
    by (simp add: follow_index_def login_required_def current_user_def guest_request_def)
  have h3: "list_all query_char (req_query (guest_request ''page=2''))"
    by (simp add: guest_request_def query_char_def always_safe_def slug_char_def py_isdigit_def)
  have h4: "location (RedirectLogin URL_follow_index ''page=2'') = Some ''/auth/login/?next=/follow/%3Fpage%3D2''"
    by code_simp
  show ?thesis using Urlconf.login_next_roundtrip [OF h1 h2 h3] h1 h2 h3 h4 by (simp add: guest_request_def)
qed

theorem redirects_resolve_witness:
  "reachable demo_users \<and>
   fst (dispatch demo_users (as_user (Some 1) POST [(''text'', '' hello '')]) URL_post_create)
     = Redirect (URL_profile ''auth'') \<and>
   resolve_routes (url_unquote (reverse_url (URL_profile ''auth''))) = Some (URL_profile ''auth'')"
proof -
  have h1: "reachable demo_users" by (rule demo_users_reachable)
  have h2: "fst (dispatch demo_users (as_user (Some 1) POST [(''text'', '' hello '')]) URL_post_create)
     = Redirect (URL_profile ''auth'')"
    by code_simp
  show ?thesis using redirects_resolve [OF h1 h2] h1 h2 by simp
qed

theorem anonymous_login_redirect_witness:
  "current_user demo_users (as_user None GET []) = None \<and>
   resolve_routes ''/posts/1/edit/'' = Some (URL_post_edit 1) \<and> login_url (URL_post_edit 1) \<and>
   handle demo_users (as_user None GET []) ''/posts/1/edit/'' = (RedirectLogin (URL_post_edit 1) [], demo_users) \<and>
   location (RedirectLogin (URL_post_edit 1) []) = Some ''/auth/login/?next=/posts/1/edit/''"
proof -
  have h1: "current_user demo_users (as_user None GET []) = None"
    by (simp add: current_user_def as_user_def)
  have h2: "resolve_routes ''/posts/1/edit/'' = Some (URL_post_edit 1)"
    by code_simp
  have h3: "login_url (URL_post_edit 1)" by simp
  have h4: "location (RedirectLogin (URL_post_edit 1) []) = Some ''/auth/login/?next=/posts/1/edit/''"
    by code_simp
  show ?thesis using Urlconf.anonymous_login_redirect [OF h1 h2 h3] h1 h2 h3 h4 by (simp add: as_user_def)
qed

theorem new_post_heads_feeds_witness:
  "reachable demo_users \<and>
   current_user demo_users (as_user (Some 1) POST [(''text'', '' hello '')]) = Some \<lparr>user_pk = 1, username = ''auth''\<rparr> \<and>
   req_method (as_user (Some 1) POST [(''text'', '' hello '')]) = POST \<and>
   post_form demo_users (req_POST (as_user (Some 1) POST [(''text'', '' hello '')]))
     (req_FILES (as_user (Some 1) POST [(''text'', '' hello '')])) [] =
     Valid \<lparr>pd_text = ''hello'', pd_group = None, pd_image = []\<rparr> \<and>
   (\<exists>p. post_text p = ''hello'' \<and> post_author p = 1 \<and>
      index (snd (post_create demo_users (as_user (Some 1) POST [(''text'', '' hello '')]))) (as_user None GET []) =
        Render ''posts/index.html'' (IndexPage (show_post_count_in_page (as_user None GET []) [p])))"
proof -
  have h0: "reachable demo_users" by (rule demo_users_reachable)
  have h1: "current_user demo_users (as_user (Some 1) POST [(''text'', '' hello '')]) = Some \<lparr>user_pk = 1, username = ''auth''\<rparr>"
    by (simp add: demo_simps)
  have h2: "req_method (as_user (Some 1) POST [(''text'', '' hello '')]) = POST"
    by (simp add: as_user_def)
  have h3: "post_form demo_users (req_POST (as_user (Some 1) POST [(''text'', '' hello '')]))
     (req_FILES (as_user (Some 1) POST [(''text'', '' hello '')])) [] =
     Valid \<lparr>pd_text = ''hello'', pd_group = None, pd_image = []\<rparr>"
    by code_simp
  have none: "posts_ordered (db_posts demo_users) = []"
    by (simp add: demo_users_eq empty_db_def posts_ordered_def)
  show ?thesis
    using new_post_heads_feeds [OF h0 h1 h2 h3, of "as_user None GET []" "''x''"] h0 h1 h2 h3 none by auto
qed

theorem follow_next_rows_witness:
  "follow_next (page_request ''2'') [1..<35::nat] =
     Some [\<lparr>object_list = [11..<21], page_number = 2, page_num_pages = 4\<rparr>,
           \<lparr>object_list = [21..<31], page_number = 3, page_num_pages = 4\<rparr>,
           \<lparr>object_list = [31..<35], page_number = 4, page_num_pages = 4\<rparr>] \<and>
   concat (map object_list
     [\<lparr>object_list = [11..<21], page_number = 2, page_num_pages = 4\<rparr>,
      \<lparr>object_list = [21..<31], page_number = 3, page_num_pages = 4\<rparr>,
      \<lparr>object_list = [31..<35::nat], page_number = 4, page_num_pages = 4\<rparr>]) = [11..<35]"
proof -
  have h: "follow_next (page_request ''2'') [1..<35::nat] =
     Some [\<lparr>object_list = [11..<21], page_number = 2, page_num_pages = 4\<rparr>,
           \<lparr>object_list = [21..<31], page_number = 3, page_num_pages = 4\<rparr>,
           \<lparr>object_list = [31..<35], page_number = 4, page_num_pages = 4\<rparr>]"
    by code_simp
  have p2: "drop ((page_number (show_post_count_in_page (page_request ''2'') [1..<35::nat]) - 1) * POST_COUNT)
      [1..<35::nat] = [11..<35]"
    by code_simp
  show ?thesis using Paginator.follow_next_rows [OF h] h p2 by simp
qed

theorem follow_str_defined_witness:
  "wf_db demo_followed \<and> \<lparr>follow_user = 2, follow_author = Some 1\<rparr> \<in> set (db_follows demo_followed) \<and>
   get_user demo_followed 2 = Some \<lparr>user_pk = 2, username = ''bob''\<rparr> \<and>
   follow_str demo_followed \<lparr>follow_user = 2, follow_author = Some 1\<rparr> = Some (''bob'' @ FOLLOW_SEP @ ''auth'')"
proof -
  have h1: "wf_db demo_followed" by (rule reachable_wf [OF demo_followed_reachable])
  have h2: "\<lparr>follow_user = 2, follow_author = Some 1\<rparr> \<in> set (db_follows demo_followed)"
    by (simp add: demo_simps)
  have u: "get_user demo_followed 2 = Some \<lparr>user_pk = 2, username = ''bob''\<rparr>"
    by (simp add: demo_simps)
  have s: "follow_str demo_followed \<lparr>follow_user = 2, follow_author = Some 1\<rparr> = Some (''bob'' @ FOLLOW_SEP @ ''auth'')"
    by (simp add: demo_simps follow_str_def)
  show ?thesis using Models.follow_str_defined [OF h1 h2] h1 h2 u s by simp
qed

theorem reachable_texts_clean_witness:
  "reachable demo_followed \<and> texts_clean demo_followed"
  using System.reachable_texts_clean [OF demo_followed_reachable] demo_followed_reachable by simp

theorem follow_always_possible_witness:
  "reachable demo_posted \<and> \<lparr>user_pk = 2, username = ''bob''\<rparr> \<in> set (db_users demo_posted) \<and>
   \<lparr>user_pk = 1, username = ''auth''\<rparr> \<in> set (db_users demo_posted) \<and> (2::nat) \<noteq> 1 \<and>
   (\<exists>req. reachable (snd (dispatch demo_posted req (URL_profile_follow ''auth''))) \<and>
          follow_exists (snd (dispatch demo_posted req (URL_profile_follow ''auth''))) 2 1)"
proof -
  have h1: "reachable demo_posted" by (rule demo_posted_reachable)
  have h2: "\<lparr>user_pk = 2, username = ''bob''\<rparr> \<in> set (db_users demo_posted)" by (simp add: demo_simps)
  have h3: "\<lparr>user_pk = 1, username = ''auth''\<rparr> \<in> set (db_users demo_posted)" by (simp add: demo_simps)
  have h4: "user_pk \<lparr>user_pk = 2, username = ''bob''\<rparr> \<noteq> user_pk \<lparr>user_pk = 1, username = ''auth''\<rparr>" by simp
  show ?thesis using follow_always_possible [OF h1 h2 h3 h4] h1 h2 h3 by simp
qed

theorem follow_requests_commute_witness:
  "(True = False \<or> follow_target demo_followed (as_user (Some 1) GET []) ''bob'' \<noteq>
                     follow_target demo_followed (as_user (Some 2) GET []) ''auth'') \<and>
   follows_unordered (snd (dispatch (snd (dispatch demo_followed (as_user (Some 1) GET []) (follow_url True ''bob'')))
       (as_user (Some 2) GET []) (follow_url False ''auth''))) =
   follows_unordered (snd (dispatch (snd (dispatch demo_followed (as_user (Some 2) GET []) (follow_url False ''auth'')))
       (as_user (Some 1) GET []) (follow_url True ''bob'')))"
proof -
  have h: "True = False \<or> follow_target demo_followed (as_user (Some 1) GET []) ''bob'' \<noteq>
                     follow_target demo_followed (as_user (Some 2) GET []) ''auth''"
    by (simp add: demo_simps follow_target_def current_user_def get_user_def get_user_by_name_def)
  show ?thesis using Interleaving.follow_requests_commute [OF h] h by simp
qed



theorem handle_template_404_demo:
  "response_template (fst (handle demo_posted (as_user None GET []) ''/nonexist-page/'')) = Some ''core/404.html'' \<and>
   status_code (fst (handle demo_posted (as_user None GET []) ''/nonexist-page/'')) = 404"
proof -
  have r: "resolve_routes ''/nonexist-page/'' = None" by code_simp
  show ?thesis by (simp add: handle_def r)
qed

text \<open>
  The race of the follow view on the demo store: \<open>bob\<close> submits the follow form for
  \<open>auth\<close> twice and both \<open>exists()\<close> checks run before either \<open>create\<close>; the store
  was reachable and its follow graph sound, and it ends with a duplicate row.
\<close>

theorem follow_race_demo:
  "reachable demo_posted \<and> follows_ok demo_posted \<and>
   \<not> follows_ok (follow_commit (follow_check demo_posted (as_user (Some 2) GET []) ''auth'')
                    (follow_commit (follow_check demo_posted (as_user (Some 2) GET []) ''auth'') demo_posted))"
proof -
  have c: "follow_check demo_posted (as_user (Some 2) GET []) ''auth'' = Some (2, 1)"
    by (simp add: demo_simps follow_check_def follow_target_def current_user_def get_user_def
        get_user_by_name_def follow_exists_def)
  have "follows_ok demo_posted" by (simp add: demo_simps follows_ok_def)
  then show ?thesis using demo_posted_reachable Interleaving.follow_race_duplicate [OF c c] by simp
qed

theorem signup_existing_rejected_witness:
  "reachable demo_users \<and> req_method (signup_request ''auth'') = POST \<and>
   qd_get (req_POST (signup_request ''auth'')) ''username'' = Some ''auth'' \<and>
   get_user_by_name demo_users (py_strip ''auth'') = Some \<lparr>user_pk = 1, username = ''auth''\<rparr> \<and>
   (\<exists>es. signup_view demo_users (signup_request ''auth'') =
      (Render ''users/signup.html'' (SignupPage (Invalid es)), demo_users) \<and> (''username'', UsernameTaken) \<in> set es)"
proof -
  have h1: "reachable demo_users" by (rule demo_users_reachable)
  have h2: "req_method (signup_request ''auth'') = POST" by (simp add: signup_request_def as_user_def)
  have h3: "qd_get (req_POST (signup_request ''auth'')) ''username'' = Some ''auth''"
    by (simp add: signup_request_def as_user_def qd_get_def)
  have h4: "get_user_by_name demo_users (py_strip ''auth'') = Some \<lparr>user_pk = 1, username = ''auth''\<rparr>"
    by code_simp
  show ?thesis using signup_existing_rejected [OF h1 h2 h3 h4] h1 h2 h3 h4 by blast
qed

end
